theory Spec2Isabelle
  imports Main "HOL-Library.Word" "HOL-Library.Sublist"
begin

unbundle bit_operations_syntax

section \<open>Structured-table client core: a shallow embedding\<close>

text \<open>
  The development embeds two Go files: the schema/descriptor module
  (\<^verbatim>\<open>proto/structured.go\<close>: \<^verbatim>\<open>validateName\<close>, \<^verbatim>\<open>ValidateTableDesc\<close>,
  \<^verbatim>\<open>TableDescFromSchema\<close>, \<^verbatim>\<open>TableSchemaFromDesc\<close>) and the record/row adapter
  (\<^verbatim>\<open>client/table.go\<close>). Go slices are lists (a nil slice and an empty slice are both
  \<open>[]\<close>, except for the \<^verbatim>\<open>Bytes\<close> payload of a value, where the code tests for nil),
  Go strings and byte slices are byte strings (\<open>string\<close>: an Isabelle \<open>char\<close> is a byte), \<^verbatim>\<open>uint32\<close> is \<open>32 word\<close> and \<^verbatim>\<open>int64\<close>/\<^verbatim>\<open>uint64\<close>
  are \<open>64 word\<close>.
\<close>

type_synonym uint32 = "32 word"
type_synonym int64 = "64 word"
type_synonym uint64 = "64 word"

subsection \<open>Formatting helpers (\<^verbatim>\<open>fmt.Errorf\<close> with \<^verbatim>\<open>%s\<close> and \<^verbatim>\<open>%d\<close>)\<close>

definition dq :: string where
  "dq = [CHR 0x22]"

definition digit :: "nat \<Rightarrow> char" where
  "digit n = ''0123456789'' ! (n mod 10)"

function showd :: "nat \<Rightarrow> string" where
  "showd n = (if n < 10 then [digit n] else showd (n div 10) @ [digit n])"
  by pat_completeness auto
termination
  by (relation "measure id") auto

declare showd.simps [simp del]

subsection \<open>Data model of the schema/descriptor module\<close>

text \<open>
  The message declarations (\<^verbatim>\<open>structured.proto\<close>) are not part of the sources at hand;
  the records list the fields the Go code and its tests use. \<^verbatim>\<open>ColumnDescriptor\<close>
  and \<^verbatim>\<open>IndexDescriptor\<close> embed \<^verbatim>\<open>Column\<close> and \<^verbatim>\<open>Index\<close>, \<^verbatim>\<open>TableDescriptor\<close> and
  \<^verbatim>\<open>TableSchema\<close> embed \<^verbatim>\<open>Table\<close>.
\<close>

datatype ColumnType = BYTES | INT | FLOAT | BOOL | STRING

record Table =
  Name :: string

record Column =
  Name :: string
  Type :: ColumnType

record Index =
  Name :: string
  Unique :: bool

record ColumnDescriptor =
  ID :: uint32
  Column :: Column

record IndexDescriptor =
  ID :: uint32
  Index :: Index
  ColumnIDs :: "uint32 list"

record TableDescriptor =
  Table :: Table
  Columns :: "ColumnDescriptor list"
  Indexes :: "IndexDescriptor list"
  NextColumnID :: uint32
  NextIndexID :: uint32

record TableSchema_IndexByName =
  Index :: Index
  ColumnNames :: "string list"

record TableSchema =
  Table :: Table
  Columns :: "Column list"
  Indexes :: "TableSchema_IndexByName list"

subsection \<open>\<^verbatim>\<open>validateName\<close> and \<^verbatim>\<open>ValidateTableDesc\<close>\<close>

text \<open>An error is the message of the Go \<^verbatim>\<open>error\<close>; \<open>None\<close> is \<^verbatim>\<open>nil\<close>.\<close>

definition validateName :: "string \<Rightarrow> string \<Rightarrow> string option" where
  "validateName name typ =
     (if length name = 0 then Some (''empty '' @ typ @ '' name'')
      else if CHR ''/'' \<in> set name then
        Some (dq @ name @ dq @ '' may not contain '' @ dq @ ''/'' @ dq)
      else None)"

text \<open>
  The loop over \<^verbatim>\<open>desc.Columns\<close>. The two Go maps \<^verbatim>\<open>columnsByName\<close> and
  \<^verbatim>\<open>columnsByID\<close> have the empty struct as value type, so they are sets. The loop
  returns the error, or the final \<^verbatim>\<open>columnsByID\<close>, which the index loop reads.
\<close>

fun validateColumns ::
  "uint32 \<Rightarrow> string set \<Rightarrow> uint32 set \<Rightarrow> ColumnDescriptor list \<Rightarrow> string + uint32 set" where
  "validateColumns next columnsByName columnsByID [] = Inr columnsByID"
| "validateColumns next columnsByName columnsByID (column # rest) =
     (case validateName (Column.Name (Column column)) ''column'' of
        Some err \<Rightarrow> Inl err
      | None \<Rightarrow>
          if Column.Name (Column column) \<in> columnsByName then
            Inl (''duplicate column name: '' @ dq @ Column.Name (Column column) @ dq)
          else if ColumnDescriptor.ID column \<in> columnsByID then
            Inl (''column '' @ dq @ Column.Name (Column column) @ dq @ '' duplicate ID: ''
                 @ showd (unat (ColumnDescriptor.ID column)))
          else if ColumnDescriptor.ID column \<ge> next then
            Inl (''column '' @ dq @ Column.Name (Column column) @ dq @ '' invalid ID (''
                 @ showd (unat (ColumnDescriptor.ID column)) @ '') > next column ID (''
                 @ showd (unat next) @ '')'')
          else validateColumns next
                 (insert (Column.Name (Column column)) columnsByName)
                 (insert (ColumnDescriptor.ID column) columnsByID) rest)"

text \<open>The inner loop over \<^verbatim>\<open>index.ColumnIDs\<close>.\<close>

fun validateColumnIDs :: "string \<Rightarrow> uint32 set \<Rightarrow> uint32 list \<Rightarrow> string option" where
  "validateColumnIDs name columnsByID [] = None"
| "validateColumnIDs name columnsByID (columnID # rest) =
     (if columnID \<notin> columnsByID then
        Some (''index '' @ dq @ name @ dq @ '' contains unknown column ID ''
              @ showd (unat columnID))
      else validateColumnIDs name columnsByID rest)"

text \<open>The loop over \<^verbatim>\<open>desc.Indexes\<close>.\<close>

fun validateIndexes ::
  "uint32 \<Rightarrow> uint32 set \<Rightarrow> string set \<Rightarrow> uint32 set \<Rightarrow> IndexDescriptor list \<Rightarrow> string option" where
  "validateIndexes next columnsByID indexesByName indexesByID [] = None"
| "validateIndexes next columnsByID indexesByName indexesByID (index # rest) =
     (case validateName (Index.Name (IndexDescriptor.Index index)) ''index'' of
        Some err \<Rightarrow> Some err
      | None \<Rightarrow>
          if Index.Name (IndexDescriptor.Index index) \<in> indexesByName then
            Some (''duplicate index name: '' @ dq @ Index.Name (IndexDescriptor.Index index) @ dq)
          else if IndexDescriptor.ID index \<in> indexesByID then
            Some (''index '' @ dq @ Index.Name (IndexDescriptor.Index index) @ dq
                  @ '' duplicate ID: '' @ showd (unat (IndexDescriptor.ID index)))
          else if IndexDescriptor.ID index \<ge> next then
            Some (''index '' @ dq @ Index.Name (IndexDescriptor.Index index) @ dq
                  @ '' invalid index ID ('' @ showd (unat (IndexDescriptor.ID index))
                  @ '') > next index ID ('' @ showd (unat next) @ '')'')
          else if length (ColumnIDs index) = 0 then
            Some (''index '' @ dq @ Index.Name (IndexDescriptor.Index index) @ dq
                  @ '' must contain at least 1 column'')
          else
            (case validateColumnIDs (Index.Name (IndexDescriptor.Index index)) columnsByID
                    (ColumnIDs index) of
               Some err \<Rightarrow> Some err
             | None \<Rightarrow>
                 validateIndexes next columnsByID
                   (insert (Index.Name (IndexDescriptor.Index index)) indexesByName)
                   (insert (IndexDescriptor.ID index) indexesByID) rest))"

definition ValidateTableDesc :: "TableDescriptor \<Rightarrow> string option" where
  "ValidateTableDesc desc =
     (case validateName (Table.Name (TableDescriptor.Table desc)) ''table'' of
        Some err \<Rightarrow> Some err
      | None \<Rightarrow>
          if length (TableDescriptor.Columns desc) = 0 then
            Some ''table must contain at least 1 column''
          else
            (case validateColumns (NextColumnID desc) {} {} (TableDescriptor.Columns desc) of
               Inl err \<Rightarrow> Some err
             | Inr columnsByID \<Rightarrow>
                 if length (TableDescriptor.Indexes desc) = 0 then
                   Some ''table must contain at least 1 index''
                 else
                   validateIndexes (NextIndexID desc) columnsByID {} {}
                     (TableDescriptor.Indexes desc)))"

subsection \<open>\<^verbatim>\<open>TableDescFromSchema\<close> and \<^verbatim>\<open>TableSchemaFromDesc\<close>\<close>

text \<open>
  \<^verbatim>\<open>strings.ToLower\<close> belongs to the Go library; the conversion takes it as the
  parameter \<open>ToLower\<close>, and a name is already lowercase when \<open>ToLower\<close> leaves it
  unchanged. A Go map read at a missing key gives the zero value of the value type:
  \<open>0\<close> for \<^verbatim>\<open>map[string]uint32\<close>, the empty string for \<^verbatim>\<open>map[uint32]string\<close>.
\<close>

definition lookupID :: "(string \<rightharpoonup> uint32) \<Rightarrow> string \<Rightarrow> uint32" where
  "lookupID m k = (case m k of None \<Rightarrow> 0 | Some v \<Rightarrow> v)"

definition lookupName :: "(uint32 \<rightharpoonup> string) \<Rightarrow> uint32 \<Rightarrow> string" where
  "lookupName m k = (case m k of None \<Rightarrow> [] | Some v \<Rightarrow> v)"

text \<open>One iteration of the loop over \<^verbatim>\<open>schema.Columns\<close>; the state is \<^verbatim>\<open>desc\<close> and
  \<^verbatim>\<open>columnsByName\<close>.\<close>

definition descAddColumn ::
  "(string \<Rightarrow> string) \<Rightarrow> TableDescriptor \<times> (string \<rightharpoonup> uint32) \<Rightarrow> Column
     \<Rightarrow> TableDescriptor \<times> (string \<rightharpoonup> uint32)" where
  "descAddColumn ToLower st column =
     (let desc = fst st; columnsByName = snd st;
          columnDesc = \<lparr>ColumnDescriptor.ID = NextColumnID desc, Column = column\<rparr>;
          columnDesc = columnDesc\<lparr>Column := (Column columnDesc)
                         \<lparr>Column.Name := ToLower (Column.Name (Column columnDesc))\<rparr>\<rparr>;
          columnsByName = columnsByName(Column.Name (Column columnDesc)
                                          \<mapsto> ColumnDescriptor.ID columnDesc)
      in (desc\<lparr>TableDescriptor.Columns := TableDescriptor.Columns desc @ [columnDesc],
                NextColumnID := NextColumnID desc + 1\<rparr>,
          columnsByName))"

text \<open>One iteration of the loop over \<^verbatim>\<open>schema.Indexes\<close>.\<close>

definition descAddIndex ::
  "(string \<Rightarrow> string) \<Rightarrow> (string \<rightharpoonup> uint32) \<Rightarrow> TableDescriptor \<Rightarrow> TableSchema_IndexByName
     \<Rightarrow> TableDescriptor" where
  "descAddIndex ToLower columnsByName desc index =
     (let indexDesc = \<lparr>IndexDescriptor.ID = NextIndexID desc,
                        Index = TableSchema_IndexByName.Index index, ColumnIDs = []\<rparr>;
          indexDesc = indexDesc\<lparr>IndexDescriptor.Index := (IndexDescriptor.Index indexDesc)
                         \<lparr>Index.Name := ToLower (Index.Name (IndexDescriptor.Index indexDesc))\<rparr>\<rparr>;
          indexDesc = foldl (\<lambda>d columnName.
                         d\<lparr>ColumnIDs := ColumnIDs d @ [lookupID columnsByName columnName]\<rparr>)
                       indexDesc (ColumnNames index)
      in desc\<lparr>TableDescriptor.Indexes := TableDescriptor.Indexes desc @ [indexDesc],
               NextIndexID := NextIndexID desc + 1\<rparr>)"

definition TableDescFromSchema :: "(string \<Rightarrow> string) \<Rightarrow> TableSchema \<Rightarrow> TableDescriptor" where
  "TableDescFromSchema ToLower schema =
     (let desc = \<lparr>TableDescriptor.Table = TableSchema.Table schema, Columns = [], Indexes = [],
                   NextColumnID = 0, NextIndexID = 0\<rparr>;
          desc = desc\<lparr>TableDescriptor.Table := (TableDescriptor.Table desc)
                   \<lparr>Table.Name := ToLower (Table.Name (TableDescriptor.Table desc))\<rparr>\<rparr>;
          st = foldl (descAddColumn ToLower) (desc, Map.empty) (TableSchema.Columns schema)
      in foldl (descAddIndex ToLower (snd st)) (fst st) (TableSchema.Indexes schema))"

text \<open>One iteration of the loop over \<^verbatim>\<open>desc.Columns\<close>; the state is \<^verbatim>\<open>schema\<close> and
  \<^verbatim>\<open>columnsByID\<close>.\<close>

definition schemaAddColumn ::
  "TableSchema \<times> (uint32 \<rightharpoonup> string) \<Rightarrow> ColumnDescriptor \<Rightarrow> TableSchema \<times> (uint32 \<rightharpoonup> string)" where
  "schemaAddColumn st column =
     (let schema = fst st; columnsByID = snd st
      in (schema\<lparr>TableSchema.Columns := TableSchema.Columns schema @ [Column column]\<rparr>,
          columnsByID(ColumnDescriptor.ID column \<mapsto> Column.Name (Column column))))"

definition schemaAddIndex ::
  "(uint32 \<rightharpoonup> string) \<Rightarrow> TableSchema \<Rightarrow> IndexDescriptor \<Rightarrow> TableSchema" where
  "schemaAddIndex columnsByID schema index =
     (let i = \<lparr>TableSchema_IndexByName.Index = IndexDescriptor.Index index, ColumnNames = []\<rparr>;
          i = foldl (\<lambda>i columnID.
                 i\<lparr>ColumnNames := ColumnNames i @ [lookupName columnsByID columnID]\<rparr>)
               i (ColumnIDs index)
      in schema\<lparr>TableSchema.Indexes := TableSchema.Indexes schema @ [i]\<rparr>)"

definition TableSchemaFromDesc :: "TableDescriptor \<Rightarrow> TableSchema" where
  "TableSchemaFromDesc desc =
     (let schema = \<lparr>TableSchema.Table = TableDescriptor.Table desc, Columns = [], Indexes = []\<rparr>;
          st = foldl schemaAddColumn (schema, Map.empty) (TableDescriptor.Columns desc)
      in foldl (schemaAddIndex (snd st)) (fst st) (TableDescriptor.Indexes desc))"

subsection \<open>The conversion loops in closed form\<close>

lemma descAddColumn_simp:
  "descAddColumn L (d, m) c =
     (d\<lparr>TableDescriptor.Columns := TableDescriptor.Columns d @
          [\<lparr>ColumnDescriptor.ID = NextColumnID d, Column = c\<lparr>Column.Name := L (Column.Name c)\<rparr>\<rparr>],
        NextColumnID := NextColumnID d + 1\<rparr>,
      m(L (Column.Name c) \<mapsto> NextColumnID d))"
  by (simp add: descAddColumn_def Let_def)

lemma lookups_fold:
  "foldl (\<lambda>d columnName. d\<lparr>ColumnIDs := ColumnIDs d @ [f columnName]\<rparr>) d ns
     = d\<lparr>ColumnIDs := ColumnIDs d @ map f ns\<rparr>"
  by (induction ns arbitrary: d) simp_all

lemma names_fold:
  "foldl (\<lambda>i columnID. i\<lparr>ColumnNames := ColumnNames i @ [f columnID]\<rparr>) i ids
     = i\<lparr>ColumnNames := ColumnNames i @ map f ids\<rparr>"
  by (induction ids arbitrary: i) simp_all

lemma descAddIndex_simp:
  "descAddIndex L m d i =
     d\<lparr>TableDescriptor.Indexes := TableDescriptor.Indexes d @
          [\<lparr>IndexDescriptor.ID = NextIndexID d,
            Index = (TableSchema_IndexByName.Index i)
                      \<lparr>Index.Name := L (Index.Name (TableSchema_IndexByName.Index i))\<rparr>,
            ColumnIDs = map (lookupID m) (ColumnNames i)\<rparr>],
        NextIndexID := NextIndexID d + 1\<rparr>"
  by (simp add: descAddIndex_def Let_def lookups_fold)

lemma schemaAddColumn_simp:
  "schemaAddColumn (s, m) c =
     (s\<lparr>TableSchema.Columns := TableSchema.Columns s @ [Column c]\<rparr>,
      m(ColumnDescriptor.ID c \<mapsto> Column.Name (Column c)))"
  by (simp add: schemaAddColumn_def Let_def)

lemma schemaAddIndex_simp:
  "schemaAddIndex m s i =
     s\<lparr>TableSchema.Indexes := TableSchema.Indexes s @
         [\<lparr>TableSchema_IndexByName.Index = IndexDescriptor.Index i,
           ColumnNames = map (lookupName m) (ColumnIDs i)\<rparr>]\<rparr>"
  by (simp add: schemaAddIndex_def Let_def names_fold)

text \<open>
  Closed forms of the four loops: the descriptor columns and indexes that
  \<^verbatim>\<open>TableDescFromSchema\<close> builds, its name-to-ID map, and the ID-to-name map of
  \<^verbatim>\<open>TableSchemaFromDesc\<close>.
\<close>

definition columnDescs :: "(string \<Rightarrow> string) \<Rightarrow> Column list \<Rightarrow> ColumnDescriptor list" where
  "columnDescs L cs = map (\<lambda>j. \<lparr>ColumnDescriptor.ID = of_nat j,
        Column = (cs ! j)\<lparr>Column.Name := L (Column.Name (cs ! j))\<rparr>\<rparr>) [0..<length cs]"

definition indexDescs ::
  "(string \<Rightarrow> string) \<Rightarrow> (string \<rightharpoonup> uint32) \<Rightarrow> TableSchema_IndexByName list \<Rightarrow> IndexDescriptor list" where
  "indexDescs L m is = map (\<lambda>j. \<lparr>IndexDescriptor.ID = of_nat j,
        Index = (TableSchema_IndexByName.Index (is ! j))
                  \<lparr>Index.Name := L (Index.Name (TableSchema_IndexByName.Index (is ! j)))\<rparr>,
        ColumnIDs = map (lookupID m) (ColumnNames (is ! j))\<rparr>) [0..<length is]"

definition namesToIDs :: "(string \<Rightarrow> string) \<Rightarrow> Column list \<Rightarrow> (string \<rightharpoonup> uint32)" where
  "namesToIDs L cs = foldl (\<lambda>m j. m(L (Column.Name (cs ! j)) \<mapsto> of_nat j)) Map.empty [0..<length cs]"

definition idsToNames :: "ColumnDescriptor list \<Rightarrow> (uint32 \<rightharpoonup> string)" where
  "idsToNames ds = foldl (\<lambda>m c. m(ColumnDescriptor.ID c \<mapsto> Column.Name (Column c))) Map.empty ds"

lemma columnDescs_snoc: "columnDescs L (cs @ [c]) = columnDescs L cs @
   [\<lparr>ColumnDescriptor.ID = of_nat (length cs), Column = c\<lparr>Column.Name := L (Column.Name c)\<rparr>\<rparr>]"
  by (simp add: columnDescs_def nth_append)

lemma namesToIDs_snoc: "namesToIDs L (cs @ [c]) = (namesToIDs L cs)(L (Column.Name c) \<mapsto> of_nat (length cs))"
proof -
  have "foldl (\<lambda>m j. m(L (Column.Name ((cs @ [c]) ! j)) \<mapsto> of_nat j)) Map.empty [0..<length cs]
      = foldl (\<lambda>m j. m(L (Column.Name (cs ! j)) \<mapsto> (of_nat j :: uint32))) Map.empty [0..<length cs]"
    by (rule foldl_cong) (simp_all add: nth_append)
  then show ?thesis by (simp add: namesToIDs_def)
qed

lemma indexDescs_snoc: "indexDescs L m (is @ [i]) = indexDescs L m is @
   [\<lparr>IndexDescriptor.ID = of_nat (length is),
     Index = (TableSchema_IndexByName.Index i)\<lparr>Index.Name := L (Index.Name (TableSchema_IndexByName.Index i))\<rparr>,
     ColumnIDs = map (lookupID m) (ColumnNames i)\<rparr>]"
  by (simp add: indexDescs_def nth_append)

lemma columns_loop:
  "foldl (descAddColumn L) (\<lparr>TableDescriptor.Table = t, Columns = [], Indexes = [],
                             NextColumnID = 0, NextIndexID = 0\<rparr>, Map.empty) cs
   = (\<lparr>TableDescriptor.Table = t, Columns = columnDescs L cs, Indexes = [],
        NextColumnID = of_nat (length cs), NextIndexID = 0\<rparr>, namesToIDs L cs)"
proof (induction cs rule: rev_induct)
  case Nil
  show ?case by (simp add: columnDescs_def namesToIDs_def)
next
  case (snoc c cs)
  then show ?case by (auto simp add: descAddColumn_simp columnDescs_snoc namesToIDs_snoc)
qed

lemma indexes_loop:
  "foldl (descAddIndex L m) \<lparr>TableDescriptor.Table = t, Columns = ds, Indexes = [],
                             NextColumnID = k, NextIndexID = 0\<rparr> is
   = \<lparr>TableDescriptor.Table = t, Columns = ds, Indexes = indexDescs L m is,
       NextColumnID = k, NextIndexID = of_nat (length is)\<rparr>"
proof (induction "is" rule: rev_induct)
  case Nil
  show ?case by (simp add: indexDescs_def)
next
  case (snoc i "is")
  then show ?case by (simp add: descAddIndex_simp indexDescs_snoc)
qed

lemma TableDescFromSchema_closed:
  "TableDescFromSchema L s =
     \<lparr>TableDescriptor.Table = (TableSchema.Table s)\<lparr>Table.Name := L (Table.Name (TableSchema.Table s))\<rparr>,
      Columns = columnDescs L (TableSchema.Columns s),
      Indexes = indexDescs L (namesToIDs L (TableSchema.Columns s)) (TableSchema.Indexes s),
      NextColumnID = of_nat (length (TableSchema.Columns s)),
      NextIndexID = of_nat (length (TableSchema.Indexes s))\<rparr>"
  by (simp add: TableDescFromSchema_def Let_def columns_loop indexes_loop)

lemma schema_columns_loop:
  "foldl schemaAddColumn (s, m) ds =
     (s\<lparr>TableSchema.Columns := TableSchema.Columns s @ map Column ds\<rparr>,
      foldl (\<lambda>m c. m(ColumnDescriptor.ID c \<mapsto> Column.Name (Column c))) m ds)"
  by (induction ds arbitrary: s m) (simp_all add: schemaAddColumn_simp)

lemma schema_indexes_loop:
  "foldl (schemaAddIndex m) s is =
     s\<lparr>TableSchema.Indexes := TableSchema.Indexes s @
        map (\<lambda>i. \<lparr>TableSchema_IndexByName.Index = IndexDescriptor.Index i,
                   ColumnNames = map (lookupName m) (ColumnIDs i)\<rparr>) is\<rparr>"
  by (induction "is" arbitrary: s) (simp_all add: schemaAddIndex_simp)

lemma TableSchemaFromDesc_closed:
  "TableSchemaFromDesc d =
     \<lparr>TableSchema.Table = TableDescriptor.Table d,
      Columns = map Column (TableDescriptor.Columns d),
      Indexes = map (\<lambda>i. \<lparr>TableSchema_IndexByName.Index = IndexDescriptor.Index i,
                   ColumnNames = map (lookupName (idsToNames (TableDescriptor.Columns d))) (ColumnIDs i)\<rparr>)
                  (TableDescriptor.Indexes d)\<rparr>"
  by (simp add: TableSchemaFromDesc_def Let_def schema_columns_loop schema_indexes_loop idsToNames_def)

subsection \<open>Names survive the translation to IDs and back\<close>

lemma idsToNames_snoc:
  "idsToNames (ds @ [d]) = (idsToNames ds)(ColumnDescriptor.ID d \<mapsto> Column.Name (Column d))"
  by (simp add: idsToNames_def)

lemma word32_of_nat_inj:
  "i < 2 ^ 32 \<Longrightarrow> j < 2 ^ 32 \<Longrightarrow> (of_nat i :: uint32) = of_nat j \<Longrightarrow> i = j"
  by (simp add: word_of_nat_eq_iff take_bit_nat_eq_self)

lemma namesToIDs_Some:
  "namesToIDs L cs n = Some k \<Longrightarrow> \<exists>j<length cs. k = of_nat j \<and> L (Column.Name (cs ! j)) = n"
proof (induction cs arbitrary: k rule: rev_induct)
  case Nil
  then show ?case by (simp add: namesToIDs_def)
next
  case (snoc c cs)
  show ?case
  proof (cases "n = L (Column.Name c)")
    case True
    with snoc.prems have "k = of_nat (length cs)" by (simp add: namesToIDs_snoc)
    with True show ?thesis by (intro exI [of _ "length cs"]) simp
  next
    case False
    with snoc.prems have "namesToIDs L cs n = Some k" by (simp add: namesToIDs_snoc)
    from snoc.IH [OF this] obtain j where "j < length cs" "k = of_nat j" "L (Column.Name (cs ! j)) = n"
      by blast
    then show ?thesis by (intro exI [of _ j]) (simp add: nth_append)
  qed
qed

lemma namesToIDs_dom:
  "n \<in> (\<lambda>c. L (Column.Name c)) ` set cs \<Longrightarrow> \<exists>k. namesToIDs L cs n = Some k"
  by (induction cs rule: rev_induct) (auto simp add: namesToIDs_snoc)

lemma idsToNames_columnDescs:
  "length cs \<le> 2 ^ 32 \<Longrightarrow> j < length cs \<Longrightarrow>
     idsToNames (columnDescs L cs) (of_nat j) = Some (L (Column.Name (cs ! j)))"
proof (induction cs rule: rev_induct)
  case Nil
  then show ?case by simp
next
  case (snoc c cs)
  show ?case
  proof (cases "j = length cs")
    case True
    then show ?thesis by (simp add: columnDescs_snoc idsToNames_snoc)
  next
    case False
    with snoc.prems have j: "j < length cs" and len: "length cs < 2 ^ 32" by simp_all
    then have "(of_nat j :: uint32) \<noteq> of_nat (length cs)"
      using word32_of_nat_inj [of j "length cs"] by auto
    moreover from snoc.IH j len have "idsToNames (columnDescs L cs) (of_nat j) = Some (L (Column.Name (cs ! j)))"
      by simp
    ultimately show ?thesis using j
      by (simp add: columnDescs_snoc idsToNames_snoc nth_append)
  qed
qed

lemma name_id_name:
  assumes len: "length cs \<le> 2 ^ 32"
    and n: "n \<in> (\<lambda>c. L (Column.Name c)) ` set cs"
  shows "lookupName (idsToNames (columnDescs L cs)) (lookupID (namesToIDs L cs) n) = n"
proof -
  from namesToIDs_dom [OF n] obtain k where k: "namesToIDs L cs n = Some k" by blast
  from namesToIDs_Some [OF k] obtain j where j: "j < length cs" "k = of_nat j"
    "L (Column.Name (cs ! j)) = n" by blast
  from idsToNames_columnDescs [OF len j(1)] j k show ?thesis
    by (simp add: lookupName_def lookupID_def)
qed

lemma map_Column_columnDescs:
  "\<forall>c\<in>set cs. L (Column.Name c) = Column.Name c \<Longrightarrow> map Column (columnDescs L cs) = cs"
  by (rule nth_equalityI) (simp_all add: columnDescs_def)

lemma schema_roundtrip:
  assumes "L (Table.Name (TableSchema.Table s)) = Table.Name (TableSchema.Table s)"
    and cols: "\<forall>c\<in>set (TableSchema.Columns s). L (Column.Name c) = Column.Name c"
    and "\<forall>i\<in>set (TableSchema.Indexes s).
           L (Index.Name (TableSchema_IndexByName.Index i)) = Index.Name (TableSchema_IndexByName.Index i)"
    and refs: "\<forall>i\<in>set (TableSchema.Indexes s). \<forall>n\<in>set (ColumnNames i).
           n \<in> Column.Name ` set (TableSchema.Columns s)"
    and len: "length (TableSchema.Columns s) \<le> 2 ^ 32"
  shows "TableSchemaFromDesc (TableDescFromSchema L s) = s"
proof -
  let ?cs = "TableSchema.Columns s" and ?is = "TableSchema.Indexes s"
  let ?m = "namesToIDs L ?cs"
  have same: "(\<lambda>c. L (Column.Name c)) ` set ?cs = Column.Name ` set ?cs"
    using cols by (intro image_cong) simp_all
  have one: "\<lparr>TableSchema_IndexByName.Index = IndexDescriptor.Index (indexDescs L ?m ?is ! j),
        ColumnNames = map (lookupName (idsToNames (columnDescs L ?cs)))
                        (ColumnIDs (indexDescs L ?m ?is ! j))\<rparr> = ?is ! j"
    if j: "j < length ?is" for j
  proof -
    from j have mem: "?is ! j \<in> set ?is" by simp
    have "map (lookupName (idsToNames (columnDescs L ?cs)) \<circ> lookupID ?m) (ColumnNames (?is ! j))
            = ColumnNames (?is ! j)"
      using refs mem name_id_name [OF len, of _ L] same
      by (intro map_idI) (simp add: comp_def)
    with j mem assms(3) show ?thesis by (simp add: indexDescs_def)
  qed
  have "map (\<lambda>i. \<lparr>TableSchema_IndexByName.Index = IndexDescriptor.Index i,
                   ColumnNames = map (lookupName (idsToNames (columnDescs L ?cs))) (ColumnIDs i)\<rparr>)
          (indexDescs L ?m ?is) = ?is"
  proof (rule nth_equalityI)
    show "length (map (\<lambda>i. \<lparr>TableSchema_IndexByName.Index = IndexDescriptor.Index i,
                   ColumnNames = map (lookupName (idsToNames (columnDescs L ?cs))) (ColumnIDs i)\<rparr>)
          (indexDescs L ?m ?is)) = length ?is"
      by (simp add: indexDescs_def)
  next
    fix j
    assume "j < length (map (\<lambda>i. \<lparr>TableSchema_IndexByName.Index = IndexDescriptor.Index i,
                   ColumnNames = map (lookupName (idsToNames (columnDescs L ?cs))) (ColumnIDs i)\<rparr>)
          (indexDescs L ?m ?is))"
    then have j: "j < length ?is" by (simp add: indexDescs_def)
    then have "j < length (indexDescs L ?m ?is)" by (simp add: indexDescs_def)
    with one [OF j] show "map (\<lambda>i. \<lparr>TableSchema_IndexByName.Index = IndexDescriptor.Index i,
                   ColumnNames = map (lookupName (idsToNames (columnDescs L ?cs))) (ColumnIDs i)\<rparr>)
          (indexDescs L ?m ?is) ! j = ?is ! j"
      by simp
  qed
  with assms(1) map_Column_columnDescs [OF cols] show ?thesis
    by (simp add: TableSchemaFromDesc_closed TableDescFromSchema_closed)
qed

subsection \<open>The validator as the first failing check of a list\<close>

text \<open>
  The checks of the validator, one list in the order the code runs them, each check
  stated on the descriptor alone (\<open>earlier\<close> are the columns or indexes before the
  one checked). \<open>firstFailure\<close> picks the first message.
\<close>

fun firstFailure :: "'e option list \<Rightarrow> 'e option" where
  "firstFailure [] = None"
| "firstFailure (Some e # checks) = Some e"
| "firstFailure (None # checks) = firstFailure checks"

definition columnName :: "ColumnDescriptor \<Rightarrow> string" where
  "columnName c = Column.Name (Column c)"

definition indexName :: "IndexDescriptor \<Rightarrow> string" where
  "indexName i = Index.Name (IndexDescriptor.Index i)"

definition columnCheck :: "uint32 \<Rightarrow> ColumnDescriptor list \<Rightarrow> ColumnDescriptor \<Rightarrow> string option" where
  "columnCheck next earlier c = firstFailure
     [validateName (columnName c) ''column'',
      if columnName c \<in> set (map columnName earlier)
      then Some (''duplicate column name: '' @ dq @ columnName c @ dq) else None,
      if ColumnDescriptor.ID c \<in> set (map ColumnDescriptor.ID earlier)
      then Some (''column '' @ dq @ columnName c @ dq @ '' duplicate ID: ''
                 @ showd (unat (ColumnDescriptor.ID c))) else None,
      if next \<le> ColumnDescriptor.ID c
      then Some (''column '' @ dq @ columnName c @ dq @ '' invalid ID (''
                 @ showd (unat (ColumnDescriptor.ID c)) @ '') > next column ID (''
                 @ showd (unat next) @ '')'') else None]"

definition indexCheck ::
  "uint32 \<Rightarrow> ColumnDescriptor list \<Rightarrow> IndexDescriptor list \<Rightarrow> IndexDescriptor \<Rightarrow> string option" where
  "indexCheck next columns earlier i = firstFailure
     [validateName (indexName i) ''index'',
      if indexName i \<in> set (map indexName earlier)
      then Some (''duplicate index name: '' @ dq @ indexName i @ dq) else None,
      if IndexDescriptor.ID i \<in> set (map IndexDescriptor.ID earlier)
      then Some (''index '' @ dq @ indexName i @ dq @ '' duplicate ID: ''
                 @ showd (unat (IndexDescriptor.ID i))) else None,
      if next \<le> IndexDescriptor.ID i
      then Some (''index '' @ dq @ indexName i @ dq @ '' invalid index ID (''
                 @ showd (unat (IndexDescriptor.ID i)) @ '') > next index ID (''
                 @ showd (unat next) @ '')'') else None,
      if ColumnIDs i = []
      then Some (''index '' @ dq @ indexName i @ dq @ '' must contain at least 1 column'') else None,
      case filter (\<lambda>columnID. columnID \<notin> set (map ColumnDescriptor.ID columns)) (ColumnIDs i) of
        [] \<Rightarrow> None
      | columnID # _ \<Rightarrow> Some (''index '' @ dq @ indexName i @ dq @ '' contains unknown column ID ''
                             @ showd (unat columnID))]"

definition tableChecks :: "TableDescriptor \<Rightarrow> string option list" where
  "tableChecks desc =
     [validateName (Table.Name (TableDescriptor.Table desc)) ''table'',
      if TableDescriptor.Columns desc = [] then Some ''table must contain at least 1 column'' else None]
     @ map (\<lambda>j. columnCheck (NextColumnID desc) (take j (TableDescriptor.Columns desc))
                   (TableDescriptor.Columns desc ! j))
         [0..<length (TableDescriptor.Columns desc)]
     @ [if TableDescriptor.Indexes desc = [] then Some ''table must contain at least 1 index'' else None]
     @ map (\<lambda>j. indexCheck (NextIndexID desc) (TableDescriptor.Columns desc)
                   (take j (TableDescriptor.Indexes desc)) (TableDescriptor.Indexes desc ! j))
         [0..<length (TableDescriptor.Indexes desc)]"

lemma firstFailure_append:
  "firstFailure (xs @ ys) = (case firstFailure xs of Some e \<Rightarrow> Some e | None \<Rightarrow> firstFailure ys)"
  by (induction xs rule: firstFailure.induct) simp_all

lemma firstFailure_None: "firstFailure xs = None \<longleftrightarrow> (\<forall>x\<in>set xs. x = None)"
  by (induction xs rule: firstFailure.induct) simp_all

lemma validateColumnIDs_filter:
  "validateColumnIDs name S ids =
     (case filter (\<lambda>columnID. columnID \<notin> S) ids of
        [] \<Rightarrow> None
      | columnID # _ \<Rightarrow> Some (''index '' @ dq @ name @ dq @ '' contains unknown column ID ''
                             @ showd (unat columnID)))"
  by (induction ids) simp_all

lemma validateColumns_checks:
  "validateColumns next (columnName ` set pre) (ColumnDescriptor.ID ` set pre) ds =
     (case firstFailure (map (\<lambda>j. columnCheck next (pre @ take j ds) (ds ! j)) [0..<length ds]) of
        Some e \<Rightarrow> Inl e
      | None \<Rightarrow> Inr (ColumnDescriptor.ID ` set (pre @ ds)))"
proof (induction ds arbitrary: pre)
  case Nil
  show ?case by simp
next
  case (Cons c ds)
  have step: "validateColumns next (insert (columnName c) (columnName ` set pre))
                (insert (ColumnDescriptor.ID c) (ColumnDescriptor.ID ` set pre)) ds =
     (case firstFailure (map (\<lambda>j. columnCheck next (pre @ c # take j ds) (ds ! j)) [0..<length ds]) of
        Some e \<Rightarrow> Inl e
      | None \<Rightarrow> Inr (ColumnDescriptor.ID ` set (pre @ c # ds)))"
    using Cons.IH [of "pre @ [c]"] by (simp split: option.split)
  show ?case
    by (simp only: length_Cons map_upt_Suc) 
       (simp add: step columnCheck_def columnName_def [symmetric] split: option.split)
qed

lemma validateIndexes_checks:
  "validateIndexes next (ColumnDescriptor.ID ` set columns) (indexName ` set pre)
       (IndexDescriptor.ID ` set pre) is =
     firstFailure (map (\<lambda>j. indexCheck next columns (pre @ take j is) (is ! j)) [0..<length is])"
proof (induction "is" arbitrary: pre)
  case Nil
  show ?case by simp
next
  case (Cons i "is")
  have step: "validateIndexes next (ColumnDescriptor.ID ` set columns)
                (insert (indexName i) (indexName ` set pre))
                (insert (IndexDescriptor.ID i) (IndexDescriptor.ID ` set pre)) is =
     firstFailure (map (\<lambda>j. indexCheck next columns (pre @ i # take j is) (is ! j)) [0..<length is])"
    using Cons.IH [of "pre @ [i]"] by simp
  show ?case
    by (simp only: length_Cons map_upt_Suc)
       (simp add: step indexCheck_def indexName_def [symmetric] validateColumnIDs_filter
             split: option.split list.split)
qed

lemma ValidateTableDesc_checks: "ValidateTableDesc desc = firstFailure (tableChecks desc)"
proof -
  have cols: "validateColumns (NextColumnID desc) {} {} (TableDescriptor.Columns desc) =
     (case firstFailure (map (\<lambda>j. columnCheck (NextColumnID desc)
                 (take j (TableDescriptor.Columns desc)) (TableDescriptor.Columns desc ! j))
              [0..<length (TableDescriptor.Columns desc)]) of
        Some e \<Rightarrow> Inl e
      | None \<Rightarrow> Inr (ColumnDescriptor.ID ` set (TableDescriptor.Columns desc)))"
    using validateColumns_checks [of "NextColumnID desc" "[]" "TableDescriptor.Columns desc"]
    by (simp split: option.split)
  have idxs: "validateIndexes (NextIndexID desc) (ColumnDescriptor.ID ` set (TableDescriptor.Columns desc))
       {} {} (TableDescriptor.Indexes desc) =
     firstFailure (map (\<lambda>j. indexCheck (NextIndexID desc) (TableDescriptor.Columns desc)
                 (take j (TableDescriptor.Indexes desc)) (TableDescriptor.Indexes desc ! j))
              [0..<length (TableDescriptor.Indexes desc)])"
    using validateIndexes_checks [of "NextIndexID desc" "TableDescriptor.Columns desc" "[]"
        "TableDescriptor.Indexes desc"]
    by simp
  show ?thesis
    unfolding ValidateTableDesc_def tableChecks_def
    by (simp add: cols idxs firstFailure_append split: option.split)
qed

lemma columnCheck_None:
  "columnCheck next earlier c = None \<longleftrightarrow>
     columnName c \<noteq> [] \<and> CHR ''/'' \<notin> set (columnName c)
     \<and> columnName c \<notin> columnName ` set earlier
     \<and> ColumnDescriptor.ID c \<notin> ColumnDescriptor.ID ` set earlier
     \<and> ColumnDescriptor.ID c < next"
  by (auto simp add: columnCheck_def firstFailure_None validateName_def)

lemma first_filtered_None:
  "(case filter P xs of [] \<Rightarrow> None | x # _ \<Rightarrow> Some (f x)) = None \<longleftrightarrow> (\<forall>x\<in>set xs. \<not> P x)"
  by (induction xs) auto

lemma indexCheck_None:
  "indexCheck next columns earlier i = None \<longleftrightarrow>
     indexName i \<noteq> [] \<and> CHR ''/'' \<notin> set (indexName i)
     \<and> indexName i \<notin> indexName ` set earlier
     \<and> IndexDescriptor.ID i \<notin> IndexDescriptor.ID ` set earlier
     \<and> IndexDescriptor.ID i < next
     \<and> ColumnIDs i \<noteq> []
     \<and> set (ColumnIDs i) \<subseteq> ColumnDescriptor.ID ` set columns"
  by (auto simp add: indexCheck_def firstFailure_None validateName_def first_filtered_None)

lemma ValidateTableDesc_None:
  "ValidateTableDesc desc = None \<longleftrightarrow>
     Table.Name (TableDescriptor.Table desc) \<noteq> []
     \<and> CHR ''/'' \<notin> set (Table.Name (TableDescriptor.Table desc))
     \<and> TableDescriptor.Columns desc \<noteq> []
     \<and> (\<forall>j<length (TableDescriptor.Columns desc).
          columnCheck (NextColumnID desc) (take j (TableDescriptor.Columns desc))
             (TableDescriptor.Columns desc ! j) = None)
     \<and> TableDescriptor.Indexes desc \<noteq> []
     \<and> (\<forall>j<length (TableDescriptor.Indexes desc).
          indexCheck (NextIndexID desc) (TableDescriptor.Columns desc)
             (take j (TableDescriptor.Indexes desc)) (TableDescriptor.Indexes desc ! j) = None)"
  by (auto simp add: ValidateTableDesc_checks tableChecks_def firstFailure_None validateName_def)

subsection \<open>Descriptors built from a schema validate\<close>

lemma length_columnDescs [simp]: "length (columnDescs L cs) = length cs"
  by (simp add: columnDescs_def)

lemma length_indexDescs [simp]: "length (indexDescs L m is) = length is"
  by (simp add: indexDescs_def)

lemma nth_columnDescs:
  "j < length cs \<Longrightarrow> columnDescs L cs ! j =
     \<lparr>ColumnDescriptor.ID = of_nat j, Column = (cs ! j)\<lparr>Column.Name := L (Column.Name (cs ! j))\<rparr>\<rparr>"
  by (simp add: columnDescs_def)

lemma nth_indexDescs:
  "j < length is \<Longrightarrow> indexDescs L m is ! j =
     \<lparr>IndexDescriptor.ID = of_nat j,
      Index = (TableSchema_IndexByName.Index (is ! j))
                \<lparr>Index.Name := L (Index.Name (TableSchema_IndexByName.Index (is ! j)))\<rparr>,
      ColumnIDs = map (lookupID m) (ColumnNames (is ! j))\<rparr>"
  by (simp add: indexDescs_def)

lemma in_set_takeD: "x \<in> set (take j xs) \<Longrightarrow> j \<le> length xs \<Longrightarrow> \<exists>i<j. x = xs ! i"
  by (auto simp add: in_set_conv_nth)

lemma word32_of_nat_less:
  "i < j \<Longrightarrow> j < 2 ^ 32 \<Longrightarrow> (of_nat i :: uint32) < of_nat j"
  by (simp add: word_less_nat_alt unat_of_nat)

lemma columnDescs_valid:
  assumes names: "\<forall>c\<in>set cs. L (Column.Name c) = Column.Name c \<and> Column.Name c \<noteq> []
                     \<and> CHR ''/'' \<notin> set (Column.Name c)"
    and dist: "distinct (map Column.Name cs)"
    and len: "length cs < 2 ^ 32"
    and j: "j < length cs"
  shows "columnCheck (of_nat (length cs)) (take j (columnDescs L cs)) (columnDescs L cs ! j) = None"
proof -
  have low: "L (Column.Name (cs ! i)) = Column.Name (cs ! i)" if "i < length cs" for i
    using names that by simp
  have earlier: "\<exists>i<j. d = columnDescs L cs ! i" if "d \<in> set (take j (columnDescs L cs))" for d
    using in_set_takeD [OF that] j by simp
  have "columnName (columnDescs L cs ! j) \<notin> columnName ` set (take j (columnDescs L cs))"
  proof
    assume "columnName (columnDescs L cs ! j) \<in> columnName ` set (take j (columnDescs L cs))"
    then obtain i where i: "i < j" "columnName (columnDescs L cs ! j) = columnName (columnDescs L cs ! i)"
      using earlier by auto
    with j have "Column.Name (cs ! j) = Column.Name (cs ! i)"
      by (simp add: nth_columnDescs columnName_def low)
    with dist i(1) j have "j = i"
      using nth_eq_iff_index_eq [of "map Column.Name cs" j i] by simp
    with i(1) show False by simp
  qed
  moreover have "ColumnDescriptor.ID (columnDescs L cs ! j)
                   \<notin> ColumnDescriptor.ID ` set (take j (columnDescs L cs))"
  proof
    assume "ColumnDescriptor.ID (columnDescs L cs ! j)
              \<in> ColumnDescriptor.ID ` set (take j (columnDescs L cs))"
    then obtain i where i: "i < j"
      "ColumnDescriptor.ID (columnDescs L cs ! j) = ColumnDescriptor.ID (columnDescs L cs ! i)"
      using earlier by auto
    with j have "(of_nat j :: uint32) = of_nat i" by (simp add: nth_columnDescs)
    with i(1) j len have "j = i" using word32_of_nat_inj [of j i] by simp
    with i(1) show False by simp
  qed
  moreover have "ColumnDescriptor.ID (columnDescs L cs ! j) < of_nat (length cs)"
    using j len by (simp add: nth_columnDescs word32_of_nat_less)
  moreover have "columnName (columnDescs L cs ! j) \<noteq> []"
    "CHR ''/'' \<notin> set (columnName (columnDescs L cs ! j))"
    using j names by (simp_all add: nth_columnDescs columnName_def)
  ultimately show ?thesis by (simp add: columnCheck_None)
qed

lemma lookupID_known:
  assumes "n \<in> (\<lambda>c. L (Column.Name c)) ` set cs"
  shows "lookupID (namesToIDs L cs) n \<in> ColumnDescriptor.ID ` set (columnDescs L cs)"
proof -
  from namesToIDs_dom [OF assms] obtain k where k: "namesToIDs L cs n = Some k" by blast
  from namesToIDs_Some [OF k] obtain j where j: "j < length cs" "k = of_nat j" by blast
  then have "ColumnDescriptor.ID (columnDescs L cs ! j) = k" by (simp add: nth_columnDescs)
  moreover have "columnDescs L cs ! j \<in> set (columnDescs L cs)" using j by simp
  ultimately show ?thesis using k by (force simp add: lookupID_def)
qed

lemma indexDescs_valid:
  assumes names: "\<forall>i\<in>set is. L (Index.Name (TableSchema_IndexByName.Index i))
                       = Index.Name (TableSchema_IndexByName.Index i)
                     \<and> Index.Name (TableSchema_IndexByName.Index i) \<noteq> []
                     \<and> CHR ''/'' \<notin> set (Index.Name (TableSchema_IndexByName.Index i))"
    and dist: "distinct (map (\<lambda>i. Index.Name (TableSchema_IndexByName.Index i)) is)"
    and refs: "\<forall>i\<in>set is. ColumnNames i \<noteq> []
                 \<and> set (ColumnNames i) \<subseteq> (\<lambda>c. L (Column.Name c)) ` set cs"
    and len: "length is < 2 ^ 32"
    and j: "j < length is"
  shows "indexCheck (of_nat (length is)) (columnDescs L cs)
           (take j (indexDescs L (namesToIDs L cs) is)) (indexDescs L (namesToIDs L cs) is ! j) = None"
proof -
  let ?ds = "indexDescs L (namesToIDs L cs) is"
  have low: "L (Index.Name (TableSchema_IndexByName.Index (is ! i)))
               = Index.Name (TableSchema_IndexByName.Index (is ! i))" if "i < length is" for i
    using names that by simp
  have earlier: "\<exists>i<j. d = ?ds ! i" if "d \<in> set (take j ?ds)" for d
    using in_set_takeD [OF that] j by simp
  have "indexName (?ds ! j) \<notin> indexName ` set (take j ?ds)"
  proof
    assume "indexName (?ds ! j) \<in> indexName ` set (take j ?ds)"
    then obtain i where i: "i < j" "indexName (?ds ! j) = indexName (?ds ! i)"
      using earlier by auto
    with j have "Index.Name (TableSchema_IndexByName.Index (is ! j))
                   = Index.Name (TableSchema_IndexByName.Index (is ! i))"
      by (simp add: nth_indexDescs indexName_def low)
    with dist i(1) j have "j = i"
      using nth_eq_iff_index_eq
        [of "map (\<lambda>i. Index.Name (TableSchema_IndexByName.Index i)) is" j i] by simp
    with i(1) show False by simp
  qed
  moreover have "IndexDescriptor.ID (?ds ! j) \<notin> IndexDescriptor.ID ` set (take j ?ds)"
  proof
    assume "IndexDescriptor.ID (?ds ! j) \<in> IndexDescriptor.ID ` set (take j ?ds)"
    then obtain i where i: "i < j" "IndexDescriptor.ID (?ds ! j) = IndexDescriptor.ID (?ds ! i)"
      using earlier by auto
    with j have "(of_nat j :: uint32) = of_nat i" by (simp add: nth_indexDescs)
    with i(1) j len have "j = i" using word32_of_nat_inj [of j i] by simp
    with i(1) show False by simp
  qed
  moreover have "IndexDescriptor.ID (?ds ! j) < of_nat (length is)"
    using j len by (simp add: nth_indexDescs word32_of_nat_less)
  moreover have "indexName (?ds ! j) \<noteq> []" "CHR ''/'' \<notin> set (indexName (?ds ! j))"
    using j names by (simp_all add: nth_indexDescs indexName_def)
  moreover have "ColumnIDs (?ds ! j) \<noteq> []"
    using j refs by (simp add: nth_indexDescs)
  moreover have "set (ColumnIDs (?ds ! j)) \<subseteq> ColumnDescriptor.ID ` set (columnDescs L cs)"
  proof -
    from j refs have "set (ColumnNames (is ! j)) \<subseteq> (\<lambda>c. L (Column.Name c)) ` set cs" by simp
    then show ?thesis using j lookupID_known [of _ L cs]
      by (auto simp add: nth_indexDescs)
  qed
  ultimately show ?thesis by (simp add: indexCheck_None)
qed

subsection \<open>Concrete schemas and descriptors\<close>

text \<open>
  On ASCII names \<^verbatim>\<open>strings.ToLower\<close> maps \<open>A\<close>..\<open>Z\<close> to \<open>a\<close>..\<open>z\<close> and leaves every
  other byte alone; \<open>asciiToLower\<close> instantiates the parameter \<open>ToLower\<close> at the
  concrete schemas below.
\<close>

definition lowerByte :: "char \<Rightarrow> char" where
  "lowerByte c =
     (case map_of (zip ''ABCDEFGHIJKLMNOPQRSTUVWXYZ'' ''abcdefghijklmnopqrstuvwxyz'') c of
        Some l \<Rightarrow> l
      | None \<Rightarrow> c)"

definition asciiToLower :: "string \<Rightarrow> string" where
  "asciiToLower s = map lowerByte s"

text \<open>The schema of \<^verbatim>\<open>TestTableDescFromSchema\<close>.\<close>

definition fooSchema :: TableSchema where
  "fooSchema =
     \<lparr>TableSchema.Table = \<lparr>Table.Name = ''foo''\<rparr>,
      Columns = [\<lparr>Column.Name = ''a'', Type = BYTES\<rparr>, \<lparr>Column.Name = ''b'', Type = BYTES\<rparr>,
                 \<lparr>Column.Name = ''c'', Type = BYTES\<rparr>],
      Indexes = [\<lparr>TableSchema_IndexByName.Index = \<lparr>Index.Name = ''a'', Unique = True\<rparr>,
                  ColumnNames = [''a'']\<rparr>,
                 \<lparr>TableSchema_IndexByName.Index = \<lparr>Index.Name = ''b'', Unique = False\<rparr>,
                  ColumnNames = [''a'', ''b'']\<rparr>]\<rparr>"

text \<open>A schema with one column and no index.\<close>

definition noIndexSchema :: TableSchema where
  "noIndexSchema =
     \<lparr>TableSchema.Table = \<lparr>Table.Name = ''foo''\<rparr>,
      Columns = [\<lparr>Column.Name = ''a'', Type = BYTES\<rparr>],
      Indexes = []\<rparr>"

subsection \<open>The hypotheses of the round trip\<close>

definition lowercaseNames :: "(string \<Rightarrow> string) \<Rightarrow> TableSchema \<Rightarrow> bool" where
  "lowercaseNames ToLower s \<longleftrightarrow>
     ToLower (Table.Name (TableSchema.Table s)) = Table.Name (TableSchema.Table s)
     \<and> (\<forall>c\<in>set (TableSchema.Columns s). ToLower (Column.Name c) = Column.Name c)
     \<and> (\<forall>i\<in>set (TableSchema.Indexes s).
          ToLower (Index.Name (TableSchema_IndexByName.Index i))
            = Index.Name (TableSchema_IndexByName.Index i))"

definition slashFreeNames :: "TableSchema \<Rightarrow> bool" where
  "slashFreeNames s \<longleftrightarrow>
     CHR ''/'' \<notin> set (Table.Name (TableSchema.Table s))
     \<and> (\<forall>c\<in>set (TableSchema.Columns s). CHR ''/'' \<notin> set (Column.Name c))
     \<and> (\<forall>i\<in>set (TableSchema.Indexes s).
          CHR ''/'' \<notin> set (Index.Name (TableSchema_IndexByName.Index i)))"

definition indexColumnsExist :: "TableSchema \<Rightarrow> bool" where
  "indexColumnsExist s \<longleftrightarrow>
     (\<forall>i\<in>set (TableSchema.Indexes s). \<forall>n\<in>set (ColumnNames i).
        n \<in> set (map Column.Name (TableSchema.Columns s)))"

text \<open>What the validator asks of a schema beyond that.\<close>

definition nonEmptyNames :: "TableSchema \<Rightarrow> bool" where
  "nonEmptyNames s \<longleftrightarrow>
     Table.Name (TableSchema.Table s) \<noteq> []
     \<and> (\<forall>c\<in>set (TableSchema.Columns s). Column.Name c \<noteq> [])
     \<and> (\<forall>i\<in>set (TableSchema.Indexes s). Index.Name (TableSchema_IndexByName.Index i) \<noteq> [])"

definition wellFormedSchema :: "TableSchema \<Rightarrow> bool" where
  "wellFormedSchema s \<longleftrightarrow>
     nonEmptyNames s \<and> slashFreeNames s
     \<and> TableSchema.Columns s \<noteq> [] \<and> TableSchema.Indexes s \<noteq> []
     \<and> distinct (map Column.Name (TableSchema.Columns s))
     \<and> distinct (map (\<lambda>i. Index.Name (TableSchema_IndexByName.Index i)) (TableSchema.Indexes s))
     \<and> (\<forall>i\<in>set (TableSchema.Indexes s). ColumnNames i \<noteq> [])
     \<and> length (TableSchema.Indexes s) < 2 ^ 32"

lemma schema_validates:
  assumes low: "lowercaseNames L s" and refs: "indexColumnsExist s"
    and len: "length (TableSchema.Columns s) < 2 ^ 32" and wf: "wellFormedSchema s"
  shows "ValidateTableDesc (TableDescFromSchema L s) = None"
proof -
  let ?cs = "TableSchema.Columns s" and ?is = "TableSchema.Indexes s"
  have same: "(\<lambda>c. L (Column.Name c)) ` set ?cs = Column.Name ` set ?cs"
    using low by (intro image_cong) (simp_all add: lowercaseNames_def)
  have cols: "\<forall>c\<in>set ?cs. L (Column.Name c) = Column.Name c \<and> Column.Name c \<noteq> []
                \<and> CHR ''/'' \<notin> set (Column.Name c)"
    using low wf by (simp add: lowercaseNames_def wellFormedSchema_def nonEmptyNames_def
        slashFreeNames_def)
  have idxs: "\<forall>i\<in>set ?is. L (Index.Name (TableSchema_IndexByName.Index i))
                       = Index.Name (TableSchema_IndexByName.Index i)
                     \<and> Index.Name (TableSchema_IndexByName.Index i) \<noteq> []
                     \<and> CHR ''/'' \<notin> set (Index.Name (TableSchema_IndexByName.Index i))"
    using low wf by (simp add: lowercaseNames_def wellFormedSchema_def nonEmptyNames_def
        slashFreeNames_def)
  have irefs: "\<forall>i\<in>set ?is. ColumnNames i \<noteq> []
                 \<and> set (ColumnNames i) \<subseteq> (\<lambda>c. L (Column.Name c)) ` set ?cs"
    using refs wf unfolding same by (auto simp add: indexColumnsExist_def wellFormedSchema_def)
  have "columnCheck (of_nat (length ?cs)) (take j (columnDescs L ?cs)) (columnDescs L ?cs ! j) = None"
    if "j < length ?cs" for j
    using columnDescs_valid [OF cols _ len that] wf by (simp add: wellFormedSchema_def)
  moreover have "indexCheck (of_nat (length ?is)) (columnDescs L ?cs)
           (take j (indexDescs L (namesToIDs L ?cs) ?is)) (indexDescs L (namesToIDs L ?cs) ?is ! j) = None"
    if "j < length ?is" for j
    using indexDescs_valid [OF idxs _ irefs _ that] wf by (simp add: wellFormedSchema_def)
  moreover have "Table.Name (TableSchema.Table s) \<noteq> []"
    "CHR ''/'' \<notin> set (Table.Name (TableSchema.Table s))"
    "L (Table.Name (TableSchema.Table s)) = Table.Name (TableSchema.Table s)"
    "?cs \<noteq> []" "?is \<noteq> []"
    using low wf by (simp_all add: lowercaseNames_def wellFormedSchema_def nonEmptyNames_def
        slashFreeNames_def)
  moreover have "columnDescs L ?cs \<noteq> []" "indexDescs L (namesToIDs L ?cs) ?is \<noteq> []"
    using wf by (simp_all add: wellFormedSchema_def columnDescs_def indexDescs_def)
  ultimately show ?thesis
    by (simp add: ValidateTableDesc_None TableDescFromSchema_closed)
qed

text \<open>
  C1 (as amended). For every schema with fewer than \<open>2^32\<close> columns whose table, column and
  index names are already lowercase and whose index column names all refer to columns of
  the schema, \<^verbatim>\<open>TableSchemaFromDesc\<close> after \<^verbatim>\<open>TableDescFromSchema\<close> yields the original
  schema. The produced descriptor passes \<^verbatim>\<open>ValidateTableDesc\<close> when the schema is, in
  addition, well formed: its names are non-empty and free of \<open>/\<close>, it has at least one
  column and at least one index, column names are pairwise distinct, index names are
  pairwise distinct, every index lists at least one column and there are fewer than
  \<open>2^32\<close> indexes.
\<close>

theorem schema_descriptor_roundtrip:
  assumes "lowercaseNames ToLower s" and "indexColumnsExist s"
    and "length (TableSchema.Columns s) < 2 ^ 32"
  shows "TableSchemaFromDesc (TableDescFromSchema ToLower s) = s
         \<and> (wellFormedSchema s \<longrightarrow> ValidateTableDesc (TableDescFromSchema ToLower s) = None)"
proof
  show "TableSchemaFromDesc (TableDescFromSchema ToLower s) = s"
    using assms by (intro schema_roundtrip) (simp_all add: lowercaseNames_def indexColumnsExist_def)
  show "wellFormedSchema s \<longrightarrow> ValidateTableDesc (TableDescFromSchema ToLower s) = None"
    using assms schema_validates by blast
qed

lemma fooSchema_hyps:
  "lowercaseNames asciiToLower fooSchema" "indexColumnsExist fooSchema"
  "length (TableSchema.Columns fooSchema) < 2 ^ 32" "wellFormedSchema fooSchema"
  by (simp_all add: lowercaseNames_def indexColumnsExist_def wellFormedSchema_def nonEmptyNames_def
      slashFreeNames_def fooSchema_def asciiToLower_def lowerByte_def)

theorem schema_descriptor_roundtrip_witness:
  "TableSchemaFromDesc (TableDescFromSchema asciiToLower fooSchema) = fooSchema
   \<and> ValidateTableDesc (TableDescFromSchema asciiToLower fooSchema) = None"
  using schema_descriptor_roundtrip [OF fooSchema_hyps(1,2,3)] fooSchema_hyps(4) by simp

text \<open>
  C1 as stated fails: \<open>noIndexSchema\<close> has lowercase, \<open>/\<close>-free names and no index column
  at all, and its descriptor does not validate.
\<close>

theorem schema_descriptor_roundtrip_counterexample:
  "lowercaseNames asciiToLower noIndexSchema \<and> slashFreeNames noIndexSchema
   \<and> indexColumnsExist noIndexSchema
   \<and> ValidateTableDesc (TableDescFromSchema asciiToLower noIndexSchema)
       = Some ''table must contain at least 1 index''"
  by (simp add: lowercaseNames_def slashFreeNames_def indexColumnsExist_def noIndexSchema_def
      asciiToLower_def lowerByte_def TableDescFromSchema_def descAddColumn_def Let_def
      ValidateTableDesc_def validateName_def)

lemma firstFailure_nth:
  "j < length xs \<Longrightarrow> \<forall>i<j. xs ! i = None \<Longrightarrow> xs ! j = Some e \<Longrightarrow> firstFailure xs = Some e"
proof (induction xs arbitrary: j rule: firstFailure.induct)
  case 1
  then show ?case by simp
next
  case (2 e' checks)
  then show ?case by (cases j) auto
next
  case (3 checks)
  show ?case
  proof (cases j)
    case 0
    with 3 show ?thesis by simp
  next
    case (Suc k)
    with "3.prems" have "k < length checks" "\<forall>i<k. checks ! i = None" "checks ! k = Some e"
      by auto
    with "3.IH" show ?thesis by simp
  qed
qed

lemma distinct_map_take:
  "distinct (map f xs) \<longleftrightarrow> (\<forall>j<length xs. f (xs ! j) \<notin> f ` set (take j xs))"
proof (induction xs rule: rev_induct)
  case Nil
  show ?case by simp
next
  case (snoc x xs)
  have "(\<forall>j<length (xs @ [x]). f ((xs @ [x]) ! j) \<notin> f ` set (take j (xs @ [x])))
      \<longleftrightarrow> (\<forall>j<length xs. f (xs ! j) \<notin> f ` set (take j xs)) \<and> f x \<notin> f ` set xs"
    by (auto simp add: less_Suc_eq nth_append)
  with snoc show ?case by auto
qed

definition wellFormedDesc :: "TableDescriptor \<Rightarrow> bool" where
  "wellFormedDesc desc \<longleftrightarrow>
     validateName (Table.Name (TableDescriptor.Table desc)) ''table'' = None
     \<and> TableDescriptor.Columns desc \<noteq> []
     \<and> (\<forall>c\<in>set (TableDescriptor.Columns desc). validateName (columnName c) ''column'' = None)
     \<and> distinct (map columnName (TableDescriptor.Columns desc))
     \<and> distinct (map ColumnDescriptor.ID (TableDescriptor.Columns desc))
     \<and> (\<forall>c\<in>set (TableDescriptor.Columns desc). ColumnDescriptor.ID c < NextColumnID desc)
     \<and> TableDescriptor.Indexes desc \<noteq> []
     \<and> (\<forall>i\<in>set (TableDescriptor.Indexes desc). validateName (indexName i) ''index'' = None)
     \<and> distinct (map indexName (TableDescriptor.Indexes desc))
     \<and> distinct (map IndexDescriptor.ID (TableDescriptor.Indexes desc))
     \<and> (\<forall>i\<in>set (TableDescriptor.Indexes desc). IndexDescriptor.ID i < NextIndexID desc)
     \<and> (\<forall>i\<in>set (TableDescriptor.Indexes desc). ColumnIDs i \<noteq> []
          \<and> (\<forall>columnID\<in>set (ColumnIDs i).
                columnID \<in> set (map ColumnDescriptor.ID (TableDescriptor.Columns desc))))"

lemma validateName_None: "validateName n t = None \<longleftrightarrow> n \<noteq> [] \<and> CHR ''/'' \<notin> set n"
  by (simp add: validateName_def)

lemma ValidateTableDesc_wellFormed: "ValidateTableDesc desc = None \<longleftrightarrow> wellFormedDesc desc"
proof -
  let ?cs = "TableDescriptor.Columns desc" and ?is = "TableDescriptor.Indexes desc"
  have cols: "(\<forall>j<length ?cs. columnCheck (NextColumnID desc) (take j ?cs) (?cs ! j) = None)
      \<longleftrightarrow> (\<forall>c\<in>set ?cs. validateName (columnName c) ''column'' = None)
          \<and> distinct (map columnName ?cs) \<and> distinct (map ColumnDescriptor.ID ?cs)
          \<and> (\<forall>c\<in>set ?cs. ColumnDescriptor.ID c < NextColumnID desc)"
    unfolding columnCheck_None distinct_map_take [of columnName] distinct_map_take [of ColumnDescriptor.ID]
      all_set_conv_all_nth validateName_None
    by blast
  have idxs: "(\<forall>j<length ?is. indexCheck (NextIndexID desc) ?cs (take j ?is) (?is ! j) = None)
      \<longleftrightarrow> (\<forall>i\<in>set ?is. validateName (indexName i) ''index'' = None)
          \<and> distinct (map indexName ?is) \<and> distinct (map IndexDescriptor.ID ?is)
          \<and> (\<forall>i\<in>set ?is. IndexDescriptor.ID i < NextIndexID desc)
          \<and> (\<forall>i\<in>set ?is. ColumnIDs i \<noteq> []
                \<and> (\<forall>columnID\<in>set (ColumnIDs i). columnID \<in> set (map ColumnDescriptor.ID ?cs)))"
    unfolding indexCheck_None distinct_map_take [of indexName] distinct_map_take [of IndexDescriptor.ID]
      all_set_conv_all_nth [of ?is] validateName_None subset_iff set_map
    by blast
  show ?thesis
    unfolding ValidateTableDesc_None wellFormedDesc_def cols idxs validateName_None
    by blast
qed

lemma firstFailure_map_upt:
  assumes "j < n" and "\<forall>i<j. f i = None" and "f j = Some e"
  shows "firstFailure (map f [0..<n]) = Some e"
  using assms by (intro firstFailure_nth [of j]) simp_all

lemma column_failure_reported:
  assumes "validateName (Table.Name (TableDescriptor.Table desc)) ''table'' = None"
    and "j < length (TableDescriptor.Columns desc)"
    and "\<forall>i<j. columnCheck (NextColumnID desc) (take i (TableDescriptor.Columns desc))
                  (TableDescriptor.Columns desc ! i) = None"
    and "columnCheck (NextColumnID desc) (take j (TableDescriptor.Columns desc))
           (TableDescriptor.Columns desc ! j) = Some e"
  shows "ValidateTableDesc desc = Some e"
proof -
  from assms(2) have "TableDescriptor.Columns desc \<noteq> []" by auto
  moreover have "firstFailure (map (\<lambda>j. columnCheck (NextColumnID desc)
        (take j (TableDescriptor.Columns desc)) (TableDescriptor.Columns desc ! j))
        [0..<length (TableDescriptor.Columns desc)]) = Some e"
    using assms(2,3,4) by (intro firstFailure_map_upt [of j]) simp_all
  ultimately show ?thesis using assms(1)
    by (simp add: ValidateTableDesc_checks tableChecks_def firstFailure_append)
qed

lemma index_failure_reported:
  assumes "validateName (Table.Name (TableDescriptor.Table desc)) ''table'' = None"
    and "TableDescriptor.Columns desc \<noteq> []"
    and "\<forall>i<length (TableDescriptor.Columns desc).
           columnCheck (NextColumnID desc) (take i (TableDescriptor.Columns desc))
                  (TableDescriptor.Columns desc ! i) = None"
    and "k < length (TableDescriptor.Indexes desc)"
    and "\<forall>i<k. indexCheck (NextIndexID desc) (TableDescriptor.Columns desc)
                  (take i (TableDescriptor.Indexes desc)) (TableDescriptor.Indexes desc ! i) = None"
    and "indexCheck (NextIndexID desc) (TableDescriptor.Columns desc)
           (take k (TableDescriptor.Indexes desc)) (TableDescriptor.Indexes desc ! k) = Some e"
  shows "ValidateTableDesc desc = Some e"
proof -
  from assms(4) have "TableDescriptor.Indexes desc \<noteq> []" by auto
  moreover have "firstFailure (map (\<lambda>j. columnCheck (NextColumnID desc)
        (take j (TableDescriptor.Columns desc)) (TableDescriptor.Columns desc ! j))
        [0..<length (TableDescriptor.Columns desc)]) = None"
    using assms(3) by (simp add: firstFailure_None)
  moreover have "firstFailure (map (\<lambda>j. indexCheck (NextIndexID desc) (TableDescriptor.Columns desc)
        (take j (TableDescriptor.Indexes desc)) (TableDescriptor.Indexes desc ! j))
        [0..<length (TableDescriptor.Indexes desc)]) = Some e"
    using assms(4,5,6) by (intro firstFailure_map_upt [of k]) simp_all
  ultimately show ?thesis using assms(1,2)
    by (simp add: ValidateTableDesc_checks tableChecks_def firstFailure_append)
qed

subsection \<open>The order of the validator's checks\<close>

text \<open>Two columns named \<open>bar\<close> with the same ID, and no index.\<close>

definition dupColumnNoIndex :: TableDescriptor where
  "dupColumnNoIndex =
     \<lparr>TableDescriptor.Table = \<lparr>Table.Name = ''foo''\<rparr>,
      Columns = [\<lparr>ColumnDescriptor.ID = 0, Column = \<lparr>Column.Name = ''bar'', Type = BYTES\<rparr>\<rparr>,
                 \<lparr>ColumnDescriptor.ID = 0, Column = \<lparr>Column.Name = ''bar'', Type = BYTES\<rparr>\<rparr>],
      Indexes = [], NextColumnID = 1, NextIndexID = 0\<rparr>"

text \<open>
  C6 (as amended). \<^verbatim>\<open>ValidateTableDesc\<close> returns at most one message: the message of the
  first failing check in the order in which the code runs the checks, which is the table
  name; at least one column; for each column in turn its name, the uniqueness of its name,
  the uniqueness of its ID and its ID against \<^verbatim>\<open>NextColumnID\<close>; at least one index; for
  each index in turn its name, the uniqueness of its name, the uniqueness of its ID, its ID
  against \<^verbatim>\<open>NextIndexID\<close>, at least one column ID and the existence of each referenced
  column. The column checks come before the test for a missing index: when the table
  name is valid and the columns before a column pass, the message of that column's failing
  check is the result whatever the indexes are, so a descriptor with a duplicate column
  name and no index yields the duplicate-column-name message.
\<close>

theorem validate_first_failure:
  "ValidateTableDesc desc = firstFailure (tableChecks desc)
   \<and> (validateName (Table.Name (TableDescriptor.Table desc)) ''table'' = None
        \<and> j < length (TableDescriptor.Columns desc)
        \<and> (\<forall>i<j. columnCheck (NextColumnID desc) (take i (TableDescriptor.Columns desc))
                    (TableDescriptor.Columns desc ! i) = None)
        \<and> columnCheck (NextColumnID desc) (take j (TableDescriptor.Columns desc))
              (TableDescriptor.Columns desc ! j) = Some e
      \<longrightarrow> ValidateTableDesc desc = Some e)"
  using ValidateTableDesc_checks [of desc] column_failure_reported [of desc j e] by blast

theorem validate_first_failure_witness:
  "firstFailure (tableChecks dupColumnNoIndex)
     = Some (''duplicate column name: '' @ dq @ ''bar'' @ dq)
   \<and> ValidateTableDesc dupColumnNoIndex = Some (''duplicate column name: '' @ dq @ ''bar'' @ dq)"
proof -
  have "\<forall>i<1. columnCheck (NextColumnID dupColumnNoIndex)
          (take i (TableDescriptor.Columns dupColumnNoIndex))
          (TableDescriptor.Columns dupColumnNoIndex ! i) = None"
    by (simp add: dupColumnNoIndex_def columnCheck_def columnName_def validateName_def)
  moreover have "columnCheck (NextColumnID dupColumnNoIndex)
          (take 1 (TableDescriptor.Columns dupColumnNoIndex))
          (TableDescriptor.Columns dupColumnNoIndex ! 1)
        = Some (''duplicate column name: '' @ dq @ ''bar'' @ dq)"
    by (simp add: dupColumnNoIndex_def columnCheck_def columnName_def validateName_def)
  moreover have "validateName (Table.Name (TableDescriptor.Table dupColumnNoIndex)) ''table'' = None"
    "1 < length (TableDescriptor.Columns dupColumnNoIndex)"
    by (simp_all add: dupColumnNoIndex_def validateName_def)
  ultimately show ?thesis
    using validate_first_failure
      [of dupColumnNoIndex 1 "''duplicate column name: '' @ dq @ ''bar'' @ dq"]
    by metis
qed

text \<open>
  C6 as stated fails: with the invariants in the order of the data model (a missing index
  before the duplicate column name), \<open>dupColumnNoIndex\<close> would yield the missing-index
  message; the code yields the duplicate-column-name message.
\<close>

theorem validate_order_counterexample:
  "ValidateTableDesc dupColumnNoIndex = Some (''duplicate column name: '' @ dq @ ''bar'' @ dq)
   \<and> ValidateTableDesc dupColumnNoIndex \<noteq> Some ''table must contain at least 1 index''"
  by (simp add: dupColumnNoIndex_def ValidateTableDesc_def validateName_def dq_def)

subsection \<open>The ID bounds\<close>

definition badColumnID :: TableDescriptor where
  "badColumnID =
     \<lparr>TableDescriptor.Table = \<lparr>Table.Name = ''foo''\<rparr>,
      Columns = [\<lparr>ColumnDescriptor.ID = 1, Column = \<lparr>Column.Name = ''bar'', Type = BYTES\<rparr>\<rparr>],
      Indexes = [], NextColumnID = 1, NextIndexID = 0\<rparr>"

definition badIndexID :: TableDescriptor where
  "badIndexID =
     \<lparr>TableDescriptor.Table = \<lparr>Table.Name = ''foo''\<rparr>,
      Columns = [\<lparr>ColumnDescriptor.ID = 0, Column = \<lparr>Column.Name = ''bar'', Type = BYTES\<rparr>\<rparr>],
      Indexes = [\<lparr>IndexDescriptor.ID = 1, Index = \<lparr>Index.Name = ''bar'', Unique = False\<rparr>,
                  ColumnIDs = [0]\<rparr>],
      NextColumnID = 1, NextIndexID = 1\<rparr>"

definition goodDesc :: TableDescriptor where
  "goodDesc =
     \<lparr>TableDescriptor.Table = \<lparr>Table.Name = ''foo''\<rparr>,
      Columns = [\<lparr>ColumnDescriptor.ID = 0, Column = \<lparr>Column.Name = ''bar'', Type = BYTES\<rparr>\<rparr>],
      Indexes = [\<lparr>IndexDescriptor.ID = 0, Index = \<lparr>Index.Name = ''bar'', Unique = False\<rparr>,
                  ColumnIDs = [0]\<rparr>],
      NextColumnID = 1, NextIndexID = 1\<rparr>"

definition dupNameBadID :: TableDescriptor where
  "dupNameBadID =
     \<lparr>TableDescriptor.Table = \<lparr>Table.Name = ''foo''\<rparr>,
      Columns = [\<lparr>ColumnDescriptor.ID = 0, Column = \<lparr>Column.Name = ''bar'', Type = BYTES\<rparr>\<rparr>,
                 \<lparr>ColumnDescriptor.ID = 1, Column = \<lparr>Column.Name = ''bar'', Type = BYTES\<rparr>\<rparr>],
      Indexes = [], NextColumnID = 1, NextIndexID = 0\<rparr>"

text \<open>
  C7 (as amended). \<^verbatim>\<open>ValidateTableDesc\<close> accepts a descriptor exactly when it is well
  formed, which asks of the IDs that they are pairwise distinct and strictly less than
  \<^verbatim>\<open>NextColumnID\<close> (columns) or \<^verbatim>\<open>NextIndexID\<close> (indexes); so it rejects every descriptor
  with a column ID greater than or equal to \<^verbatim>\<open>NextColumnID\<close> or an index ID greater than
  or equal to \<^verbatim>\<open>NextIndexID\<close>. The message is exactly
  \<^verbatim>\<open>column "<n>" invalid ID (<id>) > next column ID (<next>)\<close> when that is the first
  failing check: the table name is valid, the columns before pass all their checks, and the
  column's own name and the uniqueness of its name and ID pass. In the same way the message
  is \<^verbatim>\<open>index "<n>" invalid index ID (<id>) > next index ID (<next>)\<close> when the table name
  and all columns pass, the indexes before pass, and the index's own name and uniqueness
  checks pass.
\<close>

theorem validate_id_bounds:
  "(ValidateTableDesc desc = None \<longleftrightarrow> wellFormedDesc desc)
   \<and> ((\<exists>c\<in>set (TableDescriptor.Columns desc). NextColumnID desc \<le> ColumnDescriptor.ID c)
        \<longrightarrow> ValidateTableDesc desc \<noteq> None)
   \<and> ((\<exists>i\<in>set (TableDescriptor.Indexes desc). NextIndexID desc \<le> IndexDescriptor.ID i)
        \<longrightarrow> ValidateTableDesc desc \<noteq> None)
   \<and> (validateName (Table.Name (TableDescriptor.Table desc)) ''table'' = None
        \<and> j < length (TableDescriptor.Columns desc)
        \<and> (\<forall>i<j. columnCheck (NextColumnID desc) (take i (TableDescriptor.Columns desc))
                    (TableDescriptor.Columns desc ! i) = None)
        \<and> validateName (columnName (TableDescriptor.Columns desc ! j)) ''column'' = None
        \<and> columnName (TableDescriptor.Columns desc ! j)
             \<notin> set (map columnName (take j (TableDescriptor.Columns desc)))
        \<and> ColumnDescriptor.ID (TableDescriptor.Columns desc ! j)
             \<notin> set (map ColumnDescriptor.ID (take j (TableDescriptor.Columns desc)))
        \<and> NextColumnID desc \<le> ColumnDescriptor.ID (TableDescriptor.Columns desc ! j)
      \<longrightarrow> ValidateTableDesc desc =
            Some (''column '' @ dq @ columnName (TableDescriptor.Columns desc ! j) @ dq
                  @ '' invalid ID (''
                  @ showd (unat (ColumnDescriptor.ID (TableDescriptor.Columns desc ! j)))
                  @ '') > next column ID ('' @ showd (unat (NextColumnID desc)) @ '')''))
   \<and> (validateName (Table.Name (TableDescriptor.Table desc)) ''table'' = None
        \<and> TableDescriptor.Columns desc \<noteq> []
        \<and> (\<forall>i<length (TableDescriptor.Columns desc).
              columnCheck (NextColumnID desc) (take i (TableDescriptor.Columns desc))
                    (TableDescriptor.Columns desc ! i) = None)
        \<and> k < length (TableDescriptor.Indexes desc)
        \<and> (\<forall>i<k. indexCheck (NextIndexID desc) (TableDescriptor.Columns desc)
                    (take i (TableDescriptor.Indexes desc)) (TableDescriptor.Indexes desc ! i) = None)
        \<and> validateName (indexName (TableDescriptor.Indexes desc ! k)) ''index'' = None
        \<and> indexName (TableDescriptor.Indexes desc ! k)
             \<notin> set (map indexName (take k (TableDescriptor.Indexes desc)))
        \<and> IndexDescriptor.ID (TableDescriptor.Indexes desc ! k)
             \<notin> set (map IndexDescriptor.ID (take k (TableDescriptor.Indexes desc)))
        \<and> NextIndexID desc \<le> IndexDescriptor.ID (TableDescriptor.Indexes desc ! k)
      \<longrightarrow> ValidateTableDesc desc =
            Some (''index '' @ dq @ indexName (TableDescriptor.Indexes desc ! k) @ dq
                  @ '' invalid index ID (''
                  @ showd (unat (IndexDescriptor.ID (TableDescriptor.Indexes desc ! k)))
                  @ '') > next index ID ('' @ showd (unat (NextIndexID desc)) @ '')''))"
proof (intro conjI impI)
  show "ValidateTableDesc desc = None \<longleftrightarrow> wellFormedDesc desc"
    by (rule ValidateTableDesc_wellFormed)
next
  assume "\<exists>c\<in>set (TableDescriptor.Columns desc). NextColumnID desc \<le> ColumnDescriptor.ID c"
  then obtain c where "c \<in> set (TableDescriptor.Columns desc)"
    "\<not> ColumnDescriptor.ID c < NextColumnID desc" by (auto simp add: not_less)
  then have "\<not> wellFormedDesc desc" unfolding wellFormedDesc_def by blast
  then show "ValidateTableDesc desc \<noteq> None" by (simp add: ValidateTableDesc_wellFormed)
next
  assume "\<exists>i\<in>set (TableDescriptor.Indexes desc). NextIndexID desc \<le> IndexDescriptor.ID i"
  then obtain i where "i \<in> set (TableDescriptor.Indexes desc)"
    "\<not> IndexDescriptor.ID i < NextIndexID desc" by (auto simp add: not_less)
  then have "\<not> wellFormedDesc desc" unfolding wellFormedDesc_def by blast
  then show "ValidateTableDesc desc \<noteq> None" by (simp add: ValidateTableDesc_wellFormed)
next
  let ?c = "TableDescriptor.Columns desc ! j"
  assume a: "validateName (Table.Name (TableDescriptor.Table desc)) ''table'' = None
        \<and> j < length (TableDescriptor.Columns desc)
        \<and> (\<forall>i<j. columnCheck (NextColumnID desc) (take i (TableDescriptor.Columns desc))
                    (TableDescriptor.Columns desc ! i) = None)
        \<and> validateName (columnName ?c) ''column'' = None
        \<and> columnName ?c \<notin> set (map columnName (take j (TableDescriptor.Columns desc)))
        \<and> ColumnDescriptor.ID ?c \<notin> set (map ColumnDescriptor.ID (take j (TableDescriptor.Columns desc)))
        \<and> NextColumnID desc \<le> ColumnDescriptor.ID ?c"
  then have "columnCheck (NextColumnID desc) (take j (TableDescriptor.Columns desc)) ?c =
      Some (''column '' @ dq @ columnName ?c @ dq @ '' invalid ID (''
            @ showd (unat (ColumnDescriptor.ID ?c))
            @ '') > next column ID ('' @ showd (unat (NextColumnID desc)) @ '')'')"
    by (simp add: columnCheck_def)
  with a show "ValidateTableDesc desc =
      Some (''column '' @ dq @ columnName ?c @ dq @ '' invalid ID (''
            @ showd (unat (ColumnDescriptor.ID ?c))
            @ '') > next column ID ('' @ showd (unat (NextColumnID desc)) @ '')'')"
    by (intro column_failure_reported [of desc j]) simp_all
next
  let ?i = "TableDescriptor.Indexes desc ! k"
  assume a: "validateName (Table.Name (TableDescriptor.Table desc)) ''table'' = None
        \<and> TableDescriptor.Columns desc \<noteq> []
        \<and> (\<forall>i<length (TableDescriptor.Columns desc).
              columnCheck (NextColumnID desc) (take i (TableDescriptor.Columns desc))
                    (TableDescriptor.Columns desc ! i) = None)
        \<and> k < length (TableDescriptor.Indexes desc)
        \<and> (\<forall>i<k. indexCheck (NextIndexID desc) (TableDescriptor.Columns desc)
                    (take i (TableDescriptor.Indexes desc)) (TableDescriptor.Indexes desc ! i) = None)
        \<and> validateName (indexName ?i) ''index'' = None
        \<and> indexName ?i \<notin> set (map indexName (take k (TableDescriptor.Indexes desc)))
        \<and> IndexDescriptor.ID ?i \<notin> set (map IndexDescriptor.ID (take k (TableDescriptor.Indexes desc)))
        \<and> NextIndexID desc \<le> IndexDescriptor.ID ?i"
  then have "indexCheck (NextIndexID desc) (TableDescriptor.Columns desc)
               (take k (TableDescriptor.Indexes desc)) ?i =
      Some (''index '' @ dq @ indexName ?i @ dq @ '' invalid index ID (''
            @ showd (unat (IndexDescriptor.ID ?i))
            @ '') > next index ID ('' @ showd (unat (NextIndexID desc)) @ '')'')"
    by (simp add: indexCheck_def)
  with a show "ValidateTableDesc desc =
      Some (''index '' @ dq @ indexName ?i @ dq @ '' invalid index ID (''
            @ showd (unat (IndexDescriptor.ID ?i))
            @ '') > next index ID ('' @ showd (unat (NextIndexID desc)) @ '')'')"
    by (intro index_failure_reported [of desc k]) simp_all
qed

theorem validate_id_bounds_witness:
  "ValidateTableDesc badColumnID
     = Some (''column '' @ dq @ ''bar'' @ dq @ '' invalid ID (1) > next column ID (1)'')
   \<and> ValidateTableDesc badIndexID
     = Some (''index '' @ dq @ ''bar'' @ dq @ '' invalid index ID (1) > next index ID (1)'')
   \<and> ValidateTableDesc goodDesc = None"
proof (intro conjI)
  show "ValidateTableDesc badColumnID
     = Some (''column '' @ dq @ ''bar'' @ dq @ '' invalid ID (1) > next column ID (1)'')"
    using validate_id_bounds [of badColumnID 0 0]
    by (simp add: badColumnID_def validateName_def columnName_def showd.simps digit_def)
  show "ValidateTableDesc badIndexID
     = Some (''index '' @ dq @ ''bar'' @ dq @ '' invalid index ID (1) > next index ID (1)'')"
    using validate_id_bounds [of badIndexID 0 0]
    by (simp add: badIndexID_def validateName_def columnName_def indexName_def columnCheck_def
        showd.simps digit_def)
  show "ValidateTableDesc goodDesc = None"
    using validate_id_bounds [of goodDesc 0 0]
    by (simp add: goodDesc_def wellFormedDesc_def validateName_def columnName_def indexName_def)
qed

text \<open>
  C7 as stated fails: the second column of \<open>dupNameBadID\<close> has an ID equal to
  \<^verbatim>\<open>NextColumnID\<close>, and the message is the one of the duplicate name, an earlier check.
\<close>

theorem validate_id_bounds_counterexample:
  "NextColumnID dupNameBadID \<le> ColumnDescriptor.ID (TableDescriptor.Columns dupNameBadID ! 1)
   \<and> ValidateTableDesc dupNameBadID = Some (''duplicate column name: '' @ dq @ ''bar'' @ dq)
   \<and> ValidateTableDesc dupNameBadID
       \<noteq> Some (''column '' @ dq @ ''bar'' @ dq @ '' invalid ID (1) > next column ID (1)'')"
  by (simp add: dupNameBadID_def ValidateTableDesc_def validateName_def dq_def)

section \<open>The record/row adapter (\<^verbatim>\<open>client/table.go\<close>)\<close>

subsection \<open>Field values as \<^verbatim>\<open>reflect\<close> shows them\<close>

text \<open>
  A struct field is seen through \<^verbatim>\<open>reflect.Value\<close>. The code distinguishes, by type
  switch, the exact types \<^verbatim>\<open>string\<close> and \<^verbatim>\<open>[]byte\<close> and the two serialization
  interfaces, and otherwise the kind of the value. Integers keep their width
  (\<open>Int_of\<close>, \<open>Uint_of\<close> and \<open>Float_of\<close> are \<^verbatim>\<open>v.Int()\<close>, \<^verbatim>\<open>v.Uint()\<close> and \<^verbatim>\<open>v.Float()\<close>):
  \<^verbatim>\<open>v.Int()\<close> sign-extends to \<^verbatim>\<open>int64\<close>, \<^verbatim>\<open>v.Uint()\<close> zero-extends to \<^verbatim>\<open>uint64\<close>,
  \<^verbatim>\<open>v.SetInt\<close> and \<^verbatim>\<open>v.SetUint\<close> truncate to the width of the field. \<^verbatim>\<open>int\<close>,
  \<^verbatim>\<open>uint\<close> and \<^verbatim>\<open>uintptr\<close> have 64 bits (a 64-bit platform).

  A floating-point number is represented by the bit pattern of \<^verbatim>\<open>v.Float()\<close>, a
  \<^verbatim>\<open>float64\<close>, so that \<^verbatim>\<open>math.Float64bits\<close> and \<^verbatim>\<open>math.Float64frombits\<close> are the
  identity. \<^verbatim>\<open>v.SetFloat\<close> on a \<^verbatim>\<open>float32\<close> field rounds to single precision; the
  rounding is the parameter \<open>Float32\<close> of the externals below.
\<close>

datatype intv = I8 "8 word" | I16 "16 word" | I32 "32 word" | I64 "64 word" | I "64 word"

datatype uintv =
  U8 "8 word" | U16 "16 word" | U32 "32 word" | U64 "64 word" | U "64 word" | Uptr "64 word"

datatype floatv = F32 "64 word" | F64 "64 word"

fun Int_of :: "intv \<Rightarrow> int64" where
  "Int_of (I8 x) = scast x"
| "Int_of (I16 x) = scast x"
| "Int_of (I32 x) = scast x"
| "Int_of (I64 x) = x"
| "Int_of (I x) = x"

fun SetInt :: "intv \<Rightarrow> int64 \<Rightarrow> intv" where
  "SetInt (I8 _) x = I8 (ucast x)"
| "SetInt (I16 _) x = I16 (ucast x)"
| "SetInt (I32 _) x = I32 (ucast x)"
| "SetInt (I64 _) x = I64 x"
| "SetInt (I _) x = I x"

fun Uint_of :: "uintv \<Rightarrow> uint64" where
  "Uint_of (U8 x) = ucast x"
| "Uint_of (U16 x) = ucast x"
| "Uint_of (U32 x) = ucast x"
| "Uint_of (U64 x) = x"
| "Uint_of (U x) = x"
| "Uint_of (Uptr x) = x"

fun SetUint :: "uintv \<Rightarrow> uint64 \<Rightarrow> uintv" where
  "SetUint (U8 _) x = U8 (ucast x)"
| "SetUint (U16 _) x = U16 (ucast x)"
| "SetUint (U32 _) x = U32 (ucast x)"
| "SetUint (U64 _) x = U64 x"
| "SetUint (U _) x = U x"
| "SetUint (Uptr _) x = Uptr x"

fun Float_of :: "floatv \<Rightarrow> 64 word" where
  "Float_of (F32 x) = x"
| "Float_of (F64 x) = x"

text \<open>
  The errors of \<^verbatim>\<open>table.go\<close>, one constructor for each \<^verbatim>\<open>fmt.Errorf\<close>, with the
  arguments of the format that the model can print. \<open>MarshalFailed\<close> is an error returned
  by \<^verbatim>\<open>gogoproto.Marshal\<close> or \<^verbatim>\<open>MarshalBinary\<close>.
\<close>

datatype error =
    UnableToEncodeKey
  | UnableToDecodeKey
  | UnableToFindField string string
  | UnexpectedTableName string string
  | ModelAlreadyDefined string
  | PointerTypeRequired
  | UnableToFindModel
  | DestMustBePointerToSlice
  | IncompatibleStartKeyType
  | IncompatibleEndKeyType
  | UnableToMarshalValue
  | UnableToUnmarshalInteger
  | UnableToUnmarshalBytes
  | UnableToUnmarshalValue
  | MarshalFailed string

text \<open>A Go call returns, returns an error, or panics.\<close>

datatype 'a outcome = Ok 'a | Fail error | Panic

text \<open>
  The field values. \<open>VBytes None\<close> is the nil slice. \<open>VMessage\<close> and
  \<open>VBinaryMarshaler\<close> are fields declared with the interface types
  \<^verbatim>\<open>gogoproto.Message\<close> and \<^verbatim>\<open>encoding.BinaryMarshaler\<close>: \<open>None\<close> is the nil interface,
  \<open>Some r\<close> a value whose serialization gives \<open>r\<close> (an error, or the bytes).
  \<open>VKindString\<close> is a named type of kind \<^verbatim>\<open>String\<close>; named types of the other scalar
  kinds behave as the built-in ones. \<open>VOther\<close> stands for the values of every other kind
  (struct, map, slice, ...). A concrete type with serialization methods is outside the model.
\<close>

datatype fvalue =
    VString string
  | VBytes "string option"
  | VMessage "(string + string option) option"
  | VBinaryMarshaler "(string + string option) option"
  | VBool bool
  | VInt intv
  | VUint uintv
  | VFloat floatv
  | VKindString string
  | VOther

text \<open>\<^verbatim>\<open>reflect.Zero(dest.Type())\<close>: the zero value of the type of a field.\<close>

fun zeroValue :: "fvalue \<Rightarrow> fvalue" where
  "zeroValue (VString _) = VString []"
| "zeroValue (VBytes _) = VBytes None"
| "zeroValue (VMessage _) = VMessage None"
| "zeroValue (VBinaryMarshaler _) = VBinaryMarshaler None"
| "zeroValue (VBool _) = VBool False"
| "zeroValue (VInt i) = VInt (SetInt i 0)"
| "zeroValue (VUint u) = VUint (SetUint u 0)"
| "zeroValue (VFloat (F32 _)) = VFloat (F32 0)"
| "zeroValue (VFloat (F64 _)) = VFloat (F64 0)"
| "zeroValue (VKindString _) = VKindString []"
| "zeroValue VOther = VOther"

subsection \<open>\<^verbatim>\<open>proto.Value\<close> and the functions of other packages\<close>

text \<open>
  \<^verbatim>\<open>proto.Value\<close> with the fields the code reads and writes; \<open>None\<close> is a nil pointer or a
  nil slice.
\<close>

record Value =
  Bytes :: "string option"
  Integer :: "int64 option"
  Checksum :: "uint32 option"

definition emptyValue :: Value where
  "emptyValue = \<lparr>Bytes = None, Integer = None, Checksum = None\<rparr>"

text \<open>\<^verbatim>\<open>src.GetInteger()\<close>: the integer, or 0 when the pointer is nil.\<close>

definition GetInteger :: "Value \<Rightarrow> int64" where
  "GetInteger v = (case Integer v of None \<Rightarrow> 0 | Some i \<Rightarrow> i)"

text \<open>
  The functions that \<^verbatim>\<open>table.go\<close> calls in other packages are parameters: the
  order-preserving codec of \<^verbatim>\<open>util/encoding\<close> (an encoder appends to the buffer it is
  given; a decoder returns the remaining bytes and the value, and \<open>None\<close> when it panics
  on malformed input; \<^verbatim>\<open>DecodeBytes\<close> may return a nil slice), the rounding of a
  \<^verbatim>\<open>float64\<close> to \<^verbatim>\<open>float32\<close> precision, and the checksum that \<^verbatim>\<open>InitChecksum\<close> computes.
\<close>

record externals =
  EncodeBytes :: "string \<Rightarrow> string \<Rightarrow> string"
  DecodeBytes :: "string \<Rightarrow> (string \<times> string option) option"
  EncodeVarint :: "string \<Rightarrow> int64 \<Rightarrow> string"
  DecodeVarint :: "string \<Rightarrow> (string \<times> int64) option"
  EncodeUvarint :: "string \<Rightarrow> uint64 \<Rightarrow> string"
  DecodeUvarint :: "string \<Rightarrow> (string \<times> uint64) option"
  EncodeNumericFloat :: "string \<Rightarrow> 64 word \<Rightarrow> string"
  DecodeNumericFloat :: "string \<Rightarrow> (string \<times> 64 word) option"
  Float32 :: "64 word \<Rightarrow> 64 word"
  computeChecksum :: "string \<Rightarrow> Value \<Rightarrow> uint32"

text \<open>\<^verbatim>\<open>v.SetFloat(x)\<close>.\<close>

fun SetFloat :: "externals \<Rightarrow> floatv \<Rightarrow> 64 word \<Rightarrow> floatv" where
  "SetFloat X (F32 _) x = F32 (Float32 X x)"
| "SetFloat X (F64 _) x = F64 x"

text \<open>\<^verbatim>\<open>string(b)\<close> for a possibly nil byte slice.\<close>

definition stringOf :: "string option \<Rightarrow> string" where
  "stringOf b = (case b of None \<Rightarrow> [] | Some s \<Rightarrow> s)"

subsection \<open>\<^verbatim>\<open>marshalTableValue\<close> and \<^verbatim>\<open>unmarshalTableValue\<close>\<close>

text \<open>
  The type switch comes first (nil, \<^verbatim>\<open>string\<close>, \<^verbatim>\<open>[]byte\<close>, \<^verbatim>\<open>gogoproto.Message\<close>,
  \<^verbatim>\<open>encoding.BinaryMarshaler\<close>), then the switch on the kind.
\<close>

fun marshalTableValue :: "fvalue \<Rightarrow> Value outcome" where
  "marshalTableValue (VMessage None) = Ok emptyValue"
| "marshalTableValue (VBinaryMarshaler None) = Ok emptyValue"
| "marshalTableValue (VString t) = Ok (emptyValue\<lparr>Bytes := Some t\<rparr>)"
| "marshalTableValue (VBytes t) = Ok (emptyValue\<lparr>Bytes := t\<rparr>)"
| "marshalTableValue (VMessage (Some (Inl err))) = Fail (MarshalFailed err)"
| "marshalTableValue (VMessage (Some (Inr b))) = Ok (emptyValue\<lparr>Bytes := b\<rparr>)"
| "marshalTableValue (VBinaryMarshaler (Some (Inl err))) = Fail (MarshalFailed err)"
| "marshalTableValue (VBinaryMarshaler (Some (Inr b))) = Ok (emptyValue\<lparr>Bytes := b\<rparr>)"
| "marshalTableValue (VBool v) = Ok (emptyValue\<lparr>Integer := Some (if v then 1 else 0)\<rparr>)"
| "marshalTableValue (VInt v) = Ok (emptyValue\<lparr>Integer := Some (Int_of v)\<rparr>)"
| "marshalTableValue (VUint v) = Ok (emptyValue\<lparr>Integer := Some (Uint_of v)\<rparr>)"
| "marshalTableValue (VFloat v) = Ok (emptyValue\<lparr>Integer := Some (Float_of v)\<rparr>)"
| "marshalTableValue (VKindString v) = Ok (emptyValue\<lparr>Bytes := Some v\<rparr>)"
| "marshalTableValue VOther = Fail UnableToMarshalValue"

text \<open>
  \<open>unmarshalTableValue X src dest\<close> returns the new contents of the field \<open>dest\<close>;
  \<open>src = None\<close> is the nil pointer. The branches for \<^verbatim>\<open>*gogoproto.Message\<close> and
  \<^verbatim>\<open>*encoding.BinaryMarshaler\<close> panic.
\<close>

fun unmarshalTableValue :: "externals \<Rightarrow> Value option \<Rightarrow> fvalue \<Rightarrow> fvalue outcome" where
  "unmarshalTableValue X None dest = Ok (zeroValue dest)"
| "unmarshalTableValue X (Some src) (VString _) =
     (if Integer src \<noteq> None then Fail UnableToUnmarshalInteger
      else if Bytes src \<noteq> None then Ok (VString (stringOf (Bytes src)))
      else Ok (VString []))"
| "unmarshalTableValue X (Some src) (VBytes _) =
     (if Integer src \<noteq> None then Fail UnableToUnmarshalInteger
      else if Bytes src \<noteq> None then Ok (VBytes (Bytes src))
      else Ok (VBytes None))"
| "unmarshalTableValue X (Some src) (VMessage _) = Panic"
| "unmarshalTableValue X (Some src) (VBinaryMarshaler _) = Panic"
| "unmarshalTableValue X (Some src) (VBool _) =
     (if Bytes src \<noteq> None then Fail UnableToUnmarshalBytes
      else Ok (VBool (GetInteger src \<noteq> 0)))"
| "unmarshalTableValue X (Some src) (VInt d) =
     (if Bytes src \<noteq> None then Fail UnableToUnmarshalBytes
      else Ok (VInt (SetInt d (GetInteger src))))"
| "unmarshalTableValue X (Some src) (VUint d) =
     (if Bytes src \<noteq> None then Fail UnableToUnmarshalBytes
      else Ok (VUint (SetUint d (GetInteger src))))"
| "unmarshalTableValue X (Some src) (VFloat d) =
     (if Bytes src \<noteq> None then Fail UnableToUnmarshalBytes
      else Ok (VFloat (SetFloat X d (GetInteger src))))"
| "unmarshalTableValue X (Some src) (VKindString _) =
     (if Integer src \<noteq> None then Fail UnableToUnmarshalInteger
      else Ok (VKindString (stringOf (Bytes src))))"
| "unmarshalTableValue X (Some src) VOther = Fail UnableToUnmarshalValue"

lemma ucast_scast_id:
  "LENGTH('a::len) \<le> LENGTH('b::len) \<Longrightarrow> ucast (scast (x :: 'a word) :: 'b word) = x"
  by (rule bit_word_eqI) (auto simp add: bit_word_ucast_iff bit_word_scast_iff)

lemma ucast_ucast_id:
  "LENGTH('a::len) \<le> LENGTH('b::len) \<Longrightarrow> ucast (ucast (x :: 'a word) :: 'b word) = x"
  by (rule bit_word_eqI) (auto simp add: bit_word_ucast_iff)

lemma SetInt_Int_of: "SetInt d 0 = SetInt v 0 \<Longrightarrow> SetInt d (Int_of v) = v"
  by (cases v; cases d) (simp_all add: ucast_scast_id)

lemma SetUint_Uint_of: "SetUint d 0 = SetUint v 0 \<Longrightarrow> SetUint d (Uint_of v) = v"
  by (cases v; cases d) (simp_all add: ucast_ucast_id)

subsection \<open>Types, objects and the heap\<close>

text \<open>
  \<^verbatim>\<open>reflect.Type\<close> as far as the code inspects it: a struct type is given by its name and
  the zero value of each of its fields (nested anonymous structs flattened, so that
  \<^verbatim>\<open>f.Index\<close> is one position), and there are pointer and slice types. An object passed as
  \<^verbatim>\<open>interface{}\<close> is a struct, a pointer into the heap, or a slice; the heap is a list of
  cells and an address is a position in it. A pointer at an address outside the heap
  stands for a nil pointer.
\<close>

datatype rtype = RStruct string "fvalue list" | RPtr rtype | RSlice rtype | ROther

datatype gvalue =
    GStruct rtype "fvalue list"
  | GPtr rtype nat
  | GSlice rtype "gvalue list"
  | GOther

type_synonym heap = "gvalue list"

fun typeOf :: "gvalue \<Rightarrow> rtype" where
  "typeOf (GStruct t _) = t"
| "typeOf (GPtr t _) = RPtr t"
| "typeOf (GSlice t _) = RSlice t"
| "typeOf GOther = ROther"

fun isPtr :: "rtype \<Rightarrow> bool" where
  "isPtr (RPtr _) = True"
| "isPtr _ = False"

text \<open>
  Modelled from the spec: \<^verbatim>\<open>deref\<close> is not part of the sources at hand; the binding is
  looked up ``dereferencing a handle-to-record if needed''.
\<close>

fun deref :: "rtype \<Rightarrow> rtype" where
  "deref (RPtr t) = t"
| "deref t = t"

text \<open>\<^verbatim>\<open>reflect.Indirect(v)\<close>; \<open>None\<close> is the invalid \<^verbatim>\<open>reflect.Value\<close> of a nil pointer.\<close>

fun indirect :: "heap \<Rightarrow> gvalue \<Rightarrow> gvalue option" where
  "indirect h (GPtr t a) = (if a < length h then Some (h ! a) else None)"
| "indirect h v = Some v"

text \<open>\<^verbatim>\<open>v.FieldByIndex(f.Index)\<close> panics outside a struct or outside its fields.\<close>

fun fieldByIndex :: "gvalue \<Rightarrow> nat \<Rightarrow> fvalue option" where
  "fieldByIndex (GStruct t fs) i = (if i < length fs then Some (fs ! i) else None)"
| "fieldByIndex _ i = None"

fun setField :: "gvalue \<Rightarrow> nat \<Rightarrow> fvalue \<Rightarrow> gvalue" where
  "setField (GStruct t fs) i x = GStruct t (fs[i := x])"
| "setField v i x = v"

subsection \<open>Models and the registry\<close>

text \<open>
  \<^verbatim>\<open>fieldMap\<close> is a Go map from column name to struct field; the association list gives
  the entries in the order in which \<^verbatim>\<open>range\<close> happens to iterate, and the code looks a
  column up with \<open>map_of\<close>. \<^verbatim>\<open>getDBFields\<close> is not part of the sources at hand and is a
  parameter.
\<close>

type_synonym fieldMap = "(string \<times> nat) list"

text \<open>The field \<^verbatim>\<open>fields\<close> of the Go struct is \<open>mfields\<close>.\<close>

record model =
  name :: string
  mfields :: fieldMap
  primaryKey :: "string list"
  otherColumns :: "string list"

record DB =
  experimentalModels :: "rtype \<rightharpoonup> model"

subsection \<open>Keys\<close>

fun encodeTableKey :: "externals \<Rightarrow> string \<Rightarrow> fvalue \<Rightarrow> string outcome" where
  "encodeTableKey X b (VBytes t) = Ok (EncodeBytes X b (stringOf t))"
| "encodeTableKey X b (VString t) = Ok (EncodeBytes X b t)"
| "encodeTableKey X b (VBool v) = Ok (EncodeVarint X b (if v then 1 else 0))"
| "encodeTableKey X b (VInt v) = Ok (EncodeVarint X b (Int_of v))"
| "encodeTableKey X b (VUint v) = Ok (EncodeUvarint X b (Uint_of v))"
| "encodeTableKey X b (VFloat v) = Ok (EncodeNumericFloat X b (Float_of v))"
| "encodeTableKey X b (VKindString v) = Ok (EncodeBytes X b v)"
| "encodeTableKey X b v = Fail UnableToEncodeKey"

text \<open>
  \<open>decodeTableKey X b v\<close> returns the remaining bytes and the new contents of the field
  \<open>v\<close>.
\<close>

fun decodeTableKey :: "externals \<Rightarrow> string \<Rightarrow> fvalue \<Rightarrow> (string \<times> fvalue) outcome" where
  "decodeTableKey X b (VBytes _) =
     (case DecodeBytes X b of None \<Rightarrow> Panic | Some (b', r) \<Rightarrow> Ok (b', VBytes r))"
| "decodeTableKey X b (VString _) =
     (case DecodeBytes X b of None \<Rightarrow> Panic | Some (b', r) \<Rightarrow> Ok (b', VString (stringOf r)))"
| "decodeTableKey X b (VBool _) =
     (case DecodeVarint X b of None \<Rightarrow> Panic | Some (b', i) \<Rightarrow> Ok (b', VBool (i \<noteq> 0)))"
| "decodeTableKey X b (VInt v) =
     (case DecodeVarint X b of None \<Rightarrow> Panic | Some (b', i) \<Rightarrow> Ok (b', VInt (SetInt v i)))"
| "decodeTableKey X b (VUint v) =
     (case DecodeUvarint X b of None \<Rightarrow> Panic | Some (b', i) \<Rightarrow> Ok (b', VUint (SetUint v i)))"
| "decodeTableKey X b (VFloat v) =
     (case DecodeNumericFloat X b of None \<Rightarrow> Panic
      | Some (b', f) \<Rightarrow> Ok (b', VFloat (SetFloat X v f)))"
| "decodeTableKey X b (VKindString _) =
     (case DecodeBytes X b of None \<Rightarrow> Panic
      | Some (b', r) \<Rightarrow> Ok (b', VKindString (stringOf r)))"
| "decodeTableKey X b v = Fail UnableToDecodeKey"

text \<open>The loop of \<^verbatim>\<open>encodePrimaryKey\<close> over \<^verbatim>\<open>m.primaryKey\<close>.\<close>

fun encodePrimaryKeyCols ::
  "externals \<Rightarrow> model \<Rightarrow> gvalue \<Rightarrow> string \<Rightarrow> string list \<Rightarrow> string outcome" where
  "encodePrimaryKeyCols X m v key [] = Ok key"
| "encodePrimaryKeyCols X m v key (col # cols) =
     (case map_of (mfields m) col of
        None \<Rightarrow> Fail (UnableToFindField (name m) col)
      | Some f \<Rightarrow>
          (case fieldByIndex v f of
             None \<Rightarrow> Panic
           | Some x \<Rightarrow>
               (case encodeTableKey X key x of
                  Ok key' \<Rightarrow> encodePrimaryKeyCols X m v key' cols
                | Fail err \<Rightarrow> Fail err
                | Panic \<Rightarrow> Panic)))"

definition encodePrimaryKey :: "externals \<Rightarrow> model \<Rightarrow> gvalue \<Rightarrow> string outcome" where
  "encodePrimaryKey X m v =
     encodePrimaryKeyCols X m v (EncodeBytes X [] (name m)) (primaryKey m)"

text \<open>The loop of \<^verbatim>\<open>decodePrimaryKey\<close>; it returns the remaining bytes and the object
  with the decoded fields.\<close>

fun decodePrimaryKeyCols ::
  "externals \<Rightarrow> model \<Rightarrow> string \<Rightarrow> gvalue \<Rightarrow> string list \<Rightarrow> (string \<times> gvalue) outcome" where
  "decodePrimaryKeyCols X m key v [] = Ok (key, v)"
| "decodePrimaryKeyCols X m key v (col # cols) =
     (case map_of (mfields m) col of
        None \<Rightarrow> Fail (UnableToFindField (name m) col)
      | Some f \<Rightarrow>
          (case fieldByIndex v f of
             None \<Rightarrow> Panic
           | Some x \<Rightarrow>
               (case decodeTableKey X key x of
                  Ok (key', x') \<Rightarrow> decodePrimaryKeyCols X m key' (setField v f x') cols
                | Fail err \<Rightarrow> Fail err
                | Panic \<Rightarrow> Panic)))"

definition decodePrimaryKey ::
  "externals \<Rightarrow> model \<Rightarrow> string \<Rightarrow> gvalue \<Rightarrow> (string \<times> gvalue) outcome" where
  "decodePrimaryKey X m key v =
     (case DecodeBytes X key of
        None \<Rightarrow> Panic
      | Some (key', n) \<Rightarrow>
          if stringOf n \<noteq> name m then Fail (UnexpectedTableName (name m) (stringOf n))
          else decodePrimaryKeyCols X m key' v (primaryKey m))"

definition encodeColumnKey :: "string \<Rightarrow> string \<Rightarrow> string" where
  "encodeColumnKey key column = key @ column"

subsection \<open>\<^verbatim>\<open>BindModel\<close> and \<^verbatim>\<open>getModel\<close>\<close>

text \<open>
  \<open>BindModel getDBFields db name t primaryKey\<close>, where \<open>t\<close> is
  \<^verbatim>\<open>reflect.TypeOf(obj)\<close>, returns the error (or \<open>None\<close>) and the database handle with
  its registry. A nil map and an empty map read alike.
\<close>

definition BindModel ::
  "(rtype \<Rightarrow> fieldMap) \<Rightarrow> DB \<Rightarrow> string \<Rightarrow> rtype \<Rightarrow> string list \<Rightarrow> error option \<times> DB" where
  "BindModel getDBFields db nm objT pk =
     (let t = deref objT in
      if experimentalModels db t \<noteq> None then (Some (ModelAlreadyDefined nm), db)
      else
        (let m = \<lparr>name = nm, mfields = getDBFields t, primaryKey = pk, otherColumns = []\<rparr>;
             isPrimaryKey = set pk;
             m = m\<lparr>otherColumns := filter (\<lambda>col. col \<notin> isPrimaryKey) (map fst (mfields m))\<rparr>
         in (None, db\<lparr>experimentalModels := (experimentalModels db)(t \<mapsto> m)\<rparr>)))"

definition getModel :: "DB \<Rightarrow> rtype \<Rightarrow> bool \<Rightarrow> model outcome" where
  "getModel db t mustBePointer =
     (if mustBePointer \<and> \<not> isPtr t then Fail PointerTypeRequired
      else (case experimentalModels db (deref t) of
              Some m \<Rightarrow> Ok m
            | None \<Rightarrow> Fail UnableToFindModel))"

subsection \<open>Batches and calls\<close>

text \<open>
  A call is a request with the decoder to run on its reply. The Go code stores a closure in
  \<^verbatim>\<open>c.Post\<close>; the model stores what the closure captures: the object (a pointer) and the
  position of the field for \<^verbatim>\<open>GetStruct\<close> and \<^verbatim>\<open>IncStruct\<close>; the destination, the model,
  the element type, whether the elements are pointers, and the columns for
  \<^verbatim>\<open>ScanStruct\<close>.
\<close>

datatype request =
    GetRequest string
  | PutRequest string Value
  | IncrementRequest string int64
  | ScanRequest string string int64
  | DeleteRequest string

datatype post =
    NoPost
  | GetStructPost gvalue nat
  | IncStructPost gvalue nat
  | ScanStructPost gvalue model rtype bool "string list"

record Call =
  Args :: request
  Post :: post

record Result =
  rcalls :: nat
  rrows :: nat
  Err :: "error option"

record Batch =
  DB :: DB
  calls :: "Call list"
  Results :: "Result list"

text \<open>
  Modelled from the spec: \<^verbatim>\<open>initResult\<close> is not part of the sources at hand; an error
  during the setup of an operation ``is recorded as the batch entry's result''. The model
  appends one result with the number of calls, the number of rows and the error.
\<close>

definition initResult :: "Batch \<Rightarrow> nat \<Rightarrow> nat \<Rightarrow> error option \<Rightarrow> Batch" where
  "initResult b n numRows err =
     b\<lparr>Results := Results b @ [\<lparr>rcalls = n, rrows = numRows, Err = err\<rparr>]\<rparr>"

text \<open>
  Modelled from the spec: \<^verbatim>\<open>InitChecksum\<close> is not part of the sources at hand; \<^verbatim>\<open>Put\<close>
  ``initialises its integrity checksum over the cell key''.
\<close>

definition InitChecksum :: "externals \<Rightarrow> string \<Rightarrow> Value \<Rightarrow> Value" where
  "InitChecksum X key v = v\<lparr>Checksum := Some (computeChecksum X key v)\<rparr>"

subsection \<open>The row operations\<close>

text \<open>
  Every operation takes the heap (to read the object behind a pointer) and the batch, and
  returns the batch; \<open>None\<close> means that the Go code panics. A column list of length 0
  stands for \<^verbatim>\<open>m.otherColumns\<close>.
\<close>

fun getStructCalls ::
  "model \<Rightarrow> gvalue \<Rightarrow> string \<Rightarrow> Call list \<Rightarrow> string list \<Rightarrow> error + Call list" where
  "getStructCalls m obj pk cs [] = Inr cs"
| "getStructCalls m obj pk cs (col # cols) =
     (case map_of (mfields m) col of
        None \<Rightarrow> Inl (UnableToFindField (name m) col)
      | Some f \<Rightarrow>
          getStructCalls m obj pk
            (cs @ [\<lparr>Args = GetRequest (encodeColumnKey pk col), Post = GetStructPost obj f\<rparr>])
            cols)"

definition GetStruct ::
  "externals \<Rightarrow> heap \<Rightarrow> Batch \<Rightarrow> gvalue \<Rightarrow> string list \<Rightarrow> Batch option" where
  "GetStruct X h b obj columns =
     (case getModel (DB b) (typeOf obj) True of
        Fail err \<Rightarrow> Some (initResult b 0 0 (Some err))
      | Panic \<Rightarrow> None
      | Ok m \<Rightarrow>
          (case encodePrimaryKey X m (case indirect h obj of None \<Rightarrow> GOther | Some v \<Rightarrow> v) of
             Fail err \<Rightarrow> Some (initResult b 0 0 (Some err))
           | Panic \<Rightarrow> None
           | Ok pk \<Rightarrow>
               (case getStructCalls m obj pk []
                       (if length columns = 0 then otherColumns m else columns) of
                  Inl err \<Rightarrow> Some (initResult b 0 0 (Some err))
                | Inr cs \<Rightarrow>
                    Some (initResult (b\<lparr>calls := calls b @ cs\<rparr>) (length cs) (length cs) None))))"

fun putStructCalls ::
  "externals \<Rightarrow> model \<Rightarrow> gvalue \<Rightarrow> string \<Rightarrow> Call list \<Rightarrow> string list \<Rightarrow> Call list outcome" where
  "putStructCalls X m v pk cs [] = Ok cs"
| "putStructCalls X m v pk cs (col # cols) =
     (case map_of (mfields m) col of
        None \<Rightarrow> Fail (UnableToFindField (name m) col)
      | Some f \<Rightarrow>
          (case fieldByIndex v f of
             None \<Rightarrow> Panic
           | Some x \<Rightarrow>
               (case marshalTableValue x of
                  Fail err \<Rightarrow> Fail err
                | Panic \<Rightarrow> Panic
                | Ok val \<Rightarrow>
                    putStructCalls X m v pk
                      (cs @ [\<lparr>Args = PutRequest (encodeColumnKey pk col)
                                       (InitChecksum X (encodeColumnKey pk col) val),
                              Post = NoPost\<rparr>])
                      cols)))"

definition PutStruct ::
  "externals \<Rightarrow> heap \<Rightarrow> Batch \<Rightarrow> gvalue \<Rightarrow> string list \<Rightarrow> Batch option" where
  "PutStruct X h b obj columns =
     (case indirect h obj of
        None \<Rightarrow> None
      | Some v \<Rightarrow>
          (case getModel (DB b) (typeOf v) False of
             Fail err \<Rightarrow> Some (initResult b 0 0 (Some err))
           | Panic \<Rightarrow> None
           | Ok m \<Rightarrow>
               (case encodePrimaryKey X m v of
                  Fail err \<Rightarrow> Some (initResult b 0 0 (Some err))
                | Panic \<Rightarrow> None
                | Ok pk \<Rightarrow>
                    (case putStructCalls X m v pk []
                            (if length columns = 0 then otherColumns m else columns) of
                       Fail err \<Rightarrow> Some (initResult b 0 0 (Some err))
                     | Panic \<Rightarrow> None
                     | Ok cs \<Rightarrow>
                         Some (initResult (b\<lparr>calls := calls b @ cs\<rparr>)
                                 (length cs) (length cs) None)))))"

definition IncStruct ::
  "externals \<Rightarrow> heap \<Rightarrow> Batch \<Rightarrow> gvalue \<Rightarrow> int64 \<Rightarrow> string \<Rightarrow> Batch option" where
  "IncStruct X h b obj val column =
     (case getModel (DB b) (typeOf obj) True of
        Fail err \<Rightarrow> Some (initResult b 0 0 (Some err))
      | Panic \<Rightarrow> None
      | Ok m \<Rightarrow>
          (case encodePrimaryKey X m (case indirect h obj of None \<Rightarrow> GOther | Some v \<Rightarrow> v) of
             Fail err \<Rightarrow> Some (initResult b 0 0 (Some err))
           | Panic \<Rightarrow> None
           | Ok pk \<Rightarrow>
               (case map_of (mfields m) column of
                  None \<Rightarrow> Some (initResult b 0 0 (Some (UnableToFindField (name m) column)))
                | Some f \<Rightarrow>
                    Some (initResult
                            (b\<lparr>calls := calls b @
                                 [\<lparr>Args = IncrementRequest (encodeColumnKey pk column) val,
                                   Post = IncStructPost obj f\<rparr>]\<rparr>)
                            1 1 None))))"

fun delStructCalls ::
  "model \<Rightarrow> string \<Rightarrow> Call list \<Rightarrow> string list \<Rightarrow> error + Call list" where
  "delStructCalls m pk cs [] = Inr cs"
| "delStructCalls m pk cs (col # cols) =
     (case map_of (mfields m) col of
        None \<Rightarrow> Inl (UnableToFindField (name m) col)
      | Some f \<Rightarrow>
          delStructCalls m pk
            (cs @ [\<lparr>Args = DeleteRequest (encodeColumnKey pk col), Post = NoPost\<rparr>]) cols)"

definition DelStruct ::
  "externals \<Rightarrow> heap \<Rightarrow> Batch \<Rightarrow> gvalue \<Rightarrow> string list \<Rightarrow> Batch option" where
  "DelStruct X h b obj columns =
     (case indirect h obj of
        None \<Rightarrow> None
      | Some v \<Rightarrow>
          (case getModel (DB b) (typeOf v) False of
             Fail err \<Rightarrow> Some (initResult b 0 0 (Some err))
           | Panic \<Rightarrow> None
           | Ok m \<Rightarrow>
               (case encodePrimaryKey X m v of
                  Fail err \<Rightarrow> Some (initResult b 0 0 (Some err))
                | Panic \<Rightarrow> None
                | Ok pk \<Rightarrow>
                    (case delStructCalls m pk []
                            (if length columns = 0 then otherColumns m else columns) of
                       Inl err \<Rightarrow> Some (initResult b 0 0 (Some err))
                     | Inr cs \<Rightarrow>
                         Some (initResult (b\<lparr>calls := calls b @ cs\<rparr>)
                                 (length cs) (length cs) None)))))"

text \<open>
  \<^verbatim>\<open>ScanStruct\<close>: the destination must be a non-nil pointer to a slice; the element type,
  or the type it points to, is the model type, and \<^verbatim>\<open>start\<close> and \<^verbatim>\<open>end\<close> must have
  exactly that type.
\<close>

definition scanStructSetup ::
  "externals \<Rightarrow> heap \<Rightarrow> Batch \<Rightarrow> gvalue \<Rightarrow> rtype \<Rightarrow> gvalue \<Rightarrow> gvalue \<Rightarrow> int64
     \<Rightarrow> string list \<Rightarrow> Batch option" where
  "scanStructSetup X h b dest elemT startObj endObj maxRows columns =
     (let ptrResults = isPtr elemT;
          modelT = (if ptrResults then deref elemT else elemT)
      in case getModel (DB b) modelT False of
           Fail err \<Rightarrow> Some (initResult b 0 0 (Some err))
         | Panic \<Rightarrow> None
         | Ok m \<Rightarrow>
             (case indirect h startObj of
                None \<Rightarrow> None
              | Some startV \<Rightarrow>
                  if modelT \<noteq> typeOf startV
                  then Some (initResult b 0 0 (Some IncompatibleStartKeyType))
                  else
                    (case indirect h endObj of
                       None \<Rightarrow> None
                     | Some endV \<Rightarrow>
                         if modelT \<noteq> typeOf endV
                         then Some (initResult b 0 0 (Some IncompatibleEndKeyType))
                         else
                           (case encodePrimaryKey X m startV of
                              Fail err \<Rightarrow> Some (initResult b 0 0 (Some err))
                            | Panic \<Rightarrow> None
                            | Ok startKey \<Rightarrow>
                                (case encodePrimaryKey X m endV of
                                   Fail err \<Rightarrow> Some (initResult b 0 0 (Some err))
                                 | Panic \<Rightarrow> None
                                 | Ok endKey \<Rightarrow>
                                     Some (initResult
                                       (b\<lparr>calls := calls b @
                                           [\<lparr>Args = ScanRequest startKey endKey maxRows,
                                             Post = ScanStructPost dest m modelT ptrResults
                                                      columns\<rparr>]\<rparr>)
                                       1 0 None))))))"

definition ScanStruct ::
  "externals \<Rightarrow> heap \<Rightarrow> Batch \<Rightarrow> gvalue \<Rightarrow> gvalue \<Rightarrow> gvalue \<Rightarrow> int64 \<Rightarrow> string list
     \<Rightarrow> Batch option" where
  "ScanStruct X h b dest startObj endObj maxRows columns =
     (case dest of
        GPtr (RSlice elemT) a \<Rightarrow>
          (if a < length h
           then scanStructSetup X h b dest elemT startObj endObj maxRows columns
           else Some (initResult b 0 0 (Some DestMustBePointerToSlice)))
      | _ \<Rightarrow> Some (initResult b 0 0 (Some DestMustBePointerToSlice)))"

subsection \<open>The post-reply decoders\<close>

datatype reply =
    GetResponse "Value option"
  | PutResponse
  | IncrementResponse int64
  | ScanResponse "(string \<times> Value) list"
  | DeleteResponse

text \<open>
  The decoder of \<^verbatim>\<open>GetStruct\<close> and \<^verbatim>\<open>IncStruct\<close> writes one field of the struct behind the
  pointer that the operation was given. The result is the error (or \<open>None\<close>) and the heap;
  \<open>None\<close> in place of both is a panic.
\<close>

definition unmarshalField ::
  "externals \<Rightarrow> heap \<Rightarrow> gvalue \<Rightarrow> nat \<Rightarrow> Value option \<Rightarrow> (error option \<times> heap) option" where
  "unmarshalField X h obj f src =
     (case obj of
        GPtr t a \<Rightarrow>
          if a < length h then
            (case fieldByIndex (h ! a) f of
               None \<Rightarrow> None
             | Some d \<Rightarrow>
                 (case unmarshalTableValue X src d of
                    Ok d' \<Rightarrow> Some (None, h[a := setField (h ! a) f d'])
                  | Fail err \<Rightarrow> Some (Some err, h)
                  | Panic \<Rightarrow> None))
          else None
      | _ \<Rightarrow> None)"

text \<open>\<^verbatim>\<open>reflect.New(modelT).Elem()\<close> and \<^verbatim>\<open>reflect.Zero\<close>: the zero struct.\<close>

fun zeroOf :: "rtype \<Rightarrow> gvalue" where
  "zeroOf (RStruct n zs) = GStruct (RStruct n zs) zs"
| "zeroOf t = GOther"

text \<open>
  \<^verbatim>\<open>reflect.Append\<close> of the record in flight: the struct itself, or a pointer to it. The
  cell of a pointer result is allocated here, when the record is appended.
\<close>

definition appendResult ::
  "bool \<Rightarrow> rtype \<Rightarrow> heap \<Rightarrow> gvalue list \<Rightarrow> gvalue \<Rightarrow> heap \<times> gvalue list" where
  "appendResult ptrResults modelT h sliceV result =
     (if ptrResults then (h @ [result], sliceV @ [GPtr modelT (length h)])
      else (h, sliceV @ [result]))"

text \<open>
  The head of the loop body: when the key of the row does not have the current primary key
  as a prefix, the record in flight is appended, a zero record takes its place and the
  current primary key is decoded into it.
\<close>

definition scanFlush ::
  "externals \<Rightarrow> model \<Rightarrow> rtype \<Rightarrow> bool \<Rightarrow> heap \<Rightarrow> gvalue list \<Rightarrow> string option \<Rightarrow> gvalue
     \<Rightarrow> string \<Rightarrow> (heap \<times> gvalue list \<times> gvalue) outcome" where
  "scanFlush X m modelT ptrResults h sliceV pk result key =
     (case pk of
        None \<Rightarrow> Ok (h, sliceV, result)
      | Some p \<Rightarrow>
          if \<not> prefix p key then
            (case decodePrimaryKey X m p (zeroOf modelT) of
               Ok (rest, result') \<Rightarrow>
                 Ok (fst (appendResult ptrResults modelT h sliceV result),
                     snd (appendResult ptrResults modelT h sliceV result), result')
             | Fail err \<Rightarrow> Fail err
             | Panic \<Rightarrow> Panic)
          else Ok (h, sliceV, result))"

text \<open>
  The loop over \<^verbatim>\<open>reply.Rows\<close>. \<open>scanCols\<close> is \<open>None\<close> for the nil map (no column
  list); the state is the heap, \<^verbatim>\<open>sliceV\<close>, \<^verbatim>\<open>primaryKey\<close> and \<^verbatim>\<open>result\<close>.
\<close>

fun scanRows ::
  "externals \<Rightarrow> model \<Rightarrow> rtype \<Rightarrow> bool \<Rightarrow> string set option \<Rightarrow> heap \<Rightarrow> gvalue list
     \<Rightarrow> string option \<Rightarrow> gvalue \<Rightarrow> (string \<times> Value) list
     \<Rightarrow> (heap \<times> gvalue list \<times> gvalue) outcome" where
  "scanRows X m modelT ptrResults scanCols h sliceV pk result [] = Ok (h, sliceV, result)"
| "scanRows X m modelT ptrResults scanCols h sliceV pk result (row # rows) =
     (case scanFlush X m modelT ptrResults h sliceV pk result (fst row) of
        Fail err \<Rightarrow> Fail err
      | Panic \<Rightarrow> Panic
      | Ok (h', sliceV', result') \<Rightarrow>
          (case decodePrimaryKey X m (fst row) result' of
             Fail err \<Rightarrow> Fail err
           | Panic \<Rightarrow> Panic
           | Ok (col, result'') \<Rightarrow>
               (let pk' = Some (take (length (fst row) - length col) (fst row)) in
                if scanCols \<noteq> None \<and> col \<notin> the scanCols then
                  scanRows X m modelT ptrResults scanCols h' sliceV' pk' result'' rows
                else
                  (case map_of (mfields m) col of
                     None \<Rightarrow> Fail (UnableToFindField (name m) col)
                   | Some f \<Rightarrow>
                       (case fieldByIndex result'' f of
                          None \<Rightarrow> Panic
                        | Some d \<Rightarrow>
                            (case unmarshalTableValue X (Some (snd row)) d of
                               Fail err \<Rightarrow> Fail err
                             | Panic \<Rightarrow> Panic
                             | Ok d' \<Rightarrow>
                                 scanRows X m modelT ptrResults scanCols h' sliceV' pk'
                                   (setField result'' f d') rows))))))"

text \<open>
  The decoder of \<^verbatim>\<open>ScanStruct\<close>. With no rows it returns at once. Otherwise it starts from
  the slice that \<^verbatim>\<open>dest\<close> points to and a zero record, runs the loop, appends the record
  in flight and stores the slice through \<^verbatim>\<open>dest\<close>. On an error the heap is as before.
\<close>

definition scanStructPost ::
  "externals \<Rightarrow> heap \<Rightarrow> gvalue \<Rightarrow> model \<Rightarrow> rtype \<Rightarrow> bool \<Rightarrow> string list
     \<Rightarrow> (string \<times> Value) list \<Rightarrow> (error option \<times> heap) option" where
  "scanStructPost X h dest m modelT ptrResults columns rows =
     (if length rows = 0 then Some (None, h)
      else
        (case dest of
           GPtr (RSlice elemT) a \<Rightarrow>
             (if a < length h then
                (case h ! a of
                   GSlice elemT' sliceV \<Rightarrow>
                     (case scanRows X m modelT ptrResults
                             (if length columns > 0 then Some (set columns) else None)
                             h sliceV None (zeroOf modelT) rows of
                        Fail err \<Rightarrow> Some (Some err, h)
                      | Panic \<Rightarrow> None
                      | Ok (h', sliceV', result) \<Rightarrow>
                          Some (None,
                            (fst (appendResult ptrResults modelT h' sliceV' result))
                              [a := GSlice elemT'
                                      (snd (appendResult ptrResults modelT h' sliceV' result))]))
                 | _ \<Rightarrow> None)
              else None)
         | _ \<Rightarrow> None))"

text \<open>Running the decoder of a call on its reply; a reply of the wrong type is a panic.\<close>

fun runPost :: "externals \<Rightarrow> heap \<Rightarrow> post \<Rightarrow> reply \<Rightarrow> (error option \<times> heap) option" where
  "runPost X h NoPost r = Some (None, h)"
| "runPost X h (GetStructPost obj f) (GetResponse src) = unmarshalField X h obj f src"
| "runPost X h (IncStructPost obj f) (IncrementResponse newValue) =
     unmarshalField X h obj f (Some (emptyValue\<lparr>Integer := Some newValue\<rparr>))"
| "runPost X h (ScanStructPost dest m modelT ptrResults columns) (ScanResponse rows) =
     scanStructPost X h dest m modelT ptrResults columns rows"
| "runPost X h p r = None"

subsection \<open>The key-value collaborator\<close>

text \<open>
  Modelled from the spec: the key-value store and the execution of a batch are not part of
  the sources at hand. The contract is \<^verbatim>\<open>Get(key)\<close> giving the value stored under the
  key, \<^verbatim>\<open>Put(key, value)\<close> and \<^verbatim>\<open>Delete(key)\<close>; the calls of a batch are dispatched in
  enqueue order and return their replies in order, then the decoders run. The contract
  does not fix what \<^verbatim>\<open>Increment\<close> and \<^verbatim>\<open>Scan\<close> compute, so the model of the store stops
  (\<open>None\<close>) at these requests.
\<close>

type_synonym store = "string \<rightharpoonup> Value"

fun kvSend :: "store \<Rightarrow> request \<Rightarrow> (store \<times> reply) option" where
  "kvSend s (GetRequest k) = Some (s, GetResponse (s k))"
| "kvSend s (PutRequest k v) = Some (s(k \<mapsto> v), PutResponse)"
| "kvSend s (DeleteRequest k) = Some (s(k := None), DeleteResponse)"
| "kvSend s (IncrementRequest k d) = None"
| "kvSend s (ScanRequest k1 k2 n) = None"

fun sendCalls :: "store \<Rightarrow> Call list \<Rightarrow> (store \<times> reply list) option" where
  "sendCalls s [] = Some (s, [])"
| "sendCalls s (c # cs) =
     (case kvSend s (Args c) of
        None \<Rightarrow> None
      | Some (s', r) \<Rightarrow>
          (case sendCalls s' cs of
             None \<Rightarrow> None
           | Some (s'', rs) \<Rightarrow> Some (s'', r # rs)))"

fun runPosts ::
  "externals \<Rightarrow> heap \<Rightarrow> (Call \<times> reply) list \<Rightarrow> (error option list \<times> heap) option" where
  "runPosts X h [] = Some ([], h)"
| "runPosts X h (cr # crs) =
     (case runPost X h (Post (fst cr)) (snd cr) of
        None \<Rightarrow> None
      | Some (err, h') \<Rightarrow>
          (case runPosts X h' crs of
             None \<Rightarrow> None
           | Some (errs, h'') \<Rightarrow> Some (err # errs, h'')))"

definition runBatch ::
  "externals \<Rightarrow> store \<Rightarrow> heap \<Rightarrow> Batch \<Rightarrow> (store \<times> heap \<times> error option list) option" where
  "runBatch X s h b =
     (case sendCalls s (calls b) of
        None \<Rightarrow> None
      | Some (s', rs) \<Rightarrow>
          (case runPosts X h (zip (calls b) rs) of
             None \<Rightarrow> None
           | Some (errs, h') \<Rightarrow> Some (s', h', errs)))"

subsection \<open>Marshalling round trip\<close>

text \<open>
  The supported scalar kinds, by the payload that carries them: a byte payload for
  \<^verbatim>\<open>string\<close>, \<^verbatim>\<open>[]byte\<close> and the kind \<^verbatim>\<open>String\<close>, an integer payload for booleans,
  integers of every width and floats.
\<close>

fun bytesKind :: "fvalue \<Rightarrow> bool" where
  "bytesKind (VString _) = True"
| "bytesKind (VBytes _) = True"
| "bytesKind (VKindString _) = True"
| "bytesKind _ = False"

fun integerKind :: "fvalue \<Rightarrow> bool" where
  "integerKind (VBool _) = True"
| "integerKind (VInt _) = True"
| "integerKind (VUint _) = True"
| "integerKind (VFloat _) = True"
| "integerKind _ = False"

definition scalar :: "fvalue \<Rightarrow> bool" where
  "scalar v \<longleftrightarrow> bytesKind v \<or> integerKind v"

text \<open>Two field values have the same type when the zero values of their types agree.\<close>

definition sameType :: "fvalue \<Rightarrow> fvalue \<Rightarrow> bool" where
  "sameType a b \<longleftrightarrow> zeroValue a = zeroValue b"

text \<open>
  The representation invariant of a \<^verbatim>\<open>float32\<close> field: its value, seen as a \<^verbatim>\<open>float64\<close>,
  is a single-precision number, which rounding to single precision leaves unchanged.
\<close>

fun representable :: "externals \<Rightarrow> fvalue \<Rightarrow> bool" where
  "representable X (VFloat (F32 x)) = (Float32 X x = x)"
| "representable X v = True"

lemma marshal_unmarshal:
  assumes "scalar v" and "representable X v" and "sameType dest v"
  shows "\<exists>src. marshalTableValue v = Ok src
           \<and> unmarshalTableValue X (Some (src\<lparr>Checksum := c\<rparr>)) dest = Ok v"
proof (cases v)
  case (VInt i)
  with assms(3) obtain d where d: "dest = VInt d" "SetInt d 0 = SetInt i 0"
    by (cases dest; simp add: sameType_def; (rename_tac f, case_tac f; simp)?)
  with VInt show ?thesis by (simp add: emptyValue_def GetInteger_def SetInt_Int_of)
next
  case (VUint u)
  with assms(3) obtain d where d: "dest = VUint d" "SetUint d 0 = SetUint u 0"
    by (cases dest; simp add: sameType_def; (rename_tac f, case_tac f; simp)?)
  with VUint show ?thesis by (simp add: emptyValue_def GetInteger_def SetUint_Uint_of)
next
  case (VFloat f)
  show ?thesis
  proof (cases f)
    case (F32 x)
    with VFloat assms(3) obtain y where "dest = VFloat (F32 y)"
      by (cases dest; simp add: sameType_def; (rename_tac g, case_tac g; simp)?)
    with VFloat F32 assms(2) show ?thesis by (simp add: emptyValue_def GetInteger_def)
  next
    case (F64 x)
    with VFloat assms(3) obtain y where "dest = VFloat (F64 y)"
      by (cases dest; simp add: sameType_def; (rename_tac g, case_tac g; simp)?)
    with VFloat F64 show ?thesis by (simp add: emptyValue_def GetInteger_def)
  qed
next
  case (VString s)
  with assms(3) obtain t where "dest = VString t"
    by (cases dest; simp add: sameType_def; (rename_tac g, case_tac g; simp)?)
  with VString show ?thesis by (simp add: emptyValue_def stringOf_def)
next
  case (VBytes s)
  with assms(3) obtain t where "dest = VBytes t"
    by (cases dest; simp add: sameType_def; (rename_tac g, case_tac g; simp)?)
  with VBytes show ?thesis by (cases s) (simp_all add: emptyValue_def)
next
  case (VKindString s)
  with assms(3) obtain t where "dest = VKindString t"
    by (cases dest; simp add: sameType_def; (rename_tac g, case_tac g; simp)?)
  with VKindString show ?thesis by (simp add: emptyValue_def stringOf_def)
next
  case (VBool b)
  with assms(3) obtain t where "dest = VBool t"
    by (cases dest; simp add: sameType_def; (rename_tac g, case_tac g; simp)?)
  with VBool show ?thesis by (simp add: emptyValue_def GetInteger_def)
qed (use assms(1) in \<open>simp_all add: scalar_def\<close>)

subsection \<open>An instance of the externals\<close>

text \<open>
  Modelled from the spec: the bytes codec of the design (section 4.1), a terminator-based
  escape in which the byte \<open>0x00\<close> of the payload becomes \<open>0x00 0xFF\<close> and the value ends
  with \<open>0x00 0x01\<close>; decoding scans to the terminator and fails on a malformed escape or at
  the end of the input.
\<close>

fun escapeBytes :: "string \<Rightarrow> string" where
  "escapeBytes [] = [CHR 0x00, CHR 0x01]"
| "escapeBytes (c # cs) =
     (if c = CHR 0x00 then CHR 0x00 # CHR 0xFF # escapeBytes cs else c # escapeBytes cs)"

fun unescapeBytes :: "string \<Rightarrow> (string \<times> string) option" where
  "unescapeBytes [] = None"
| "unescapeBytes [c] = None"
| "unescapeBytes (c # d # cs) =
     (if c = CHR 0x00 then
        (if d = CHR 0x01 then Some (cs, [])
         else if d = CHR 0xFF then
           (case unescapeBytes cs of None \<Rightarrow> None | Some (rest, r) \<Rightarrow> Some (rest, CHR 0x00 # r))
         else None)
      else (case unescapeBytes (d # cs) of None \<Rightarrow> None | Some (rest, r) \<Rightarrow> Some (rest, c # r)))"

text \<open>
  The instance used at concrete inputs. Only its bytes codec is meant: the examples have
  string keys, and the integer and float codecs, the rounding and the checksum are
  stand-ins (encoders that append nothing, decoders that fail, the truncation of the
  mantissa to 23 bits, the constant 0).
\<close>

definition demoExternals :: externals where
  "demoExternals =
     \<lparr>EncodeBytes = (\<lambda>b t. b @ escapeBytes t),
      DecodeBytes = (\<lambda>b. case unescapeBytes b of None \<Rightarrow> None | Some (rest, r) \<Rightarrow> Some (rest, Some r)),
      EncodeVarint = (\<lambda>b v. b),
      DecodeVarint = (\<lambda>b. None),
      EncodeUvarint = (\<lambda>b v. b),
      DecodeUvarint = (\<lambda>b. None),
      EncodeNumericFloat = (\<lambda>b v. b),
      DecodeNumericFloat = (\<lambda>b. None),
      Float32 = (\<lambda>x. and x (not (mask 29))),
      computeChecksum = (\<lambda>key v. 0)\<rparr>"

text \<open>
  C5. For every field value \<open>v\<close> of a supported scalar kind (a float32 value being a
  single-precision number) and every destination field \<open>dest\<close> of the type of \<open>v\<close>,
  \<^verbatim>\<open>marshalTableValue\<close> on \<open>v\<close> succeeds, and \<^verbatim>\<open>unmarshalTableValue\<close> of its result into
  \<open>dest\<close>, whatever checksum the value has been given in between, succeeds and sets the
  field to \<open>v\<close>. \<^verbatim>\<open>unmarshalTableValue\<close> fails when the payload does not match the
  destination: an integer payload into a \<^verbatim>\<open>string\<close>, \<^verbatim>\<open>[]byte\<close> or string-kind field,
  a byte payload into a bool, integer or float field.
\<close>

theorem marshal_unmarshal_roundtrip:
  "(scalar v \<and> representable X v \<and> sameType dest v \<longrightarrow>
      (\<exists>val. marshalTableValue v = Ok val
         \<and> unmarshalTableValue X (Some (val\<lparr>Checksum := c\<rparr>)) dest = Ok v))
   \<and> (bytesKind dest \<and> Integer src \<noteq> None \<longrightarrow>
        unmarshalTableValue X (Some src) dest = Fail UnableToUnmarshalInteger)
   \<and> (integerKind dest \<and> Bytes src \<noteq> None \<longrightarrow>
        unmarshalTableValue X (Some src) dest = Fail UnableToUnmarshalBytes)"
proof (intro conjI impI)
  assume "scalar v \<and> representable X v \<and> sameType dest v"
  then show "\<exists>val. marshalTableValue v = Ok val
         \<and> unmarshalTableValue X (Some (val\<lparr>Checksum := c\<rparr>)) dest = Ok v"
    using marshal_unmarshal [of v X dest c] by blast
next
  assume "bytesKind dest \<and> Integer src \<noteq> None"
  then show "unmarshalTableValue X (Some src) dest = Fail UnableToUnmarshalInteger"
    by (cases dest) auto
next
  assume "integerKind dest \<and> Bytes src \<noteq> None"
  then show "unmarshalTableValue X (Some src) dest = Fail UnableToUnmarshalBytes"
    by (cases dest) auto
qed

theorem marshal_unmarshal_roundtrip_witness:
  "(\<exists>val. marshalTableValue (VInt (I8 (- 5))) = Ok val
      \<and> unmarshalTableValue demoExternals (Some (val\<lparr>Checksum := Some 7\<rparr>)) (VInt (I8 0))
          = Ok (VInt (I8 (- 5))))
   \<and> (\<exists>val. marshalTableValue (VFloat (F32 0x4045000000000000)) = Ok val
      \<and> unmarshalTableValue demoExternals (Some (val\<lparr>Checksum := Some 7\<rparr>)) (VFloat (F32 0))
          = Ok (VFloat (F32 0x4045000000000000)))
   \<and> unmarshalTableValue demoExternals (Some (emptyValue\<lparr>Integer := Some 1\<rparr>)) (VString ''x'')
       = Fail UnableToUnmarshalInteger
   \<and> unmarshalTableValue demoExternals (Some (emptyValue\<lparr>Bytes := Some ''ab''\<rparr>)) (VBool False)
       = Fail UnableToUnmarshalBytes"
proof (intro conjI)
  show "\<exists>val. marshalTableValue (VInt (I8 (- 5))) = Ok val
      \<and> unmarshalTableValue demoExternals (Some (val\<lparr>Checksum := Some 7\<rparr>)) (VInt (I8 0))
          = Ok (VInt (I8 (- 5)))"
    using marshal_unmarshal_roundtrip [of "VInt (I8 (- 5))" demoExternals "VInt (I8 0)" "Some 7"]
    by (simp add: scalar_def sameType_def)
  show "\<exists>val. marshalTableValue (VFloat (F32 0x4045000000000000)) = Ok val
      \<and> unmarshalTableValue demoExternals (Some (val\<lparr>Checksum := Some 7\<rparr>)) (VFloat (F32 0))
          = Ok (VFloat (F32 0x4045000000000000))"
    using marshal_unmarshal_roundtrip
      [of "VFloat (F32 0x4045000000000000)" demoExternals "VFloat (F32 0)" "Some 7"]
    by (simp add: scalar_def sameType_def demoExternals_def mask_numeral)
  show "unmarshalTableValue demoExternals (Some (emptyValue\<lparr>Integer := Some 1\<rparr>)) (VString ''x'')
       = Fail UnableToUnmarshalInteger"
    using marshal_unmarshal_roundtrip
      [of _ demoExternals "VString ''x''" _ "emptyValue\<lparr>Integer := Some 1\<rparr>"]
    by simp
  show "unmarshalTableValue demoExternals (Some (emptyValue\<lparr>Bytes := Some ''ab''\<rparr>)) (VBool False)
       = Fail UnableToUnmarshalBytes"
    using marshal_unmarshal_roundtrip
      [of _ demoExternals "VBool False" _ "emptyValue\<lparr>Bytes := Some ''ab''\<rparr>"]
    by simp
qed

text \<open>
  C10. \<^verbatim>\<open>unmarshalTableValue\<close> applied to a nil value succeeds and sets the destination
  to the zero value of its type. For a destination of a supported scalar kind the same
  holds for a value with neither the integer nor the byte payload set (the rounding to
  single precision maps \<open>+0.0\<close> to \<open>+0.0\<close>): the empty string, the nil byte slice, 0,
  \<open>+0.0\<close> or false.
\<close>

theorem unmarshal_absent_is_zero:
  "unmarshalTableValue X None dest = Ok (zeroValue dest)
   \<and> (scalar dest \<and> Float32 X 0 = 0 \<and> Integer src = None \<and> Bytes src = None \<longrightarrow>
        unmarshalTableValue X (Some src) dest = Ok (zeroValue dest))"
proof (intro conjI impI)
  show "unmarshalTableValue X None dest = Ok (zeroValue dest)" by simp
next
  assume a: "scalar dest \<and> Float32 X 0 = 0 \<and> Integer src = None \<and> Bytes src = None"
  show "unmarshalTableValue X (Some src) dest = Ok (zeroValue dest)"
  proof (cases dest)
    case (VFloat f)
    with a show ?thesis by (cases f) (simp_all add: GetInteger_def)
  qed (use a in \<open>simp_all add: scalar_def GetInteger_def stringOf_def\<close>)
qed

theorem unmarshal_absent_is_zero_witness:
  "unmarshalTableValue demoExternals None (VString ''abc'') = Ok (VString [])
   \<and> unmarshalTableValue demoExternals (Some (emptyValue\<lparr>Checksum := Some 3\<rparr>))
        (VFloat (F32 0x4045000000000000)) = Ok (VFloat (F32 0))
   \<and> unmarshalTableValue demoExternals (Some emptyValue) (VBytes (Some ''abc'')) = Ok (VBytes None)
   \<and> unmarshalTableValue demoExternals (Some emptyValue) (VInt (I16 9)) = Ok (VInt (I16 0))
   \<and> unmarshalTableValue demoExternals (Some emptyValue) (VBool True) = Ok (VBool False)"
proof (intro conjI)
  show "unmarshalTableValue demoExternals None (VString ''abc'') = Ok (VString [])"
    using unmarshal_absent_is_zero [of demoExternals "VString ''abc''"] by simp
  show "unmarshalTableValue demoExternals (Some (emptyValue\<lparr>Checksum := Some 3\<rparr>))
        (VFloat (F32 0x4045000000000000)) = Ok (VFloat (F32 0))"
    using unmarshal_absent_is_zero
      [of demoExternals "VFloat (F32 0x4045000000000000)" "emptyValue\<lparr>Checksum := Some 3\<rparr>"]
    by (simp add: scalar_def demoExternals_def emptyValue_def mask_numeral)
  show "unmarshalTableValue demoExternals (Some emptyValue) (VBytes (Some ''abc'')) = Ok (VBytes None)"
    using unmarshal_absent_is_zero [of demoExternals "VBytes (Some ''abc'')" emptyValue]
    by (simp add: scalar_def demoExternals_def emptyValue_def)
  show "unmarshalTableValue demoExternals (Some emptyValue) (VInt (I16 9)) = Ok (VInt (I16 0))"
    using unmarshal_absent_is_zero [of demoExternals "VInt (I16 9)" emptyValue]
    by (simp add: scalar_def demoExternals_def emptyValue_def)
  show "unmarshalTableValue demoExternals (Some emptyValue) (VBool True) = Ok (VBool False)"
    using unmarshal_absent_is_zero [of demoExternals "VBool True" emptyValue]
    by (simp add: scalar_def demoExternals_def emptyValue_def)
qed

subsection \<open>The record type \<^verbatim>\<open>User\<close>\<close>

text \<open>
  \<^verbatim>\<open>User = (id string, name string, title string)\<close> with the columns \<open>id\<close>, \<open>name\<close> and
  \<open>title\<close>, bound to the table \<open>users\<close>.
\<close>

definition userT :: rtype where
  "userT = RStruct ''User'' [VString [], VString [], VString []]"

definition userFields :: fieldMap where
  "userFields = [(''id'', 0), (''name'', 1), (''title'', 2)]"

definition emptyDB :: DB where
  "emptyDB = \<lparr>experimentalModels = Map.empty\<rparr>"

definition ada :: gvalue where
  "ada = GStruct userT [VString ''42'', VString ''ada'', VString ''admin'']"

definition onlyId :: gvalue where
  "onlyId = GStruct userT [VString ''42'', VString [], VString []]"

subsection \<open>Binding a primary key\<close>

lemma encodePrimaryKeyCols_unknown:
  "col \<in> set cols \<Longrightarrow> map_of (mfields m) col = None \<Longrightarrow> encodePrimaryKeyCols X m v key cols \<noteq> Ok k"
proof (induction cols arbitrary: key)
  case Nil
  then show ?case by simp
next
  case (Cons c cols)
  show ?case
  proof (cases "c = col")
    case True
    with Cons.prems show ?thesis by simp
  next
    case False
    with Cons.prems have "col \<in> set cols" by simp
    from Cons.IH [OF this Cons.prems(2)] show ?thesis
      by (simp split: option.split outcome.split)
  qed
qed

lemma encodePrimaryKeyCols_append:
  "encodePrimaryKeyCols X m v key (pre @ post) =
     (case encodePrimaryKeyCols X m v key pre of
        Ok key' \<Rightarrow> encodePrimaryKeyCols X m v key' post
      | Fail err \<Rightarrow> Fail err
      | Panic \<Rightarrow> Panic)"
  by (induction pre arbitrary: key) (simp_all split: option.split outcome.split)

text \<open>
  C8 (as amended). \<^verbatim>\<open>BindModel\<close> does not compare the primary-key columns with the
  fields of the type. For a type that is not bound yet it succeeds and registers the model
  with the primary key it was given, also when a primary-key column is not among the bound
  fields. The unknown column is rejected later, when an operation encodes the primary key
  of a record: \<^verbatim>\<open>encodePrimaryKey\<close> never succeeds on that model, and it fails with
  \<open>unable to find field\<close> for the column when the columns before it encode.
\<close>

theorem bind_unknown_primary_key:
  assumes "experimentalModels db (deref t) = None"
    and "col \<in> set pk"
    and "col \<notin> set (map fst (getDBFields (deref t)))"
  shows "fst (BindModel getDBFields db nm t pk) = None
    \<and> (\<exists>m. experimentalModels (snd (BindModel getDBFields db nm t pk)) (deref t) = Some m
          \<and> name m = nm \<and> primaryKey m = pk \<and> mfields m = getDBFields (deref t)
          \<and> (\<forall>X v key. encodePrimaryKey X m v \<noteq> Ok key)
          \<and> (\<forall>X v pre post key.
                pk = pre @ col # post
                \<and> encodePrimaryKeyCols X m v (EncodeBytes X [] nm) pre = Ok key
                \<longrightarrow> encodePrimaryKey X m v = Fail (UnableToFindField nm col)))"
proof -
  define m where "m = \<lparr>name = nm, mfields = getDBFields (deref t), primaryKey = pk,
             otherColumns = filter (\<lambda>c. c \<notin> set pk) (map fst (getDBFields (deref t)))\<rparr>"
  have sel: "name m = nm" "mfields m = getDBFields (deref t)" "primaryKey m = pk"
    by (simp_all add: m_def)
  have bind: "BindModel getDBFields db nm t pk =
      (None, db\<lparr>experimentalModels := (experimentalModels db)(deref t \<mapsto> m)\<rparr>)"
    using assms(1) by (simp add: BindModel_def Let_def m_def)
  have unknown: "map_of (mfields m) col = None"
    using assms(3) by (simp add: sel map_of_eq_None_iff)
  have never: "encodePrimaryKey X m v \<noteq> Ok key" for X v key
    using encodePrimaryKeyCols_unknown [OF _ unknown, of pk] assms(2)
    by (simp add: encodePrimaryKey_def sel)
  have first: "encodePrimaryKey X m v = Fail (UnableToFindField nm col)"
    if "pk = pre @ col # post \<and> encodePrimaryKeyCols X m v (EncodeBytes X [] nm) pre = Ok key"
    for X v pre post key
    using that unknown by (simp add: encodePrimaryKey_def sel encodePrimaryKeyCols_append)
  have "\<forall>X v pre post key. pk = pre @ col # post
            \<and> encodePrimaryKeyCols X m v (EncodeBytes X [] nm) pre = Ok key
            \<longrightarrow> encodePrimaryKey X m v = Fail (UnableToFindField nm col)"
    using first by blast
  moreover have "\<forall>X v key. encodePrimaryKey X m v \<noteq> Ok key"
    using never by blast
  moreover have "experimentalModels (snd (BindModel getDBFields db nm t pk)) (deref t) = Some m"
    "fst (BindModel getDBFields db nm t pk) = None"
    unfolding bind by simp_all
  ultimately show ?thesis using sel by blast
qed

theorem bind_unknown_primary_key_witness:
  "fst (BindModel (\<lambda>t. userFields) emptyDB ''users'' userT [''nope'']) = None
   \<and> (\<exists>m. experimentalModels (snd (BindModel (\<lambda>t. userFields) emptyDB ''users'' userT [''nope'']))
            userT = Some m
         \<and> primaryKey m = [''nope'']
         \<and> encodePrimaryKey demoExternals m ada = Fail (UnableToFindField ''users'' ''nope''))"
proof -
  have "experimentalModels emptyDB (deref userT) = None" "''nope'' \<in> set [''nope'']"
    "''nope'' \<notin> set (map fst ((\<lambda>t. userFields) (deref userT)))" "deref userT = userT"
    by (simp_all add: emptyDB_def userFields_def userT_def)
  from bind_unknown_primary_key [OF this(1,2,3), of "''users''"] this(4)
  obtain m where m: "fst (BindModel (\<lambda>t. userFields) emptyDB ''users'' userT [''nope'']) = None"
    "experimentalModels (snd (BindModel (\<lambda>t. userFields) emptyDB ''users'' userT [''nope''])) userT
       = Some m"
    "primaryKey m = [''nope'']"
    "\<forall>X v pre post key. [''nope''] = pre @ ''nope'' # post
        \<and> encodePrimaryKeyCols X m v (EncodeBytes X [] ''users'') pre = Ok key
        \<longrightarrow> encodePrimaryKey X m v = Fail (UnableToFindField ''users'' ''nope'')"
    by auto
  from m(4) [rule_format, of "[]" "[]" demoExternals ada]
  have "encodePrimaryKey demoExternals m ada = Fail (UnableToFindField ''users'' ''nope'')"
    by simp
  with m(1,2,3) show ?thesis by blast
qed

text \<open>
  C8 as stated fails: binding \<^verbatim>\<open>User\<close> with the primary key \<open>nope\<close>, which is not among
  its columns, returns no error.
\<close>

theorem bind_unknown_primary_key_counterexample:
  "''nope'' \<notin> set (map fst userFields)
   \<and> fst (BindModel (\<lambda>t. userFields) emptyDB ''users'' userT [''nope'']) = None"
  by (simp add: userFields_def BindModel_def emptyDB_def userT_def Let_def)

subsection \<open>What the loops of the operations enqueue\<close>

lemma getStructCalls_Inr:
  "getStructCalls m obj pk cs cols = Inr cs' \<Longrightarrow>
     cs' = cs @ map (\<lambda>col. \<lparr>Args = GetRequest (encodeColumnKey pk col),
                             Post = GetStructPost obj (the (map_of (mfields m) col))\<rparr>) cols
     \<and> (\<forall>col\<in>set cols. map_of (mfields m) col \<noteq> None)"
proof (induction cols arbitrary: cs)
  case Nil
  then show ?case by simp
next
  case (Cons col cols)
  from Cons.prems obtain f where f: "map_of (mfields m) col = Some f"
    and rest: "getStructCalls m obj pk
        (cs @ [\<lparr>Args = GetRequest (encodeColumnKey pk col), Post = GetStructPost obj f\<rparr>]) cols
        = Inr cs'"
    by (auto split: option.splits)
  from Cons.IH [OF rest] f show ?case by simp
qed

lemma delStructCalls_Inr:
  "delStructCalls m pk cs cols = Inr cs' \<Longrightarrow>
     cs' = cs @ map (\<lambda>col. \<lparr>Args = DeleteRequest (encodeColumnKey pk col), Post = NoPost\<rparr>) cols
     \<and> (\<forall>col\<in>set cols. map_of (mfields m) col \<noteq> None)"
proof (induction cols arbitrary: cs)
  case Nil
  then show ?case by simp
next
  case (Cons col cols)
  from Cons.prems obtain f where f: "map_of (mfields m) col = Some f"
    and rest: "delStructCalls m pk
        (cs @ [\<lparr>Args = DeleteRequest (encodeColumnKey pk col), Post = NoPost\<rparr>]) cols = Inr cs'"
    by (auto split: option.splits)
  from Cons.IH [OF rest] f show ?case by simp
qed

lemma putStructCalls_Ok:
  "putStructCalls X m v pk cs cols = Ok cs' \<Longrightarrow>
     \<exists>vals. length vals = length cols
       \<and> cs' = cs @ map (\<lambda>(col, val). \<lparr>Args = PutRequest (encodeColumnKey pk col) val,
                                        Post = NoPost\<rparr>) (zip cols vals)"
proof (induction cols arbitrary: cs)
  case Nil
  then show ?case by simp
next
  case (Cons col cols)
  from Cons.prems obtain f x val where
    rest: "putStructCalls X m v pk
             (cs @ [\<lparr>Args = PutRequest (encodeColumnKey pk col)
                              (InitChecksum X (encodeColumnKey pk col) val),
                     Post = NoPost\<rparr>]) cols = Ok cs'"
    by (auto split: option.splits outcome.splits)
  from Cons.IH [OF rest] obtain vals where vals: "length vals = length cols"
    "cs' = (cs @ [\<lparr>Args = PutRequest (encodeColumnKey pk col)
                              (InitChecksum X (encodeColumnKey pk col) val),
                     Post = NoPost\<rparr>])
           @ map (\<lambda>(col, val). \<lparr>Args = PutRequest (encodeColumnKey pk col) val, Post = NoPost\<rparr>)
               (zip cols vals)"
    by blast
  then show ?case
    by (intro exI [of _ "InitChecksum X (encodeColumnKey pk col) val # vals"]) simp
qed

lemma getStructCalls_unknown:
  "col \<in> set cols \<Longrightarrow> map_of (mfields m) col = None \<Longrightarrow>
     \<exists>c\<in>set cols. getStructCalls m obj pk cs cols = Inl (UnableToFindField (name m) c)"
proof (induction cols arbitrary: cs)
  case Nil
  then show ?case by simp
next
  case (Cons c cols)
  show ?case
  proof (cases "map_of (mfields m) c")
    case None
    then show ?thesis by simp
  next
    case (Some f)
    with Cons.prems have "col \<in> set cols" by auto
    from Cons.IH [OF this Cons.prems(2)] Some show ?thesis by simp
  qed
qed

lemma putStructCalls_unknown:
  "col \<in> set cols \<Longrightarrow> map_of (mfields m) col = None \<Longrightarrow>
     putStructCalls X m v pk cs cols \<noteq> Ok cs'"
proof (induction cols arbitrary: cs)
  case Nil
  then show ?case by simp
next
  case (Cons c cols)
  show ?case
  proof (cases "c = col")
    case True
    with Cons.prems show ?thesis by simp
  next
    case False
    with Cons.prems have "col \<in> set cols" by simp
    from Cons.IH [OF this Cons.prems(2)] show ?thesis
      by (simp split: option.split outcome.split)
  qed
qed

subsection \<open>Setup errors\<close>

text \<open>The five row operations as one function of the operation and its arguments.\<close>

datatype rowOp =
    OpGet gvalue "string list"
  | OpPut gvalue "string list"
  | OpInc gvalue int64 string
  | OpScan gvalue gvalue gvalue int64 "string list"
  | OpDel gvalue "string list"

fun rowOperation :: "externals \<Rightarrow> heap \<Rightarrow> Batch \<Rightarrow> rowOp \<Rightarrow> Batch option" where
  "rowOperation X h b (OpGet obj columns) = GetStruct X h b obj columns"
| "rowOperation X h b (OpPut obj columns) = PutStruct X h b obj columns"
| "rowOperation X h b (OpInc obj val column) = IncStruct X h b obj val column"
| "rowOperation X h b (OpScan dest startObj endObj maxRows columns) =
     ScanStruct X h b dest startObj endObj maxRows columns"
| "rowOperation X h b (OpDel obj columns) = DelStruct X h b obj columns"

text \<open>
  The shape of every result: one more entry in \<^verbatim>\<open>Results\<close>; with an error, no call
  enqueued and the calls as before; without, new calls after the ones that were there.
\<close>

definition oneResult :: "Batch \<Rightarrow> Batch \<Rightarrow> bool" where
  "oneResult b b' \<longleftrightarrow>
     DB b' = DB b
     \<and> (\<exists>r. Results b' = Results b @ [r]
           \<and> (case Err r of
                 Some err \<Rightarrow> calls b' = calls b \<and> rcalls r = 0
               | None \<Rightarrow> (\<exists>new. calls b' = calls b @ new \<and> rcalls r = length new)))"

lemma oneResult_error: "oneResult b (initResult b 0 0 (Some err))"
  by (simp add: oneResult_def initResult_def)

lemma oneResult_calls:
  "n = length new \<Longrightarrow> oneResult b (initResult (b\<lparr>calls := calls b @ new\<rparr>) n k None)"
  by (simp add: oneResult_def initResult_def)

lemma GetStruct_oneResult: "GetStruct X h b obj columns = Some b' \<Longrightarrow> oneResult b b'"
  unfolding GetStruct_def
  by (auto split: outcome.splits sum.splits simp add: oneResult_error oneResult_calls)

lemma PutStruct_oneResult: "PutStruct X h b obj columns = Some b' \<Longrightarrow> oneResult b b'"
  unfolding PutStruct_def
  by (auto split: option.splits outcome.splits simp add: oneResult_error oneResult_calls)

lemma IncStruct_oneResult: "IncStruct X h b obj val column = Some b' \<Longrightarrow> oneResult b b'"
  unfolding IncStruct_def
  by (auto split: option.splits outcome.splits simp add: oneResult_error oneResult_calls)

lemma DelStruct_oneResult: "DelStruct X h b obj columns = Some b' \<Longrightarrow> oneResult b b'"
  unfolding DelStruct_def
  by (auto split: option.splits outcome.splits sum.splits simp add: oneResult_error oneResult_calls)

lemma scanStructSetup_oneResult:
  "scanStructSetup X h b dest elemT startObj endObj maxRows columns = Some b' \<Longrightarrow> oneResult b b'"
  unfolding scanStructSetup_def Let_def
  by (auto split: option.splits outcome.splits if_splits simp add: oneResult_error oneResult_calls)

lemma ScanStruct_oneResult:
  "ScanStruct X h b dest startObj endObj maxRows columns = Some b' \<Longrightarrow> oneResult b b'"
  unfolding ScanStruct_def
  by (auto split: gvalue.splits rtype.splits if_splits
      simp add: oneResult_error scanStructSetup_oneResult)

text \<open>The record behind an object: the object itself, or what the pointer points to.\<close>

definition recordOf :: "heap \<Rightarrow> gvalue \<Rightarrow> gvalue" where
  "recordOf h obj = (case indirect h obj of None \<Rightarrow> GOther | Some v \<Rightarrow> v)"

text \<open>The model that \<^verbatim>\<open>BindModel\<close> registers for \<^verbatim>\<open>User\<close> with the primary key \<open>id\<close>.\<close>

definition userModel :: model where
  "userModel = \<lparr>name = ''users'', mfields = userFields, primaryKey = [''id''],
                otherColumns = [''name'', ''title'']\<rparr>"

definition userDB :: DB where
  "userDB = snd (BindModel (\<lambda>t. userFields) emptyDB ''users'' userT [''id''])"

text \<open>A batch on \<open>userDB\<close> that already holds one call and its result.\<close>

definition batch1 :: Batch where
  "batch1 = \<lparr>DB = userDB,
             calls = [\<lparr>Args = DeleteRequest ''k'', Post = NoPost\<rparr>],
             Results = [\<lparr>rcalls = 1, rrows = 1, Err = None\<rparr>]\<rparr>"

lemma userDB_userT: "experimentalModels userDB userT = Some userModel"
  by (simp add: userDB_def BindModel_def emptyDB_def userT_def userFields_def userModel_def Let_def)

text \<open>
  C9. Every row operation that returns adds exactly one result to the batch. When the
  result carries an error, the error of the failed setup, no call of the operation is
  enqueued (the result counts 0 calls) and the calls of the batch are the ones that were
  there. An unbound record type fails \<^verbatim>\<open>GetStruct\<close> and \<^verbatim>\<open>PutStruct\<close> with
  \<open>unable to find model\<close>; a column that is not a field of the bound model fails
  \<^verbatim>\<open>GetStruct\<close> with \<open>unable to find field\<close>, and \<^verbatim>\<open>PutStruct\<close> with an error whenever it
  returns.
\<close>

theorem setup_errors_recorded:
  "(rowOperation X h b op = Some b' \<longrightarrow> oneResult b b')
   \<and> (isPtr (typeOf obj) \<and> experimentalModels (DB b) (deref (typeOf obj)) = None \<longrightarrow>
        GetStruct X h b obj columns = Some (initResult b 0 0 (Some UnableToFindModel)))
   \<and> (indirect h obj = Some v \<and> experimentalModels (DB b) (deref (typeOf v)) = None \<longrightarrow>
        PutStruct X h b obj columns = Some (initResult b 0 0 (Some UnableToFindModel)))
   \<and> (getModel (DB b) (typeOf obj) True = Ok m \<and> encodePrimaryKey X m (recordOf h obj) = Ok pk
        \<and> col \<in> set columns \<and> map_of (mfields m) col = None \<longrightarrow>
        (\<exists>c\<in>set columns.
           GetStruct X h b obj columns = Some (initResult b 0 0 (Some (UnableToFindField (name m) c)))))
   \<and> (indirect h obj = Some v \<and> getModel (DB b) (typeOf v) False = Ok m
        \<and> col \<in> set columns \<and> map_of (mfields m) col = None
        \<and> PutStruct X h b obj columns = Some b' \<longrightarrow>
        (\<exists>err. b' = initResult b 0 0 (Some err)))"
proof (intro conjI impI)
  assume "rowOperation X h b op = Some b'"
  then show "oneResult b b'"
    by (cases op)
      (simp_all add: GetStruct_oneResult PutStruct_oneResult IncStruct_oneResult
        ScanStruct_oneResult DelStruct_oneResult)
next
  assume "isPtr (typeOf obj) \<and> experimentalModels (DB b) (deref (typeOf obj)) = None"
  then show "GetStruct X h b obj columns = Some (initResult b 0 0 (Some UnableToFindModel))"
    by (simp add: GetStruct_def getModel_def)
next
  assume "indirect h obj = Some v \<and> experimentalModels (DB b) (deref (typeOf v)) = None"
  then show "PutStruct X h b obj columns = Some (initResult b 0 0 (Some UnableToFindModel))"
    by (simp add: PutStruct_def getModel_def)
next
  assume a: "getModel (DB b) (typeOf obj) True = Ok m \<and> encodePrimaryKey X m (recordOf h obj) = Ok pk
        \<and> col \<in> set columns \<and> map_of (mfields m) col = None"
  then have ne: "columns \<noteq> []" by auto
  from a getStructCalls_unknown [of col columns m obj pk "[]"]
  obtain c where "c \<in> set columns"
    "getStructCalls m obj pk [] columns = Inl (UnableToFindField (name m) c)"
    by blast
  with a ne show "\<exists>c\<in>set columns.
      GetStruct X h b obj columns = Some (initResult b 0 0 (Some (UnableToFindField (name m) c)))"
    by (intro bexI [of _ c]) (simp_all add: GetStruct_def recordOf_def)
next
  assume a: "indirect h obj = Some v \<and> getModel (DB b) (typeOf v) False = Ok m
        \<and> col \<in> set columns \<and> map_of (mfields m) col = None
        \<and> PutStruct X h b obj columns = Some b'"
  then have ne: "columns \<noteq> []" by auto
  from a have "putStructCalls X m v pk [] columns \<noteq> Ok cs" for pk cs
    using putStructCalls_unknown [of col columns m X v pk "[]" cs] by simp
  with a ne show "\<exists>err. b' = initResult b 0 0 (Some err)"
    by (auto simp add: PutStruct_def split: outcome.splits)
qed

theorem setup_errors_recorded_witness:
  "GetStruct demoExternals [onlyId] batch1 (GPtr userT 0) [''age'']
     = Some (initResult batch1 0 0 (Some (UnableToFindField ''users'' ''age'')))
   \<and> oneResult batch1 (initResult batch1 0 0 (Some (UnableToFindField ''users'' ''age'')))
   \<and> calls (initResult batch1 0 0 (Some (UnableToFindField ''users'' ''age'')))
       = [\<lparr>Args = DeleteRequest ''k'', Post = NoPost\<rparr>]
   \<and> PutStruct demoExternals [onlyId] (batch1\<lparr>DB := emptyDB\<rparr>) ada []
       = Some (initResult (batch1\<lparr>DB := emptyDB\<rparr>) 0 0 (Some UnableToFindModel))"
proof -
  let ?pk = "EncodeBytes demoExternals (EncodeBytes demoExternals [] ''users'') ''42''"
  note inst = setup_errors_recorded
    [where X = demoExternals and h = "[onlyId]" and b = batch1
       and op = "OpGet (GPtr userT 0) [''age'']"
       and b' = "initResult batch1 0 0 (Some (UnableToFindField ''users'' ''age''))"
       and obj = "GPtr userT 0" and columns = "[''age'']" and m = userModel and pk = ?pk
       and col = "''age''"]
  have m: "getModel (DB batch1) (typeOf (GPtr userT 0)) True = Ok userModel"
    by (simp add: getModel_def batch1_def userDB_userT)
  have pk: "encodePrimaryKey demoExternals userModel (recordOf [onlyId] (GPtr userT 0)) = Ok ?pk"
    by (simp add: encodePrimaryKey_def recordOf_def onlyId_def userModel_def userFields_def)
  have col: "''age'' \<in> set [''age'']" "map_of (mfields userModel) ''age'' = None"
    by (simp_all add: userModel_def userFields_def)
  from inst m pk col
  have get: "GetStruct demoExternals [onlyId] batch1 (GPtr userT 0) [''age'']
     = Some (initResult batch1 0 0 (Some (UnableToFindField ''users'' ''age'')))"
    by (simp add: userModel_def)
  with inst have one: "oneResult batch1 (initResult batch1 0 0 (Some (UnableToFindField ''users'' ''age'')))"
    by simp
  have put: "PutStruct demoExternals [onlyId] (batch1\<lparr>DB := emptyDB\<rparr>) ada []
       = Some (initResult (batch1\<lparr>DB := emptyDB\<rparr>) 0 0 (Some UnableToFindModel))"
    using setup_errors_recorded
      [where X = demoExternals and h = "[onlyId]" and b = "batch1\<lparr>DB := emptyDB\<rparr>"
         and obj = ada and v = ada and columns = "[]"]
    by (simp add: ada_def emptyDB_def)
  from get one put show ?thesis by (simp add: initResult_def batch1_def)
qed

subsection \<open>The layout of the keys\<close>

text \<open>
  The encoders append to the buffer they are given (\<^verbatim>\<open>encode_T(buf, v)\<close> of the design);
  under that reading of the codec a key is a concatenation.
\<close>

definition appending :: "externals \<Rightarrow> bool" where
  "appending X \<longleftrightarrow>
     (\<forall>b t. EncodeBytes X b t = b @ EncodeBytes X [] t)
     \<and> (\<forall>b i. EncodeVarint X b i = b @ EncodeVarint X [] i)
     \<and> (\<forall>b u. EncodeUvarint X b u = b @ EncodeUvarint X [] u)
     \<and> (\<forall>b f. EncodeNumericFloat X b f = b @ EncodeNumericFloat X [] f)"

text \<open>
  The encoding of the value of one primary-key column of a record, on its own, and the
  row prefix: the encoded table name followed by the encodings of the primary-key columns
  in the declared order.
\<close>

definition encodedField :: "externals \<Rightarrow> model \<Rightarrow> gvalue \<Rightarrow> string \<Rightarrow> string" where
  "encodedField X m v col =
     (case map_of (mfields m) col of
        None \<Rightarrow> []
      | Some f \<Rightarrow>
          (case fieldByIndex v f of
             None \<Rightarrow> []
           | Some x \<Rightarrow> (case encodeTableKey X [] x of Ok e \<Rightarrow> e | _ \<Rightarrow> [])))"

definition rowPrefix :: "externals \<Rightarrow> model \<Rightarrow> gvalue \<Rightarrow> string" where
  "rowPrefix X m v =
     EncodeBytes X [] (name m) @ concat (map (encodedField X m v) (primaryKey m))"

lemma encodeTableKey_appends:
  assumes "appending X" and "encodeTableKey X b x = Ok e"
  shows "\<exists>e0. encodeTableKey X [] x = Ok e0 \<and> e = b @ e0"
proof -
  from assms(1) have eb: "EncodeBytes X b t = b @ EncodeBytes X [] t"
    and ev: "EncodeVarint X b i = b @ EncodeVarint X [] i"
    and eu: "EncodeUvarint X b u = b @ EncodeUvarint X [] u"
    and ef: "EncodeNumericFloat X b f = b @ EncodeNumericFloat X [] f" for t i u f
    unfolding appending_def by blast+
  show ?thesis
  proof (cases x)
    case (VString s)
    with assms(2) eb [of s] show ?thesis by simp
  next
    case (VBytes s)
    with assms(2) eb [of "stringOf s"] show ?thesis by simp
  next
    case (VBool v)
    with assms(2) ev [of "if v then 1 else 0"] show ?thesis by simp
  next
    case (VInt i)
    with assms(2) ev [of "Int_of i"] show ?thesis by simp
  next
    case (VUint u)
    with assms(2) eu [of "Uint_of u"] show ?thesis by simp
  next
    case (VFloat f)
    with assms(2) ef [of "Float_of f"] show ?thesis by simp
  next
    case (VKindString s)
    with assms(2) eb [of s] show ?thesis by simp
  qed (use assms(2) in simp_all)
qed

lemma encodePrimaryKeyCols_concat:
  assumes "appending X"
  shows "encodePrimaryKeyCols X m v key cols = Ok k \<Longrightarrow>
           k = key @ concat (map (encodedField X m v) cols)"
proof (induction cols arbitrary: key)
  case Nil
  then show ?case by simp
next
  case (Cons col cols)
  from Cons.prems obtain f x key' where f: "map_of (mfields m) col = Some f"
    and x: "fieldByIndex v f = Some x" and e: "encodeTableKey X key x = Ok key'"
    and rest: "encodePrimaryKeyCols X m v key' cols = Ok k"
    by (auto split: option.splits outcome.splits)
  from encodeTableKey_appends [OF assms e] obtain e0 where
    e0: "encodeTableKey X [] x = Ok e0" "key' = key @ e0" by blast
  with f x have "encodedField X m v col = e0" by (simp add: encodedField_def)
  with Cons.IH [OF rest] e0 show ?case by simp
qed

lemma encodePrimaryKey_rowPrefix:
  "appending X \<Longrightarrow> encodePrimaryKey X m v = Ok k \<Longrightarrow> k = rowPrefix X m v"
  using encodePrimaryKeyCols_concat [of X m v "EncodeBytes X [] (name m)" "primaryKey m" k]
  by (simp add: encodePrimaryKey_def rowPrefix_def)

lemma GetStruct_keys:
  assumes "appending X" and "GetStruct X h b obj columns = Some b'"
    and "getModel (DB b) (typeOf obj) True = Ok m"
    and "c \<in> set (drop (length (calls b)) (calls b'))"
  shows "\<exists>col\<in>set (if columns = [] then otherColumns m else columns).
           Args c = GetRequest (rowPrefix X m (recordOf h obj) @ col)"
proof -
  let ?cols = "if columns = [] then otherColumns m else columns"
  show ?thesis
  proof (cases "encodePrimaryKey X m (recordOf h obj)")
    case (Ok pk)
    then have pk: "pk = rowPrefix X m (recordOf h obj)"
      using encodePrimaryKey_rowPrefix [OF assms(1)] by simp
    show ?thesis
    proof (cases "getStructCalls m obj pk [] ?cols")
      case (Inl err)
      with assms(2,3) Ok have "calls b' = calls b"
        by (auto simp add: GetStruct_def recordOf_def initResult_def)
      with assms(4) show ?thesis by simp
    next
      case (Inr cs)
      from getStructCalls_Inr [OF Inr] have cs: "cs = map (\<lambda>col. \<lparr>Args = GetRequest (encodeColumnKey pk col),
                             Post = GetStructPost obj (the (map_of (mfields m) col))\<rparr>) ?cols"
        by simp
      from assms Ok Inr have "calls b' = calls b @ cs"
        by (auto simp add: GetStruct_def recordOf_def initResult_def)
      with assms(4) have "c \<in> set cs" by simp
      with cs pk show ?thesis by (auto simp add: encodeColumnKey_def)
    qed
  next
    case (Fail err)
    with assms(2,3) have "calls b' = calls b"
      by (auto simp add: GetStruct_def recordOf_def initResult_def)
    with assms(4) show ?thesis by simp
  next
    case Panic
    with assms(2,3) show ?thesis by (simp add: GetStruct_def recordOf_def)
  qed
qed

lemma DelStruct_keys:
  assumes "appending X" and "DelStruct X h b obj columns = Some b'"
    and "getModel (DB b) (typeOf (recordOf h obj)) False = Ok m"
    and "c \<in> set (drop (length (calls b)) (calls b'))"
  shows "\<exists>col\<in>set (if columns = [] then otherColumns m else columns).
           Args c = DeleteRequest (rowPrefix X m (recordOf h obj) @ col)"
proof -
  let ?cols = "if columns = [] then otherColumns m else columns"
  from assms(2) obtain v where v: "indirect h obj = Some v"
    by (auto simp add: DelStruct_def split: option.splits)
  then have rec: "recordOf h obj = v" by (simp add: recordOf_def)
  show ?thesis
  proof (cases "encodePrimaryKey X m v")
    case (Ok pk)
    then have pk: "pk = rowPrefix X m v"
      using encodePrimaryKey_rowPrefix [OF assms(1)] by simp
    show ?thesis
    proof (cases "delStructCalls m pk [] ?cols")
      case (Inl err)
      with assms(2,3) v rec Ok have "calls b' = calls b"
        by (auto simp add: DelStruct_def initResult_def)
      with assms(4) show ?thesis by simp
    next
      case (Inr cs)
      from delStructCalls_Inr [OF Inr] have cs: "cs = map (\<lambda>col.
          \<lparr>Args = DeleteRequest (encodeColumnKey pk col), Post = NoPost\<rparr>) ?cols"
        by simp
      from assms v rec Ok Inr have "calls b' = calls b @ cs"
        by (auto simp add: DelStruct_def initResult_def)
      with assms(4) have "c \<in> set cs" by simp
      with cs pk rec show ?thesis by (auto simp add: encodeColumnKey_def)
    qed
  next
    case (Fail err)
    with assms(2,3) v rec have "calls b' = calls b"
      by (auto simp add: DelStruct_def initResult_def)
    with assms(4) show ?thesis by simp
  next
    case Panic
    with assms(2,3) v rec show ?thesis by (simp add: DelStruct_def)
  qed
qed

lemma PutStruct_keys:
  assumes "appending X" and "PutStruct X h b obj columns = Some b'"
    and "getModel (DB b) (typeOf (recordOf h obj)) False = Ok m"
    and "c \<in> set (drop (length (calls b)) (calls b'))"
  shows "\<exists>col\<in>set (if columns = [] then otherColumns m else columns).
           \<exists>val. Args c = PutRequest (rowPrefix X m (recordOf h obj) @ col) val"
proof -
  let ?cols = "if columns = [] then otherColumns m else columns"
  from assms(2) obtain v where v: "indirect h obj = Some v"
    by (auto simp add: PutStruct_def split: option.splits)
  then have rec: "recordOf h obj = v" by (simp add: recordOf_def)
  show ?thesis
  proof (cases "encodePrimaryKey X m v")
    case (Ok pk)
    then have pk: "pk = rowPrefix X m v"
      using encodePrimaryKey_rowPrefix [OF assms(1)] by simp
    show ?thesis
    proof (cases "putStructCalls X m v pk [] ?cols")
      case (Ok cs)
      from putStructCalls_Ok [OF Ok] obtain vals where vals: "length vals = length ?cols"
        "cs = map (\<lambda>(col, val). \<lparr>Args = PutRequest (encodeColumnKey pk col) val, Post = NoPost\<rparr>)
                (zip ?cols vals)"
        by auto
      from assms v rec \<open>encodePrimaryKey X m v = Ok pk\<close> Ok have "calls b' = calls b @ cs"
        by (auto simp add: PutStruct_def initResult_def)
      with assms(4) have "c \<in> set cs" by simp
      with vals(2) obtain col val where "(col, val) \<in> set (zip ?cols vals)"
        "c = \<lparr>Args = PutRequest (encodeColumnKey pk col) val, Post = NoPost\<rparr>"
        by auto
      then have "col \<in> set ?cols" "Args c = PutRequest (rowPrefix X m v @ col) val"
        using pk by (auto dest: set_zip_leftD simp add: encodeColumnKey_def)
      with rec show ?thesis by blast
    next
      case (Fail err)
      with assms(2,3) v rec \<open>encodePrimaryKey X m v = Ok pk\<close> have "calls b' = calls b"
        by (auto simp add: PutStruct_def initResult_def)
      with assms(4) show ?thesis by simp
    next
      case Panic
      with assms(2,3) v rec \<open>encodePrimaryKey X m v = Ok pk\<close> show ?thesis
        by (simp add: PutStruct_def)
    qed
  next
    case (Fail err)
    with assms(2,3) v rec have "calls b' = calls b"
      by (auto simp add: PutStruct_def initResult_def)
    with assms(4) show ?thesis by simp
  next
    case Panic
    with assms(2,3) v rec show ?thesis by (simp add: PutStruct_def)
  qed
qed

lemma IncStruct_keys:
  assumes "appending X" and "IncStruct X h b obj val column = Some b'"
    and "getModel (DB b) (typeOf obj) True = Ok m"
    and "c \<in> set (drop (length (calls b)) (calls b'))"
  shows "Args c = IncrementRequest (rowPrefix X m (recordOf h obj) @ column) val"
proof (cases "encodePrimaryKey X m (recordOf h obj)")
  case (Ok pk)
  then have pk: "pk = rowPrefix X m (recordOf h obj)"
    using encodePrimaryKey_rowPrefix [OF assms(1)] by simp
  show ?thesis
  proof (cases "map_of (mfields m) column")
    case None
    with assms(2,3) Ok have "calls b' = calls b"
      by (auto simp add: IncStruct_def recordOf_def initResult_def)
    with assms(4) show ?thesis by simp
  next
    case (Some f)
    with assms(2,3) Ok have "calls b' = calls b @
        [\<lparr>Args = IncrementRequest (encodeColumnKey pk column) val, Post = IncStructPost obj f\<rparr>]"
      by (auto simp add: IncStruct_def recordOf_def initResult_def)
    with assms(4) pk show ?thesis by (simp add: encodeColumnKey_def)
  qed
next
  case (Fail err)
  with assms(2,3) have "calls b' = calls b"
    by (auto simp add: IncStruct_def recordOf_def initResult_def)
  with assms(4) show ?thesis by simp
next
  case Panic
  with assms(2,3) show ?thesis by (simp add: IncStruct_def recordOf_def)
qed

lemma appending_demoExternals: "appending demoExternals"
  by (simp add: appending_def demoExternals_def)

text \<open>
  C4. For every bound model and record, every key that \<^verbatim>\<open>GetStruct\<close>, \<^verbatim>\<open>PutStruct\<close>,
  \<^verbatim>\<open>IncStruct\<close> or \<^verbatim>\<open>DelStruct\<close> enqueues is the row prefix of the record followed by the
  raw bytes of a column name, where the row prefix is the bytes-encoding of the table name
  followed by the encodings of the record's primary-key column values in the declared
  order; the column is one of the columns of the operation (\<^verbatim>\<open>m.otherColumns\<close> for an
  empty column list).
\<close>

theorem row_operation_keys:
  assumes "appending X"
  shows "(GetStruct X h b obj columns = Some b' \<and> getModel (DB b) (typeOf obj) True = Ok m
            \<and> c \<in> set (drop (length (calls b)) (calls b')) \<longrightarrow>
          (\<exists>col\<in>set (if columns = [] then otherColumns m else columns).
             Args c = GetRequest (rowPrefix X m (recordOf h obj) @ col)))
       \<and> (PutStruct X h b obj columns = Some b'
            \<and> getModel (DB b) (typeOf (recordOf h obj)) False = Ok m
            \<and> c \<in> set (drop (length (calls b)) (calls b')) \<longrightarrow>
          (\<exists>col\<in>set (if columns = [] then otherColumns m else columns).
             \<exists>val. Args c = PutRequest (rowPrefix X m (recordOf h obj) @ col) val))
       \<and> (IncStruct X h b obj delta column = Some b' \<and> getModel (DB b) (typeOf obj) True = Ok m
            \<and> c \<in> set (drop (length (calls b)) (calls b')) \<longrightarrow>
          Args c = IncrementRequest (rowPrefix X m (recordOf h obj) @ column) delta)
       \<and> (DelStruct X h b obj columns = Some b'
            \<and> getModel (DB b) (typeOf (recordOf h obj)) False = Ok m
            \<and> c \<in> set (drop (length (calls b)) (calls b')) \<longrightarrow>
          (\<exists>col\<in>set (if columns = [] then otherColumns m else columns).
             Args c = DeleteRequest (rowPrefix X m (recordOf h obj) @ col)))"
  using GetStruct_keys [OF assms, of h b obj columns b' m c]
    PutStruct_keys [OF assms, of h b obj columns b' m c]
    IncStruct_keys [OF assms, of h b obj delta column b' m c]
    DelStruct_keys [OF assms, of h b obj columns b' m c]
  by blast

text \<open>A fresh batch on \<open>userDB\<close>.\<close>

definition batch0 :: Batch where
  "batch0 = \<lparr>DB = userDB, calls = [], Results = []\<rparr>"

lemma deref_userT: "deref userT = userT"
  by (simp add: userT_def)

lemma typeOf_ada: "typeOf ada = userT"
  by (simp add: ada_def)

lemma getModel_userDB: "getModel userDB userT False = Ok userModel"
  by (simp add: getModel_def deref_userT userDB_userT)

lemma recordOf_ada: "recordOf h ada = ada"
  by (simp add: recordOf_def ada_def)

lemma rowPrefix_ada:
  "rowPrefix X userModel ada = EncodeBytes X [] ''users'' @ EncodeBytes X [] ''42''"
  by (simp add: rowPrefix_def encodedField_def userModel_def userFields_def ada_def)

lemma PutStruct_ada:
  "PutStruct X h batch0 ada [] =
     Some \<lparr>DB = userDB,
           calls =
             [\<lparr>Args = PutRequest (EncodeBytes X (EncodeBytes X [] ''users'') ''42'' @ ''name'')
                        (InitChecksum X (EncodeBytes X (EncodeBytes X [] ''users'') ''42'' @ ''name'')
                           (emptyValue\<lparr>Bytes := Some ''ada''\<rparr>)),
               Post = NoPost\<rparr>,
              \<lparr>Args = PutRequest (EncodeBytes X (EncodeBytes X [] ''users'') ''42'' @ ''title'')
                        (InitChecksum X (EncodeBytes X (EncodeBytes X [] ''users'') ''42'' @ ''title'')
                           (emptyValue\<lparr>Bytes := Some ''admin''\<rparr>)),
               Post = NoPost\<rparr>],
           Results = [\<lparr>rcalls = 2, rrows = 2, Err = None\<rparr>]\<rparr>"
proof -
  have "getModel (DB batch0) (typeOf ada) False = Ok userModel"
    by (simp add: batch0_def typeOf_ada getModel_userDB)
  moreover have "indirect h ada = Some ada"
    by (simp add: ada_def)
  moreover have "encodePrimaryKey X userModel ada
      = Ok (EncodeBytes X (EncodeBytes X [] ''users'') ''42'')"
    by (simp add: encodePrimaryKey_def userModel_def userFields_def ada_def)
  moreover have "putStructCalls X userModel ada pk [] (otherColumns userModel) =
      Ok [\<lparr>Args = PutRequest (pk @ ''name'')
                 (InitChecksum X (pk @ ''name'') (emptyValue\<lparr>Bytes := Some ''ada''\<rparr>)),
             Post = NoPost\<rparr>,
          \<lparr>Args = PutRequest (pk @ ''title'')
                 (InitChecksum X (pk @ ''title'') (emptyValue\<lparr>Bytes := Some ''admin''\<rparr>)),
             Post = NoPost\<rparr>]" for pk
    by (simp add: userModel_def userFields_def ada_def encodeColumnKey_def)
  ultimately show ?thesis
    by (simp add: PutStruct_def initResult_def batch0_def)
qed

theorem row_operation_keys_witness:
  "\<exists>val. Args (calls (the (PutStruct demoExternals [] batch0 ada [])) ! 1)
           = PutRequest (escapeBytes ''users'' @ escapeBytes ''42'' @ ''title'') val"
proof -
  let ?b' = "the (PutStruct demoExternals [] batch0 ada [])"
  have some: "PutStruct demoExternals [] batch0 ada [] = Some ?b'"
    by (simp add: PutStruct_ada)
  have m: "getModel (DB batch0) (typeOf (recordOf [] ada)) False = Ok userModel"
    by (simp add: batch0_def recordOf_ada typeOf_ada getModel_userDB)
  have "length (calls batch0) = 0" by (simp add: batch0_def)
  then have c: "calls ?b' ! 1 \<in> set (drop (length (calls batch0)) (calls ?b'))"
    by (simp add: PutStruct_ada)
  from row_operation_keys [OF appending_demoExternals, where h = "[]" and b = batch0 and obj = ada
      and columns = "[]" and b' = ?b' and m = userModel and c = "calls ?b' ! 1" and delta = 0
      and column = "[]", THEN conjunct2, THEN conjunct1] some m c
  obtain col val where col: "col \<in> set (otherColumns userModel)"
    "Args (calls ?b' ! 1) = PutRequest (rowPrefix demoExternals userModel (recordOf [] ada) @ col) val"
    by auto
  have "Args (calls ?b' ! 1)
      = PutRequest (EncodeBytes demoExternals (EncodeBytes demoExternals [] ''users'') ''42'' @ ''title'')
          (InitChecksum demoExternals
             (EncodeBytes demoExternals (EncodeBytes demoExternals [] ''users'') ''42'' @ ''title'')
             (emptyValue\<lparr>Bytes := Some ''admin''\<rparr>))"
    by (simp add: PutStruct_ada)
  with col(2) have "rowPrefix demoExternals userModel (recordOf [] ada) @ col
      = EncodeBytes demoExternals (EncodeBytes demoExternals [] ''users'') ''42'' @ ''title''"
    by simp
  then have "rowPrefix demoExternals userModel (recordOf [] ada) @ col
      = escapeBytes ''users'' @ escapeBytes ''42'' @ ''title''"
    by (simp add: demoExternals_def)
  with col(2) show ?thesis by auto
qed

subsection \<open>A put followed by a get\<close>

lemma two_orders:
  assumes "distinct xs" and "set xs = {a, b}" and "a \<noteq> b"
  shows "xs = [a, b] \<or> xs = [b, a]"
proof -
  from assms have "length xs = 2" using distinct_card [of xs] by simp
  then obtain x y where xs: "xs = [x, y]"
    by (cases xs; simp; rename_tac z zs; case_tac zs; simp)
  with assms show ?thesis by (auto simp add: doubleton_eq_iff)
qed

text \<open>
  The cycle for a model of \<^verbatim>\<open>User\<close> whose two other columns come in either order: the
  columns \<open>c1\<close> and \<open>c2\<close> with the fields \<open>f1\<close> and \<open>f2\<close> holding the strings \<open>x1\<close> and
  \<open>x2\<close>.
\<close>

lemma put_get_cycle_columns:
  assumes m: "name m = ''users''" "primaryKey m = [''id'']" "map_of (mfields m) ''id'' = Some 0"
    and oc: "otherColumns m = [c1, c2]" "c1 \<noteq> c2"
      "map_of (mfields m) c1 = Some f1" "map_of (mfields m) c2 = Some f2"
    and f: "f1 = 1 \<and> f2 = 2 \<and> x1 = ''ada'' \<and> x2 = ''admin''
            \<or> f1 = 2 \<and> f2 = 1 \<and> x1 = ''admin'' \<and> x2 = ''ada''"
    and b: "experimentalModels (DB b) userT = Some m" "calls b = []" "Results b = []"
  shows "\<exists>b1 s1 b2.
           PutStruct X [onlyId] b ada [] = Some b1
         \<and> length (calls b1) = 2
         \<and> (\<forall>c\<in>set (calls b1). \<exists>k v. Args c = PutRequest k v)
         \<and> Results b1 = [\<lparr>rcalls = 2, rrows = 2, Err = None\<rparr>]
         \<and> runBatch X Map.empty [onlyId] b1 = Some (s1, [onlyId], [None, None])
         \<and> GetStruct X [onlyId] b (GPtr userT 0) [] = Some b2
         \<and> length (calls b2) = 2
         \<and> runBatch X s1 [onlyId] b2 = Some (s1, [ada], [None, None])"
proof -
  define pk where "pk = EncodeBytes X (EncodeBytes X [] ''users'') ''42''"
  define v1 where "v1 = InitChecksum X (pk @ c1) (emptyValue\<lparr>Bytes := Some x1\<rparr>)"
  define v2 where "v2 = InitChecksum X (pk @ c2) (emptyValue\<lparr>Bytes := Some x2\<rparr>)"
  define puts where "puts = [\<lparr>Args = PutRequest (pk @ c1) v1, Post = NoPost\<rparr>,
                             \<lparr>Args = PutRequest (pk @ c2) v2, Post = NoPost\<rparr>]"
  define gets where "gets = [\<lparr>Args = GetRequest (pk @ c1), Post = GetStructPost (GPtr userT 0) f1\<rparr>,
                             \<lparr>Args = GetRequest (pk @ c2), Post = GetStructPost (GPtr userT 0) f2\<rparr>]"
  define b1 where "b1 = initResult (b\<lparr>calls := calls b @ puts\<rparr>) 2 2 None"
  define b2 where "b2 = initResult (b\<lparr>calls := calls b @ gets\<rparr>) 2 2 None"
  define s1 where "s1 = [pk @ c1 \<mapsto> v1, pk @ c2 \<mapsto> v2]"
  have gm: "getModel (DB b) (typeOf ada) False = Ok m"
    "getModel (DB b) (typeOf (GPtr userT 0)) True = Ok m"
    using b(1) by (simp_all add: getModel_def typeOf_ada deref_userT)
  have ind: "indirect [onlyId] ada = Some ada" "indirect [onlyId] (GPtr userT 0) = Some onlyId"
    by (simp_all add: ada_def)
  have enc: "encodePrimaryKey X m ada = Ok pk" "encodePrimaryKey X m onlyId = Ok pk"
    using m by (simp_all add: encodePrimaryKey_def ada_def onlyId_def pk_def)
  have putc: "putStructCalls X m ada pk [] [c1, c2] = Ok puts"
    using oc f by (auto simp add: ada_def encodeColumnKey_def puts_def v1_def v2_def emptyValue_def)
  have getc: "getStructCalls m (GPtr userT 0) pk [] [c1, c2] = Inr gets"
    using oc by (simp add: encodeColumnKey_def gets_def)
  have put: "PutStruct X [onlyId] b ada [] = Some b1"
    using gm ind enc putc oc(1) by (simp add: PutStruct_def b1_def puts_def numeral_2_eq_2)
  have get: "GetStruct X [onlyId] b (GPtr userT 0) [] = Some b2"
    using gm ind enc getc oc(1) by (simp add: GetStruct_def b2_def gets_def numeral_2_eq_2)
  have c1: "calls b1 = puts" and c2: "calls b2 = gets"
    using b(2) by (simp_all add: b1_def b2_def initResult_def)
  have r1: "Results b1 = [\<lparr>rcalls = 2, rrows = 2, Err = None\<rparr>]"
    using b(3) by (simp add: b1_def initResult_def)
  have run1: "runBatch X Map.empty [onlyId] b1 = Some (s1, [onlyId], [None, None])"
    by (simp add: runBatch_def c1 puts_def s1_def)
  have look: "s1 (pk @ c1) = Some v1" "s1 (pk @ c2) = Some v2"
    using oc(2) by (simp_all add: s1_def)
  have send2: "sendCalls s1 gets = Some (s1, [GetResponse (Some v1), GetResponse (Some v2)])"
    by (simp add: gets_def look)
  have un: "unmarshalTableValue X (Some v1) (VString y) = Ok (VString x1)"
    "unmarshalTableValue X (Some v2) (VString y) = Ok (VString x2)" for y
    by (simp_all add: v1_def v2_def InitChecksum_def emptyValue_def stringOf_def)
  have posts: "runPosts X [onlyId]
      (zip gets [GetResponse (Some v1), GetResponse (Some v2)]) = Some ([None, None], [ada])"
    using f
    by (elim disjE conjE)
      (simp_all add: gets_def unmarshalField_def onlyId_def ada_def un
        del: unmarshalTableValue.simps)
  have run2: "runBatch X s1 [onlyId] b2 = Some (s1, [ada], [None, None])"
    by (simp add: runBatch_def c2 send2 posts)
  from put get c1 c2 r1 run1 run2 show ?thesis
    by (intro exI [of _ b1] exI [of _ s1] exI [of _ b2]) (auto simp add: puts_def gets_def)
qed

text \<open>
  A fresh batch on the database in which \<^verbatim>\<open>User\<close> is bound to \<open>users\<close> with the primary
  key \<open>id\<close>; \<open>fs\<close> is the field map of \<^verbatim>\<open>User\<close> in the order in which \<^verbatim>\<open>BindModel\<close>
  iterates over it.
\<close>

definition userBatch :: "fieldMap \<Rightarrow> Batch" where
  "userBatch fs =
     \<lparr>DB = snd (BindModel (\<lambda>t. fs) emptyDB ''users'' userT [''id'']), calls = [], Results = []\<rparr>"

text \<open>
  C3 (as amended). After binding \<^verbatim>\<open>User = (id string primary key, name string, title
  string)\<close> to the table \<open>users\<close>, in whatever order the field map is iterated,
  \<^verbatim>\<open>PutStruct\<close> of \<^verbatim>\<open>User{"42","ada","admin"}\<close> with an empty column list enqueues two
  \<^verbatim>\<open>Put\<close> calls, one for each column that is not in the primary key (the primary key is
  part of the keys and is not stored as a cell). Running them on an empty store and then
  running \<^verbatim>\<open>GetStruct\<close> on a pointer to a record holding only \<open>id = "42"\<close> populates that
  record so that it equals the original.
\<close>

theorem put_get_cycle:
  assumes "distinct (map fst fs)" and "set fs = set userFields"
  shows "fst (BindModel (\<lambda>t. fs) emptyDB ''users'' userT [''id'']) = None
       \<and> (\<exists>b1 s1 b2.
             PutStruct X [onlyId] (userBatch fs) ada [] = Some b1
           \<and> length (calls b1) = 2
           \<and> (\<forall>c\<in>set (calls b1). \<exists>k v. Args c = PutRequest k v)
           \<and> Results b1 = [\<lparr>rcalls = 2, rrows = 2, Err = None\<rparr>]
           \<and> runBatch X Map.empty [onlyId] b1 = Some (s1, [onlyId], [None, None])
           \<and> GetStruct X [onlyId] (userBatch fs) (GPtr userT 0) [] = Some b2
           \<and> length (calls b2) = 2
           \<and> runBatch X s1 [onlyId] b2 = Some (s1, [ada], [None, None]))"
proof
  define m where "m = \<lparr>name = ''users'', mfields = fs, primaryKey = [''id''],
      otherColumns = filter (\<lambda>col. col \<notin> set [''id'']) (map fst fs)\<rparr>"
  have bind: "BindModel (\<lambda>t. fs) emptyDB ''users'' userT [''id'']
      = (None, emptyDB\<lparr>experimentalModels := (experimentalModels emptyDB)(userT \<mapsto> m)\<rparr>)"
    by (simp add: BindModel_def deref_userT emptyDB_def Let_def m_def)
  then show "fst (BindModel (\<lambda>t. fs) emptyDB ''users'' userT [''id'']) = None" by simp
  have look: "map_of fs ''id'' = Some 0" "map_of fs ''name'' = Some 1" "map_of fs ''title'' = Some 2"
    using assms by (simp_all add: map_of_is_SomeI userFields_def)
  have "fst ` set fs = {''id'', ''name'', ''title''}"
    using assms(2) by (simp add: userFields_def)
  then have "set (otherColumns m) = {''name'', ''title''}"
    by (auto simp add: m_def)
  moreover have "distinct (otherColumns m)"
    using assms(1) by (simp add: m_def)
  ultimately have oc: "otherColumns m = [''name'', ''title''] \<or> otherColumns m = [''title'', ''name'']"
    using two_orders [of "otherColumns m" "''name''" "''title''"] by simp
  have sel: "name m = ''users''" "primaryKey m = [''id'']" "mfields m = fs"
    by (simp_all add: m_def)
  have b: "experimentalModels (DB (userBatch fs)) userT = Some m"
    "calls (userBatch fs) = []" "Results (userBatch fs) = []"
    by (simp_all add: userBatch_def bind)
  from oc show "\<exists>b1 s1 b2.
             PutStruct X [onlyId] (userBatch fs) ada [] = Some b1
           \<and> length (calls b1) = 2
           \<and> (\<forall>c\<in>set (calls b1). \<exists>k v. Args c = PutRequest k v)
           \<and> Results b1 = [\<lparr>rcalls = 2, rrows = 2, Err = None\<rparr>]
           \<and> runBatch X Map.empty [onlyId] b1 = Some (s1, [onlyId], [None, None])
           \<and> GetStruct X [onlyId] (userBatch fs) (GPtr userT 0) [] = Some b2
           \<and> length (calls b2) = 2
           \<and> runBatch X s1 [onlyId] b2 = Some (s1, [ada], [None, None])"
  proof
    assume o: "otherColumns m = [''name'', ''title'']"
    show ?thesis
      by (rule put_get_cycle_columns [where m = m and ?c1.0 = "''name''" and ?c2.0 = "''title''"
            and ?f1.0 = 1 and ?f2.0 = 2 and ?x1.0 = "''ada''" and ?x2.0 = "''admin''"])
        (simp_all add: sel look o b)
  next
    assume o: "otherColumns m = [''title'', ''name'']"
    show ?thesis
      by (rule put_get_cycle_columns [where m = m and ?c1.0 = "''title''" and ?c2.0 = "''name''"
            and ?f1.0 = 2 and ?f2.0 = 1 and ?x1.0 = "''admin''" and ?x2.0 = "''ada''"])
        (simp_all add: sel look o b)
  qed
qed

theorem put_get_cycle_witness:
  "fst (BindModel (\<lambda>t. userFields) emptyDB ''users'' userT [''id'']) = None
   \<and> (\<exists>b1 s1 b2.
         PutStruct demoExternals [onlyId] (userBatch userFields) ada [] = Some b1
       \<and> length (calls b1) = 2
       \<and> (\<forall>c\<in>set (calls b1). \<exists>k v. Args c = PutRequest k v)
       \<and> Results b1 = [\<lparr>rcalls = 2, rrows = 2, Err = None\<rparr>]
       \<and> runBatch demoExternals Map.empty [onlyId] b1 = Some (s1, [onlyId], [None, None])
       \<and> GetStruct demoExternals [onlyId] (userBatch userFields) (GPtr userT 0) [] = Some b2
       \<and> length (calls b2) = 2
       \<and> runBatch demoExternals s1 [onlyId] b2 = Some (s1, [ada], [None, None]))"
proof -
  have "distinct (map fst userFields)" "set userFields = set userFields"
    by (simp_all add: userFields_def)
  from put_get_cycle [OF this, of demoExternals] show ?thesis .
qed

text \<open>
  C3 as stated fails: the empty column list stands for the two columns outside the primary
  key, so \<^verbatim>\<open>PutStruct\<close> enqueues two calls, not three.
\<close>

theorem put_get_cycle_counterexample:
  "map_option (\<lambda>b. length (calls b))
     (PutStruct demoExternals [onlyId] (userBatch userFields) ada []) = Some 2
   \<and> map_option (\<lambda>b. length (calls b))
     (PutStruct demoExternals [onlyId] (userBatch userFields) ada []) \<noteq> Some 3"
proof -
  have "userBatch userFields = batch0"
    by (simp add: userBatch_def batch0_def userDB_def)
  then show ?thesis by (simp add: PutStruct_ada)
qed

end
